theory Spec2Isabelle
  imports Complex_Main
begin

section \<open>Errors and arrays\<close>

text \<open>
  The exceptions the Python code can raise are values.  An assertion carries which of the
  assertions of \<^verbatim>\<open>pyx.py\<close> failed: those of the constructor, the one in \<^verbatim>\<open>colors\<close>, and
  the two at the head of \<^verbatim>\<open>transform\<close>.
\<close>

datatype assertion =
    HeightPositive | WidthPositive | FactorPositive | SobelAtLeastTwo
  | UpscaleLength | UpscalePositive | DepthPositive
  | CallFitFirst | CallFitBeforeTransform | TooManyColors

datatype py_error =
    AssertionError assertion
  | ValueError
  | TypeError
  | ZeroDivisionError
  | IndexError
  | AttributeError
  | NotFittedError

text \<open>
  A numpy array of shape \<open>(h, w, d)\<close>: the shape is stored beside the data, as numpy does,
  so an array with an empty axis still knows its other extents.  The data are the rows, each
  row a list of pixels, each pixel the list of its \<open>d\<close> samples.
\<close>

record 'a image =
  im_h :: nat
  im_w :: nat
  im_d :: nat
  im_px :: "'a list list list"

definition wf_image :: "'a image \<Rightarrow> bool" where
  "wf_image X \<longleftrightarrow>
     length (im_px X) = im_h X \<and>
     list_all (\<lambda>row. length row = im_w X \<and> list_all (\<lambda>p. length p = im_d X) row) (im_px X)"

section \<open>Padding (\<^verbatim>\<open>Pyx._pad\<close>)\<close>

text \<open>
  \<^verbatim>\<open>np.pad(..., "edge")\<close> along one axis: the first element repeated \<open>before\<close> times in
  front, the last one \<open>after\<close> times behind.
\<close>

definition edge_pad :: "nat \<Rightarrow> nat \<Rightarrow> 'b list \<Rightarrow> 'b list" where
  "edge_pad before after xs = replicate before (hd xs) @ xs @ replicate after (last xs)"

text \<open>
  \<^verbatim>\<open>np.pad(X, ((h1, h2), (w1, w2), (0, 0)), "edge")\<close>.  numpy pads axis 0 first and then
  axis 1 of the result, and refuses to extend an empty axis.
\<close>

definition np_pad_edge :: "'a image \<Rightarrow> nat \<times> nat \<Rightarrow> nat \<times> nat \<Rightarrow> py_error + 'a image" where
  "np_pad_edge X hp wp =
     (case (hp, wp) of ((h1, h2), (w1, w2)) \<Rightarrow>
        if (im_h X = 0 \<and> 0 < h1 + h2) \<or> (im_w X = 0 \<and> 0 < w1 + w2) then Inl ValueError
        else Inr (X\<lparr>im_h := im_h X + h1 + h2,
                    im_w := im_w X + w1 + w2,
                    im_px := map (edge_pad w1 w2) (edge_pad h1 h2 (im_px X))\<rparr>))"

text \<open>
  The slices of the unpadding branch, \<^verbatim>\<open>X[a:b]\<close> with \<open>a\<close> 0 or 1 and \<open>b\<close> either
  \<^verbatim>\<open>-1\<close> (\<open>drop_last\<close>) or \<^verbatim>\<open>None\<close>, and the length such a slice has on an axis of
  \<open>n\<close> elements.
\<close>

definition py_slice :: "nat \<Rightarrow> bool \<Rightarrow> 'b list \<Rightarrow> 'b list" where
  "py_slice start drop_last xs = drop start (if drop_last then butlast xs else xs)"

definition py_slice_len :: "nat \<Rightarrow> bool \<Rightarrow> nat \<Rightarrow> nat" where
  "py_slice_len start drop_last n = (if drop_last then n - 1 else n) - start"

text \<open>
  \<^verbatim>\<open>_pad(X, pad_size, nh=None, nw=None)\<close>.  Python's \<^verbatim>\<open>%\<close> is floored, as \<open>mod\<close> on
  \<open>int\<close> is; it raises on a zero divisor and on \<^verbatim>\<open>None\<close>.
\<close>

definition pad :: "'a image \<Rightarrow> int \<Rightarrow> nat option \<Rightarrow> nat option \<Rightarrow> py_error + 'a image" where
  "pad X pad_size nh nw =
     (if nh = None \<and> nw = None then
        (if pad_size = 0 then Inl ZeroDivisionError
         else
           let h = int (im_h X); w = int (im_w X);
               h1 = (if h mod pad_size > 0 then 1 else 0);
               h2 = (if h mod pad_size = 1 then 1 else 0);
               w1 = (if w mod pad_size > 0 then 1 else 0);
               w2 = (if w mod pad_size = 1 then 1 else 0)
           in np_pad_edge X (h1, h2) (w1, w2))
      else
        (case nh of
           None \<Rightarrow> Inl TypeError
         | Some nh' \<Rightarrow>
             if pad_size = 0 then Inl ZeroDivisionError
             else
               (case nw of
                  None \<Rightarrow> Inl TypeError
                | Some nw' \<Rightarrow>
                    let a = (if int nh' mod pad_size > 0 then 1 else 0);
                        b = (int nh' mod pad_size = 1);
                        c = (if int nw' mod pad_size > 0 then 1 else 0);
                        e = (int nw' mod pad_size = 1)
                    in Inr (X\<lparr>im_h := py_slice_len a b (im_h X),
                                im_w := py_slice_len c e (im_w X),
                                im_px := map (py_slice c e) (py_slice a b (im_px X))\<rparr>))))"

section \<open>Configuration and state (\<^verbatim>\<open>Pyx.__init__\<close>)\<close>

text \<open>
  The \<^verbatim>\<open>palette\<close> argument is dynamically typed.  A number asks for that many colours to be
  inferred.  Anything else is a sequence of colours: a \<^verbatim>\<open>BasePalette\<close>, a list, a tuple or
  a float array are all converted through a float array by \<^verbatim>\<open>_image_to_int\<close>
  (\<open>PaletteFloats\<close>), an integer array is taken as it is (\<open>PaletteInts\<close>).  A colour is the
  list of its samples.
\<close>

datatype palette =
    PaletteCount int
  | PaletteFloats "real list list"
  | PaletteInts "int list list"

text \<open>\<^verbatim>\<open>find_palette = isinstance(palette, (int, float))\<close>, set once by the constructor.\<close>

definition find_palette :: "palette \<Rightarrow> bool" where
  "find_palette p = (case p of PaletteCount _ \<Rightarrow> True | _ \<Rightarrow> False)"

text \<open>
  \<^verbatim>\<open>self.palette\<close> when it is a number and \<^verbatim>\<open>len(self.palette)\<close> otherwise: the number the
  source compares with 2, with 3 and with the pixel count.
\<close>

definition palette_size :: "palette \<Rightarrow> int" where
  "palette_size p =
     (case p of
        PaletteCount n \<Rightarrow> n
      | PaletteFloats cs \<Rightarrow> int (length cs)
      | PaletteInts cs \<Rightarrow> int (length cs))"

text \<open>
  The accepted values of \<^verbatim>\<open>dither\<close>: Python's \<^verbatim>\<open>None\<close> and the five strings.
\<close>

datatype dither = DitherNone | Dither_none | Naive | Bayer | Floyd | Atkinson

text \<open>
  The fields of a \<^verbatim>\<open>Pyx\<close> object.  \<open>model\<close> holds the fitted parameters of the mixture
  model, of a type \<open>'m\<close> left open, and is \<open>None\<close> until \<^verbatim>\<open>fit\<close> has run; the mixture is
  built from \<open>palette\<close>, which is never assigned again.
\<close>

record 'm Pyx =
  height :: "int option"
  width :: "int option"
  factor :: "int option"
  sobel :: int
  upscale :: "int \<times> int"
  depth :: nat
  palette :: palette
  dither :: dither
  alpha :: real
  boost :: bool
  model :: "'m option"
  is_fitted :: bool
  palette_cache :: "int list list option"

definition BGM_RESIZE :: nat where "BGM_RESIZE = 256"
definition SCALE_RGB :: real where "SCALE_RGB = 107 / 100"
definition HIST_BRIGHTNESS :: real where "HIST_BRIGHTNESS = 119 / 100"
definition COLOR_QUANT :: int where "COLOR_QUANT = 8"
definition DITHER_NAIVE_BOOST :: real where "DITHER_NAIVE_BOOST = 133 / 100"

definition DITHER_BAYER_MATRIX :: "real list list" where
  "DITHER_BAYER_MATRIX =
     [[- 1 / 2, 0, - 3 / 8, 1 / 8],
      [1 / 4, - 1 / 4, 3 / 8, - 1 / 8],
      [- 5 / 16, 3 / 16, - 7 / 16, 1 / 16],
      [7 / 16, - 1 / 16, 5 / 16, - 3 / 16]]"

text \<open>
  The constructor.  \<^verbatim>\<open>upscale\<close> is a number or a sequence; the type of \<open>dither\<close> leaves
  no unknown algorithm to reject.  The warning for a depth above 2 does not change the result.
\<close>

datatype upscale_arg = UpscaleNumber int | UpscaleSeq "int list"

definition init ::
  "int option \<Rightarrow> int option \<Rightarrow> int option \<Rightarrow> upscale_arg \<Rightarrow> int \<Rightarrow> palette \<Rightarrow> dither \<Rightarrow>
   int \<Rightarrow> real \<Rightarrow> bool \<Rightarrow> py_error + 'm Pyx" where
  "init height' width' factor' upscale' depth' palette' dither' sobel' alpha' boost' =
     (if (width' \<noteq> None \<or> height' \<noteq> None) \<and> factor' \<noteq> None then Inl ValueError
      else if \<not> (case height' of None \<Rightarrow> True | Some h \<Rightarrow> h \<ge> 1)
      then Inl (AssertionError HeightPositive)
      else if \<not> (case width' of None \<Rightarrow> True | Some w \<Rightarrow> w \<ge> 1)
      then Inl (AssertionError WidthPositive)
      else if \<not> (case factor' of None \<Rightarrow> True | Some f \<Rightarrow> f \<ge> 1)
      then Inl (AssertionError FactorPositive)
      else if \<not> sobel' \<ge> 2 then Inl (AssertionError SobelAtLeastTwo)
      else
        (case (case upscale' of
                 UpscaleSeq us \<Rightarrow>
                   if length us \<noteq> 2 then Inl (AssertionError UpscaleLength)
                   else if \<not> (us ! 0 \<ge> 1 \<and> us ! 1 \<ge> 1) then Inl (AssertionError UpscalePositive)
                   else Inr (us ! 0, us ! 1)
               | UpscaleNumber u \<Rightarrow>
                   if \<not> u \<ge> 1 then Inl (AssertionError UpscalePositive) else Inr (u, u)) of
           Inl e \<Rightarrow> Inl e
         | Inr up \<Rightarrow>
             if \<not> depth' > 0 then Inl (AssertionError DepthPositive)
             else if palette_size palette' < 2 then Inl ValueError
             else Inr \<lparr>height = height', width = width', factor = factor', sobel = sobel',
                       upscale = up, depth = nat depth', palette = palette', dither = dither',
                       alpha = alpha', boost = boost', model = None, is_fitted = False,
                       palette_cache = None\<rparr>))"

section \<open>The numeric libraries\<close>

text \<open>
  The functions of scikit-image, scikit-learn, scipy and numpy that the code calls are
  parameters of the model, gathered in one record.  Floating-point samples are real numbers.
  \<open>'p\<close> is the sample type of the input image (its numpy dtype), read as a number by
  \<open>sample_value\<close>.

  A library function that returns an array whose shape is fixed by its arguments is given as
  the value of that array at an index; the model builds the array of the documented shape
  from it.  These calls are taken to succeed.  \<open>bgm_fit\<close>, the mixture's \<^verbatim>\<open>fit\<close>, may raise.
  \<open>true_div_mul a b c\<close> is \<^verbatim>\<open>int(a / b * c)\<close> in double precision.
\<close>

record ('p, 'm) library =
  sample_value :: "'p \<Rightarrow> real"
  resize :: "bool \<Rightarrow> 'p image \<Rightarrow> nat \<times> nat \<Rightarrow> nat \<times> nat \<times> nat \<Rightarrow> real"
  resize_plane :: "bool \<Rightarrow> 'p list list \<Rightarrow> nat \<times> nat \<Rightarrow> nat \<times> nat \<Rightarrow> real"
  skimage_dilation :: "'p list list \<Rightarrow> nat \<times> nat \<Rightarrow> 'p"
  skimage_sobel :: "real list list \<Rightarrow> nat \<times> nat \<Rightarrow> real"
  skimage_median :: "real list list \<Rightarrow> nat \<times> nat \<Rightarrow> real"
  equalize_adapthist :: "real image \<Rightarrow> nat \<times> nat \<times> nat \<Rightarrow> real"
  rgb2hsv :: "real \<times> real \<times> real \<Rightarrow> real \<times> real \<times> real"
  hsv2rgb :: "real \<times> real \<times> real \<Rightarrow> real \<times> real \<times> real"
  bgm_fit :: "palette \<Rightarrow> real list list \<Rightarrow> py_error + 'm"
  means :: "'m \<Rightarrow> (real \<times> real \<times> real) list"
  predict :: "'m \<Rightarrow> real list \<Rightarrow> nat"
  super_predict_proba :: "'m \<Rightarrow> real list \<Rightarrow> real list"
  convolve_reflect :: "real list list \<Rightarrow> real list list \<Rightarrow> nat \<times> nat \<Rightarrow> real"
  pad_reflect :: "real image \<Rightarrow> nat \<times> nat \<Rightarrow> real list"
  true_div_mul :: "int \<Rightarrow> nat \<Rightarrow> nat \<Rightarrow> int"

section \<open>Array helpers\<close>

text \<open>The \<open>h\<close> by \<open>w\<close> array with \<open>f i j\<close> at index \<open>(i, j)\<close>.\<close>

definition tabulate2 :: "nat \<Rightarrow> nat \<Rightarrow> (nat \<Rightarrow> nat \<Rightarrow> 'a) \<Rightarrow> 'a list list" where
  "tabulate2 h w f = map (\<lambda>i. map (\<lambda>j. f i j) [0..<w]) [0..<h]"

text \<open>\<^verbatim>\<open>X[:, :, c]\<close> and \<^verbatim>\<open>X[:, :, :3]\<close>.\<close>

definition channel :: "nat \<Rightarrow> 'a image \<Rightarrow> 'a list list" where
  "channel c X = map (map (\<lambda>p. p ! c)) (im_px X)"

definition rgb :: "'a image \<Rightarrow> 'a image" where
  "rgb X = X\<lparr>im_d := min 3 (im_d X), im_px := map (map (take 3)) (im_px X)\<rparr>"

text \<open>All samples in storage order, and \<^verbatim>\<open>reshape(-1, n)\<close> of them.\<close>

definition flat :: "'a image \<Rightarrow> 'a list" where
  "flat X = concat (concat (im_px X))"

definition reshape_rows :: "nat \<Rightarrow> 'a list \<Rightarrow> py_error + 'a list list" where
  "reshape_rows n xs =
     (if n = 0 \<or> length xs mod n \<noteq> 0 then Inl ValueError
      else Inr (map (\<lambda>i. take n (drop (i * n) xs)) [0..<length xs div n]))"

text \<open>\<^verbatim>\<open>np.clip(x, lo, hi)\<close>.\<close>

definition clip :: "'a::linorder \<Rightarrow> 'a \<Rightarrow> 'a \<Rightarrow> 'a" where
  "clip x lo hi = min (max x lo) hi"

text \<open>
  A function applied to each channel by \<^verbatim>\<open>adapt_rgb(each_channel)\<close>, the channels stacked
  again: \<open>f\<close> gives the value of the filtered channel at an index and \<open>h\<close>, \<open>w\<close> its shape.
\<close>

definition each_channel ::
  "('a list list \<Rightarrow> nat \<times> nat \<Rightarrow> 'b) \<Rightarrow> nat \<Rightarrow> nat \<Rightarrow> 'a image \<Rightarrow> 'b image" where
  "each_channel f h w X =
     \<lparr>im_h = h, im_w = w, im_d = im_d X,
      im_px = tabulate2 h w (\<lambda>i j. map (\<lambda>c. f (channel c X) (i, j)) [0..<im_d X])\<rparr>"

text \<open>\<^verbatim>\<open>resize(X, (h, w), anti_aliasing=aa)\<close> of a 3-dimensional array: the channels stay.\<close>

definition resize_image :: "('p, 'm) library \<Rightarrow> bool \<Rightarrow> 'p image \<Rightarrow> nat \<Rightarrow> nat \<Rightarrow> real image" where
  "resize_image L aa X h w =
     \<lparr>im_h = h, im_w = w, im_d = im_d X,
      im_px = tabulate2 h w (\<lambda>i j. map (\<lambda>c. resize L aa X (h, w) (i, j, c)) [0..<im_d X])\<rparr>"

section \<open>Colour conversions (\<^verbatim>\<open>_image_to_float\<close>, \<^verbatim>\<open>_image_to_int\<close>)\<close>

text \<open>An array together with its dtype, for the two functions that look at it.\<close>

datatype samples = IntSamples "int image" | FloatSamples "real image"

definition image_to_float :: "samples \<Rightarrow> real image" where
  "image_to_float a =
     (case a of
        IntSamples X \<Rightarrow>
          \<lparr>im_h = im_h X, im_w = im_w X, im_d = im_d X,
           im_px = map (map (map (\<lambda>x. clip (real_of_int x / 255) 0 1))) (im_px X)\<rparr>
      | FloatSamples X \<Rightarrow> X)"

text \<open>
  \<^verbatim>\<open>_image_to_int\<close> on a palette.  A number has no \<^verbatim>\<open>dtype\<close>.  \<^verbatim>\<open>astype(int)\<close>
  truncates, which on the clipped, non-negative values is the floor.
\<close>

definition image_to_int :: "palette \<Rightarrow> py_error + int list list" where
  "image_to_int p =
     (case p of
        PaletteCount n \<Rightarrow> Inl AttributeError
      | PaletteFloats cs \<Rightarrow> Inr (map (map (\<lambda>x. \<lfloor>clip (x * 255) 0 255\<rfloor>)) cs)
      | PaletteInts cs \<Rightarrow> Inr cs)"

section \<open>The mixture model (\<^verbatim>\<open>BGM\<close>)\<close>

text \<open>
  \<^verbatim>\<open>BGM.predict_proba\<close>: the posterior of the library, one row for each sample, with the
  square root taken element by element when the palette has fewer than 3 colours.
\<close>

definition predict_proba ::
  "('p, 'm) library \<Rightarrow> palette \<Rightarrow> 'm \<Rightarrow> real list list \<Rightarrow> real list list" where
  "predict_proba L pal m X =
     (let p = map (super_predict_proba L m) X in
      case pal of
        PaletteCount n \<Rightarrow> if n < 3 then map (map sqrt) p else p
      | PaletteFloats cs \<Rightarrow> if length cs < 3 then map (map sqrt) p else p
      | PaletteInts cs \<Rightarrow> if length cs < 3 then map (map sqrt) p else p)"

section \<open>The palette (\<^verbatim>\<open>Pyx.colors\<close>)\<close>

text \<open>
  One sample of an inferred colour: bucketed to multiples of 8, clipped, and pushed to 0 or
  255 near the ends.
\<close>

definition quantise :: "real \<Rightarrow> int" where
  "quantise c =
     (let v = clip (\<lfloor>c * 255 / real_of_int COLOR_QUANT\<rfloor> * COLOR_QUANT) 0 255
      in if v < COLOR_QUANT * 2 then 0
         else if v > 255 - COLOR_QUANT * 2 then 255
         else v)"

definition scale_sv :: "real \<Rightarrow> real \<times> real \<times> real \<Rightarrow> real \<times> real \<times> real" where
  "scale_sv k c = (case c of (h, s, v) \<Rightarrow> (h, s * k, v * k))"

definition derive_colors :: "('p, 'm) library \<Rightarrow> 'm \<Rightarrow> int list list" where
  "derive_colors L m =
     map (\<lambda>mean. case hsv2rgb L (scale_sv SCALE_RGB (rgb2hsv L mean)) of
                   (r, g, b) \<Rightarrow> [quantise r, quantise g, quantise b])
         (means L m)"

text \<open>
  The \<^verbatim>\<open>colors\<close> property: it fills \<open>palette_cache\<close> when that is empty and returns the
  cache.  The result is the object after the call and the colours.
\<close>

definition colors :: "('p, 'm) library \<Rightarrow> 'm Pyx \<Rightarrow> py_error + ('m Pyx \<times> int list list)" where
  "colors L pyx =
     (case palette_cache pyx of
        Some c \<Rightarrow> Inr (pyx, c)
      | None \<Rightarrow>
          if find_palette (palette pyx) then
            if \<not> is_fitted pyx then Inl (AssertionError CallFitFirst)
            else
              (case model pyx of
                 None \<Rightarrow> Inl AttributeError
               | Some m \<Rightarrow>
                   let c = derive_colors L m
                   in Inr (pyx\<lparr>palette_cache := Some c\<rparr>, c))
          else
            (case image_to_int (palette pyx) of
               Inl e \<Rightarrow> Inl e
             | Inr c \<Rightarrow> Inr (pyx\<lparr>palette_cache := Some c\<rparr>, c)))"

section \<open>Dilation of transparent edges (\<^verbatim>\<open>Pyx._dilate\<close>)\<close>

definition dilate :: "('p, 'm) library \<Rightarrow> real \<Rightarrow> 'p image \<Rightarrow> py_error + 'p image" where
  "dilate L a X =
     (case pad X 3 None None of
        Inl e \<Rightarrow> Inl e
      | Inr X_ \<Rightarrow>
          if im_d X_ \<le> 3 then Inl IndexError
          else
            let alpha_chan = channel 3 X_;
                alter = each_channel (skimage_dilation L) (im_h X_) (im_w X_) (rgb X_);
                X2 = X_\<lparr>im_px := tabulate2 (im_h X_) (im_w X_)
                        (\<lambda>i j. if sample_value L (alpha_chan ! i ! j) < a
                               then im_px alter ! i ! j @ drop 3 (im_px X_ ! i ! j)
                               else im_px X_ ! i ! j)\<rparr>
            in pad X2 3 (Some (im_h X)) (Some (im_w X)))"

section \<open>Fitting (\<^verbatim>\<open>Pyx.fit\<close>)\<close>

text \<open>
  For an image with an alpha channel the code first builds the list of the dilated pixels
  whose alpha reaches the threshold, and then assigns the resized colour channels of the whole
  image to the same variable.  \<open>alpha_kept\<close> is that first value; only the errors of
  computing it remain.
\<close>

definition alpha_kept :: "('p, 'm) library \<Rightarrow> real \<Rightarrow> 'p image \<Rightarrow> py_error + 'p list list" where
  "alpha_kept L a X =
     (case dilate L a X of
        Inl e \<Rightarrow> Inl e
      | Inr D \<Rightarrow>
          (case reshape_rows 4 (flat D) of
             Inl e \<Rightarrow> Inl e
           | Inr rows \<Rightarrow> Inr (filter (\<lambda>q. sample_value L (q ! 3) \<ge> a) rows)))"

text \<open>
  \<^verbatim>\<open>fit\<close> in two steps: \<open>fit_sample\<close> is the value of \<^verbatim>\<open>X_\<close> that reaches
  \<^verbatim>\<open>self.model.fit(X_)\<close>, and \<open>fit\<close> hands it to the mixture and marks the object fitted.
\<close>

definition fit_sample :: "('p, 'm) library \<Rightarrow> 'm Pyx \<Rightarrow> 'p image \<Rightarrow> py_error + real list list" where
  "fit_sample L pyx X =
     (let h = im_h X; w = im_w X; d = im_d X in
      case (if d > 3 then
              (case alpha_kept L (alpha pyx) X of
                 Inl e \<Rightarrow> Inl e
               | Inr X_ \<Rightarrow>
                   Inr (resize_image L False (rgb X) 1 (min h BGM_RESIZE * min w BGM_RESIZE)))
            else Inr (resize_image L False (rgb X) (min h BGM_RESIZE) (min w BGM_RESIZE))) of
        Inl e \<Rightarrow> Inl e
      | Inr X_ \<Rightarrow>
          (case reshape_rows 3 (flat (image_to_float (FloatSamples X_))) of
             Inl e \<Rightarrow> Inl e
           | Inr S \<Rightarrow>
               Inr (if find_palette (palette pyx)
                    then map (map (\<lambda>x. (x - 1 / 2) * SCALE_RGB + 1 / 2)) S
                    else S)))"

definition fit :: "('p, 'm) library \<Rightarrow> 'm Pyx \<Rightarrow> 'p image \<Rightarrow> py_error + 'm Pyx" where
  "fit L pyx X =
     (case fit_sample L pyx X of
        Inl e \<Rightarrow> Inl e
      | Inr X_ \<Rightarrow>
          (case bgm_fit L (palette pyx) X_ of
             Inl e \<Rightarrow> Inl e
           | Inr m \<Rightarrow> Inr (pyx\<lparr>model := Some m, is_fitted := True\<rparr>)))"

section \<open>\<^verbatim>\<open>np.argmax\<close> and \<^verbatim>\<open>np.argmin\<close>\<close>

text \<open>The index of the first greatest, or first least, element of a non-empty list.\<close>

definition argmax :: "'a::linorder list \<Rightarrow> nat" where
  "argmax xs = length (takeWhile (\<lambda>x. x \<noteq> Max (set xs)) xs)"

definition argmin :: "'a::linorder list \<Rightarrow> nat" where
  "argmin xs = length (takeWhile (\<lambda>x. x \<noteq> Min (set xs)) xs)"

section \<open>Target size (\<^verbatim>\<open>Pyx._get_size\<close>)\<close>

definition get_size :: "('p, 'm) library \<Rightarrow> 'm Pyx \<Rightarrow> nat \<Rightarrow> nat \<Rightarrow> py_error + int \<times> int" where
  "get_size L pyx original_height original_width =
     (case (height pyx, width pyx) of
        (Some h, Some w) \<Rightarrow> Inr (h, w)
      | (Some h, None) \<Rightarrow>
          if original_height = 0 then Inl ZeroDivisionError
          else Inr (h, true_div_mul L h original_height original_width)
      | (None, Some w) \<Rightarrow>
          if original_width = 0 then Inl ZeroDivisionError
          else Inr (true_div_mul L w original_width original_height, w)
      | (None, None) \<Rightarrow>
          (case factor pyx of
             Some f \<Rightarrow>
               if f = 0 then Inl ZeroDivisionError
               else Inr (int original_height div f, int original_width div f)
           | None \<Rightarrow> Inr (int original_height, int original_width)))"

section \<open>Filters on float images (\<^verbatim>\<open>_median\<close>, \<^verbatim>\<open>_pyxelate\<close>, contrast)\<close>

text \<open>
  \<^verbatim>\<open>rgb2hsv\<close> and \<^verbatim>\<open>hsv2rgb\<close> work pixel by pixel and refuse an array whose last axis is
  not of length 3.
\<close>

definition map_pixels3 ::
  "(real \<times> real \<times> real \<Rightarrow> real \<times> real \<times> real) \<Rightarrow> real image \<Rightarrow> py_error + real image" where
  "map_pixels3 f X =
     (if im_d X \<noteq> 3 then Inl ValueError
      else Inr (X\<lparr>im_px := map (map (\<lambda>p. case f (p ! 0, p ! 1, p ! 2) of
                                              (a, b, c) \<Rightarrow> [a, b, c])) (im_px X)\<rparr>))"

text \<open>\<^verbatim>\<open>adapt_rgb\<close> applies a filter channel by channel to arrays with 3 or 4 channels only.\<close>

definition is_rgb_like :: "'a image \<Rightarrow> bool" where
  "is_rgb_like X \<longleftrightarrow> im_d X = 3 \<or> im_d X = 4"

definition median :: "('p, 'm) library \<Rightarrow> real image \<Rightarrow> py_error + real image" where
  "median L X =
     (case pad X 3 None None of
        Inl e \<Rightarrow> Inl e
      | Inr X1 \<Rightarrow>
          (case map_pixels3 (rgb2hsv L) X1 of
             Inl e \<Rightarrow> Inl e
           | Inr X2 \<Rightarrow>
               (case map_pixels3 (hsv2rgb L)
                       (each_channel (skimage_median L) (im_h X2) (im_w X2) X2) of
                  Inl e \<Rightarrow> Inl e
                | Inr X3 \<Rightarrow> pad X3 3 (Some (im_h X)) (Some (im_w X)))))"

text \<open>
  The sum over the \<open>s\<close> by \<open>s\<close> block at block index \<open>(i, j)\<close>
  (\<^verbatim>\<open>view_as_blocks(A, (s, s)).sum((2, 3))\<close>), and the value \<^verbatim>\<open>_wrapper\<close> computes for one
  channel: the gradient-weighted mean of the block.
\<close>

definition block_sum :: "nat \<Rightarrow> real list list \<Rightarrow> nat \<Rightarrow> nat \<Rightarrow> real" where
  "block_sum s A i j = (\<Sum>a\<leftarrow>[0..<s]. \<Sum>b\<leftarrow>[0..<s]. A ! (i * s + a) ! (j * s + b))"

definition pyxelate_channel ::
  "('p, 'm) library \<Rightarrow> nat \<Rightarrow> nat \<Rightarrow> nat \<Rightarrow> real list list \<Rightarrow> nat \<times> nat \<Rightarrow> real" where
  "pyxelate_channel L s h w plane ij =
     (case ij of (i, j) \<Rightarrow>
        let sob = tabulate2 h w (\<lambda>y x. skimage_sobel L plane (y, x) + 1 / 10 ^ 8);
            sobel_norm = block_sum s sob i j;
            sum_prod = block_sum s (tabulate2 h w (\<lambda>y x. sob ! y ! x * plane ! y ! x)) i j
        in sum_prod / sobel_norm)"

text \<open>
  \<^verbatim>\<open>_pyxelate\<close>.  On an array that is not RGB-like \<^verbatim>\<open>_wrapper\<close> receives the whole array and
  fails to unpack its shape; \<^verbatim>\<open>view_as_blocks\<close> wants a positive block size that divides
  both extents.
\<close>

definition pyxelate :: "('p, 'm) library \<Rightarrow> 'm Pyx \<Rightarrow> real image \<Rightarrow> py_error + real image" where
  "pyxelate L pyx X =
     (case pad X (sobel pyx) None None of
        Inl e \<Rightarrow> Inl e
      | Inr X_pad \<Rightarrow>
          if \<not> is_rgb_like X_pad then Inl ValueError
          else if sobel pyx \<le> 0 then Inl ValueError
          else
            let s = nat (sobel pyx) in
            if im_h X_pad mod s \<noteq> 0 \<or> im_w X_pad mod s \<noteq> 0 then Inl ValueError
            else Inr (each_channel (pyxelate_channel L s (im_h X_pad) (im_w X_pad))
                        (im_h X_pad div s) (im_w X_pad div s) X_pad))"

text \<open>The contrast adjustment of \<^verbatim>\<open>transform\<close> (\<^verbatim>\<open>if self.boost:\<close>).\<close>

definition boost_contrast :: "('p, 'm) library \<Rightarrow> real image \<Rightarrow> py_error + real image" where
  "boost_contrast L X =
     (let E = X\<lparr>im_px := tabulate2 (im_h X) (im_w X)
                  (\<lambda>i j. map (\<lambda>c. equalize_adapthist L X (i, j, c)) [0..<im_d X])\<rparr>
      in map_pixels3
           (\<lambda>p. case scale_sv HIST_BRIGHTNESS (rgb2hsv L p) of
                   (h, s, v) \<Rightarrow> hsv2rgb L (clip h 0 1, clip s 0 1, clip v 0 1))
           E)"

text \<open>
  The loop \<^verbatim>\<open>for _ in range(self.depth)\<close>; \<open>d\<close> is the channel count of the input image.
\<close>

fun pyxelate_loop ::
  "('p, 'm) library \<Rightarrow> 'm Pyx \<Rightarrow> nat \<Rightarrow> nat \<Rightarrow> real image \<Rightarrow> py_error + real image" where
  "pyxelate_loop L pyx d 0 X = Inr X"
| "pyxelate_loop L pyx d (Suc n) X =
     (case (if boost pyx \<and> d = 3 then median L X else Inr X) of
        Inl e \<Rightarrow> Inl e
      | Inr X1 \<Rightarrow>
          (case pyxelate L pyx X1 of
             Inl e \<Rightarrow> Inl e
           | Inr X2 \<Rightarrow> pyxelate_loop L pyx d n X2))"

section \<open>Dithering (the branches of \<^verbatim>\<open>transform\<close>)\<close>

text \<open>
  Every branch receives the pixels of the downsampled image as rows of 3 samples
  (\<^verbatim>\<open>reshaped\<close>) and returns the object, whose palette cache \<^verbatim>\<open>self.colors\<close> may have
  filled, with one palette colour for each pixel, in storage order.
\<close>

text \<open>\<^verbatim>\<open>colors[idx]\<close> for an array of indices.\<close>

definition take_colors :: "int list list \<Rightarrow> nat list \<Rightarrow> py_error + int list list" where
  "take_colors cs idx =
     (if list_all (\<lambda>i. i < length cs) idx then Inr (map (\<lambda>i. cs ! i) idx)
      else Inl IndexError)"

text \<open>A loop over a list whose body may raise.\<close>

fun fold_err :: "('s \<Rightarrow> 'a \<Rightarrow> py_error + 's) \<Rightarrow> 'a list \<Rightarrow> 's \<Rightarrow> py_error + 's" where
  "fold_err f [] s = Inr s"
| "fold_err f (x # xs) s = (case f s x of Inl e \<Rightarrow> Inl e | Inr s' \<Rightarrow> fold_err f xs s')"

text \<open>\<^verbatim>\<open>probs[:, i]\<close>, and \<^verbatim>\<open>reshape((h, w))\<close> of a vector.\<close>

definition column :: "nat \<Rightarrow> 'a list list \<Rightarrow> 'a list" where
  "column i rows = map (\<lambda>r. r ! i) rows"

definition reshape_plane :: "nat \<Rightarrow> nat \<Rightarrow> 'a list \<Rightarrow> 'a list list" where
  "reshape_plane h w xs = tabulate2 h w (\<lambda>i j. xs ! (i * w + j))"

subsection \<open>\<^verbatim>\<open>"none"\<close>\<close>

definition dither_none ::
  "('p, 'm) library \<Rightarrow> 'm Pyx \<Rightarrow> 'm \<Rightarrow> real list list \<Rightarrow> py_error + ('m Pyx \<times> int list list)" where
  "dither_none L pyx m reshaped =
     (let probs = map (predict L m) reshaped in
      case colors L pyx of
        Inl e \<Rightarrow> Inl e
      | Inr (pyx', cs) \<Rightarrow>
          (case take_colors cs probs of
             Inl e \<Rightarrow> Inl e
           | Inr X_ \<Rightarrow> Inr (pyx', X_)))"

subsection \<open>\<^verbatim>\<open>"naive"\<close>\<close>

text \<open>\<^verbatim>\<open>X_[i] = self.colors[p2[i]]\<close>.\<close>

definition naive_assign ::
  "int list list \<Rightarrow> nat list \<Rightarrow> nat \<Rightarrow> int list list \<Rightarrow> py_error + int list list" where
  "naive_assign cs p2 i Xc =
     (if length p2 \<le> i then Inl IndexError
      else if length cs \<le> p2 ! i then Inl IndexError
      else if length Xc \<le> i then Inl IndexError
      else Inr (Xc[i := cs ! (p2 ! i)]))"

text \<open>
  One turn of \<^verbatim>\<open>for i in range(0, len(X_), 2)\<close>, for the value \<open>i0\<close> of the loop variable.
  The \<^verbatim>\<open>elif\<close> belongs to \<^verbatim>\<open>if m\<close>: odd rows test \<open>v1\<close>, even rows \<open>v2\<close>.
\<close>

definition naive_step ::
  "nat \<Rightarrow> bool \<Rightarrow> int list list \<Rightarrow> nat list \<Rightarrow> bool list \<Rightarrow> bool list \<Rightarrow>
   int list list \<Rightarrow> nat \<Rightarrow> py_error + int list list" where
  "naive_step final_w padf cs p2 v1 v2 Xc i0 =
     (if final_w = 0 then Inl ZeroDivisionError
      else
        let m = (i0 div final_w) mod 2;
            i = (if padf then i0 + m else i0)
        in if m \<noteq> 0 then
             (if length v1 \<le> i then Inl IndexError
              else if v1 ! i then naive_assign cs p2 i Xc
              else Inr Xc)
           else
             (if length v2 \<le> i then Inl IndexError
              else if v2 ! i then naive_assign cs p2 i Xc
              else Inr Xc))"

text \<open>\<^verbatim>\<open>range(0, n, 2)\<close>.\<close>

definition range2 :: "nat \<Rightarrow> nat list" where
  "range2 n = map (\<lambda>k. 2 * k) [0..<(n + 1) div 2]"

text \<open>\<^verbatim>\<open>probs[np.arange(len(p)), p] = 0\<close>, for one row.\<close>

definition zero_best :: "real list \<Rightarrow> real list" where
  "zero_best row = row[argmax row := 0]"

definition dither_naive ::
  "('p, 'm) library \<Rightarrow> 'm Pyx \<Rightarrow> 'm \<Rightarrow> real list list \<Rightarrow> nat \<Rightarrow>
   py_error + ('m Pyx \<times> int list list)" where
  "dither_naive L pyx m reshaped final_w =
     (let probs = predict_proba L (palette pyx) m reshaped in
      if \<not> list_all (\<lambda>r. r \<noteq> []) probs then Inl ValueError
      else
        let p = map argmax probs in
        case colors L pyx of
          Inl e \<Rightarrow> Inl e
        | Inr (pyx', cs) \<Rightarrow>
            (case take_colors cs p of
               Inl e \<Rightarrow> Inl e
             | Inr X_ \<Rightarrow>
                 let probs0 = map zero_best probs;
                     p2 = map argmax probs0;
                     v1 = map (\<lambda>r. Max (set r) > 1 / (real (length cs) + 1)) probs0;
                     v2 = map (\<lambda>r. Max (set r)
                                  > 1 / (real (length cs) * DITHER_NAIVE_BOOST + 1)) probs0;
                     padf = (final_w mod 2 = 0)
                 in case fold_err (naive_step final_w padf cs p2 v1 v2)
                           (range2 (length X_)) X_ of
                      Inl e \<Rightarrow> Inl e
                    | Inr X' \<Rightarrow> Inr (pyx', X')))"

text \<open>
  The pixels the loop substitutes.  In the turn for \<open>i0\<close> the loop looks at the index
  \<open>naive_target\<close> and assigns the second-best colour there when \<open>naive_hit\<close> holds;
  \<open>naive_substituted\<close> collects the indices assigned in the turns of \<^verbatim>\<open>range(0, n, 2)\<close>.
\<close>

definition naive_target :: "nat \<Rightarrow> bool \<Rightarrow> nat \<Rightarrow> nat" where
  "naive_target final_w padf i0 = (if padf then i0 + (i0 div final_w) mod 2 else i0)"

definition naive_hit :: "nat \<Rightarrow> bool \<Rightarrow> bool list \<Rightarrow> bool list \<Rightarrow> nat \<Rightarrow> bool" where
  "naive_hit final_w padf v1 v2 i0 =
     (if (i0 div final_w) mod 2 \<noteq> 0 then v1 ! naive_target final_w padf i0
      else v2 ! naive_target final_w padf i0)"

definition naive_substituted :: "nat \<Rightarrow> bool \<Rightarrow> bool list \<Rightarrow> bool list \<Rightarrow> nat \<Rightarrow> nat set" where
  "naive_substituted final_w padf v1 v2 n =
     naive_target final_w padf ` set (filter (naive_hit final_w padf v1 v2) (range2 n))"

subsection \<open>\<^verbatim>\<open>"bayer"\<close>\<close>

text \<open>
  The convolved probability map of palette index \<open>i\<close>, and the whole branch: the index
  chosen at a pixel is \<^verbatim>\<open>np.argmin\<close> over the maps.
\<close>

definition bayer_map ::
  "('p, 'm) library \<Rightarrow> real list list \<Rightarrow> nat \<Rightarrow> nat \<Rightarrow> nat \<Rightarrow> real list list" where
  "bayer_map L probs final_h final_w i =
     tabulate2 final_h final_w
       (\<lambda>y x. convolve_reflect L (reshape_plane final_h final_w (column i probs))
                 DITHER_BAYER_MATRIX (y, x))"

definition bayer_index :: "real list list list \<Rightarrow> nat \<Rightarrow> nat \<Rightarrow> nat" where
  "bayer_index maps y x = argmin (map (\<lambda>mp. mp ! y ! x) maps)"

definition dither_bayer ::
  "('p, 'm) library \<Rightarrow> 'm Pyx \<Rightarrow> 'm \<Rightarrow> real list list \<Rightarrow> nat \<Rightarrow> nat \<Rightarrow>
   py_error + ('m Pyx \<times> int list list)" where
  "dither_bayer L pyx m reshaped final_h final_w =
     (let probs = predict_proba L (palette pyx) m reshaped in
      case colors L pyx of
        Inl e \<Rightarrow> Inl e
      | Inr (pyx', cs) \<Rightarrow>
          if \<not> list_all (\<lambda>r. length cs \<le> length r) probs then Inl IndexError
          else if length probs \<noteq> final_h * final_w then Inl ValueError
          else
            let maps = map (bayer_map L probs final_h final_w) [0..<length cs] in
            if maps = [] then Inl ValueError
            else
              (case take_colors cs (concat (tabulate2 final_h final_w (bayer_index maps))) of
                 Inl e \<Rightarrow> Inl e
               | Inr X_ \<Rightarrow> Inr (pyx', X_)))"

subsection \<open>\<^verbatim>\<open>"floyd"\<close>\<close>

text \<open>\<^verbatim>\<open>probs[:, y, x] += v\<close> on the stack of probability maps.\<close>

definition add_at :: "real list list list \<Rightarrow> nat \<Rightarrow> nat \<Rightarrow> real list \<Rightarrow> real list list list" where
  "add_at P y x v = map (\<lambda>(pl, q). pl[y := (pl ! y)[x := pl ! y ! x + q]]) (zip P v)"

definition floyd_pixel ::
  "real list list list \<times> nat list list \<Rightarrow> nat \<times> nat \<Rightarrow>
   py_error + real list list list \<times> nat list list" where
  "floyd_pixel st yx =
     (case (st, yx) of ((P, res), (y, x)) \<Rightarrow>
        if P = [] then Inl ValueError
        else
          let q0 = map (\<lambda>pl. pl ! y ! x / 16) P;
              r = argmax q0;
              quant_error = q0[r := 0];
              P1 = add_at P y (x + 1) (map (\<lambda>q. q * 7) quant_error);
              P2 = add_at P1 (y + 1) (x - 1) (map (\<lambda>q. q * 3) quant_error);
              P3 = add_at P2 (y + 1) x (map (\<lambda>q. q * 5) quant_error);
              P4 = add_at P3 (y + 1) (x + 1) quant_error
          in Inr (P4, res[y := (res ! y)[x := r]]))"

text \<open>\<^verbatim>\<open>res[y, x] = np.argmax(probs[:, y, x])\<close>.\<close>

definition set_argmax ::
  "real list list list \<Rightarrow> nat list list \<Rightarrow> nat \<times> nat \<Rightarrow> py_error + nat list list" where
  "set_argmax P res yx =
     (case yx of (y, x) \<Rightarrow>
        if P = [] then Inl ValueError
        else Inr (res[y := (res ! y)[x := argmax (map (\<lambda>pl. pl ! y ! x) P)]]))"

definition dither_floyd ::
  "('p, 'm) library \<Rightarrow> 'm Pyx \<Rightarrow> 'm \<Rightarrow> real list list \<Rightarrow> nat \<Rightarrow> nat \<Rightarrow>
   py_error + ('m Pyx \<times> int list list)" where
  "dither_floyd L pyx m reshaped final_h final_w =
     (let probs = predict_proba L (palette pyx) m reshaped in
      case colors L pyx of
        Inl e \<Rightarrow> Inl e
      | Inr (pyx', cs) \<Rightarrow>
          if \<not> list_all (\<lambda>r. length cs \<le> length r) probs then Inl IndexError
          else if length probs \<noteq> final_h * final_w then Inl ValueError
          else
            let P0 = map (\<lambda>i. map (map (\<lambda>v. v powr (1 / 6)))
                                (reshape_plane final_h final_w (column i probs)))
                         [0..<length cs];
                res0 = replicate final_h (replicate final_w 0);
                inner = concat (map (\<lambda>y. map (\<lambda>x. (y, x)) [1..<final_w - 1])
                                       [0..<final_h - 1])
            in case fold_err floyd_pixel inner (P0, res0) of
                 Inl e \<Rightarrow> Inl e
               | Inr (P, res1) \<Rightarrow>
                   if final_w = 0 \<and> 0 < final_h then Inl IndexError
                   else
                     (case fold_err (set_argmax P)
                             (concat (map (\<lambda>y. [(y, final_w - 1), (y, 0)]) [0..<final_h]))
                             res1 of
                        Inl e \<Rightarrow> Inl e
                      | Inr res2 \<Rightarrow>
                          if final_h = 0 \<and> 1 < final_w - 1 then Inl IndexError
                          else
                            (case fold_err (set_argmax P)
                                    (map (\<lambda>x. (final_h - 1, x)) [1..<final_w - 1]) res2 of
                               Inl e \<Rightarrow> Inl e
                             | Inr res3 \<Rightarrow>
                                 (case take_colors cs (concat res3) of
                                    Inl e \<Rightarrow> Inl e
                                  | Inr X_ \<Rightarrow> Inr (pyx', X_)))))"

subsection \<open>\<^verbatim>\<open>"atkinson"\<close>\<close>

text \<open>\<^verbatim>\<open>X_[y, x, :3] += quant_error\<close> on the padded working image.\<close>

definition add_px :: "real list list list \<Rightarrow> nat \<Rightarrow> nat \<Rightarrow> real list \<Rightarrow> real list list list" where
  "add_px Xp y x v =
     Xp[y := (Xp ! y)[x := map (\<lambda>(a, q). a + q) (zip (take 3 (Xp ! y ! x)) v)
                           @ drop 3 (Xp ! y ! x)]]"

definition atkinson_pixel ::
  "('p, 'm) library \<Rightarrow> palette \<Rightarrow> 'm \<Rightarrow> real list list list \<times> nat list list \<Rightarrow> nat \<times> nat \<Rightarrow>
   py_error + real list list list \<times> nat list list" where
  "atkinson_pixel L pal m st yx =
     (case (st, yx) of ((Xp, res), (y, x)) \<Rightarrow>
        let px = take 3 (Xp ! y ! x);
            pred = concat (predict_proba L pal m [px])
        in if pred = [] then Inl ValueError
           else
             let r = argmax pred in
             if length (means L m) \<le> r then Inl IndexError
             else
               (case means L m ! r of (mr, mg, mb) \<Rightarrow>
                  let quant_error = [(px ! 0 - mr) / 8, (px ! 1 - mg) / 8, (px ! 2 - mb) / 8];
                      X1 = add_px Xp y (x + 1) quant_error;
                      X2 = add_px X1 y (x + 2) quant_error;
                      X3 = add_px X2 (y + 1) (x - 1) quant_error;
                      X4 = add_px X3 (y + 1) x quant_error;
                      X5 = add_px X4 (y + 1) (x + 1) quant_error;
                      X6 = add_px X5 (y + 2) x quant_error
                  in Inr (X6, res[y := (res ! y)[x := r]])))"

text \<open>
  \<open>X\<close> is the downsampled image itself; numpy refuses to extend an empty axis by
  reflection.
\<close>

definition dither_atkinson ::
  "('p, 'm) library \<Rightarrow> 'm Pyx \<Rightarrow> 'm \<Rightarrow> real image \<Rightarrow> nat \<Rightarrow> nat \<Rightarrow>
   py_error + ('m Pyx \<times> int list list)" where
  "dither_atkinson L pyx m X final_h final_w =
     (if im_h X = 0 \<or> im_w X = 0 then Inl ValueError
      else
        let res0 = replicate (final_h + 2) (replicate (final_w + 3) 0);
            Xp = tabulate2 (im_h X + 2) (im_w X + 3) (\<lambda>i j. pad_reflect L X (i, j));
            pixels = concat (map (\<lambda>y. map (\<lambda>x. (y, x)) [1..<final_w + 1]) [0..<final_h])
        in case fold_err (atkinson_pixel L (palette pyx) m) pixels (Xp, res0) of
             Inl e \<Rightarrow> Inl e
           | Inr (Xp', res) \<Rightarrow>
               (case colors L pyx of
                  Inl e \<Rightarrow> Inl e
                | Inr (pyx', cs) \<Rightarrow>
                    (case take_colors cs
                            (concat (map (\<lambda>row. take final_w (drop 1 row)) (take final_h res))) of
                       Inl e \<Rightarrow> Inl e
                     | Inr X_ \<Rightarrow> Inr (pyx', X_))))"

section \<open>The transformation (\<^verbatim>\<open>Pyx.transform\<close>)\<close>

text \<open>\<^verbatim>\<open>np.reshape(xs, (n, k))\<close> and \<^verbatim>\<open>np.reshape(xs, (h, w, d))\<close> of the samples \<open>xs\<close>.\<close>

definition reshape_to :: "nat \<Rightarrow> nat \<Rightarrow> 'a list \<Rightarrow> py_error + 'a list list" where
  "reshape_to n k xs =
     (if length xs \<noteq> n * k then Inl ValueError
      else Inr (map (\<lambda>i. take k (drop (i * k) xs)) [0..<n]))"

definition reshape_image :: "nat \<Rightarrow> nat \<Rightarrow> nat \<Rightarrow> 'a list \<Rightarrow> py_error + 'a image" where
  "reshape_image h w d xs =
     (if length xs \<noteq> h * w * d then Inl ValueError
      else Inr \<lparr>im_h = h, im_w = w, im_d = d,
                im_px = tabulate2 h w (\<lambda>i j. take d (drop ((i * w + j) * d) xs))\<rparr>)"

text \<open>\<^verbatim>\<open>astype(int)\<close> on a float rounds towards zero.\<close>

definition trunc :: "real \<Rightarrow> int" where
  "trunc x = (if 0 \<le> x then \<lfloor>x\<rfloor> else \<lceil>x\<rceil>)"

text \<open>
  The two assignments that binarise the resized alpha channel, in the order of the source,
  and the conversion to integers.
\<close>

definition resolve_alpha :: "real \<Rightarrow> real \<Rightarrow> int" where
  "resolve_alpha a x =
     (let x1 = (if x \<ge> a then 255 else x);
          x2 = (if x1 < a then 0 else x1)
      in trunc x2)"

text \<open>
  \<^verbatim>\<open>np.dstack((X_[:, :, :3], alpha_mask.astype(int)))\<close>; the mask is kept with its shape.
\<close>

definition attach_alpha ::
  "real \<Rightarrow> nat \<times> nat \<times> real list list \<Rightarrow> int image \<Rightarrow> py_error + int image" where
  "attach_alpha a alpha_mask X =
     (case alpha_mask of (mh, mw, ms) \<Rightarrow>
        if mh \<noteq> im_h X \<or> mw \<noteq> im_w X then Inl ValueError
        else Inr \<lparr>im_h = im_h X, im_w = im_w X, im_d = min 3 (im_d X) + 1,
                  im_px = tabulate2 (im_h X) (im_w X)
                    (\<lambda>i j. take 3 (im_px X ! i ! j) @ [resolve_alpha a (ms ! i ! j)])\<rparr>)"

text \<open>
  \<^verbatim>\<open>np.repeat(np.repeat(X_, u0, axis=0), u1, axis=1)\<close>, which refuses negative counts, and
  \<^verbatim>\<open>astype(np.uint8)\<close>, which wraps.
\<close>

definition np_repeat :: "int \<times> int \<Rightarrow> 'a image \<Rightarrow> py_error + 'a image" where
  "np_repeat u X =
     (case u of (u0, u1) \<Rightarrow>
        if u0 < 0 \<or> u1 < 0 then Inl ValueError
        else Inr (X\<lparr>im_h := im_h X * nat u0,
                    im_w := im_w X * nat u1,
                    im_px := concat (map (replicate (nat u0))
                               (map (\<lambda>row. concat (map (replicate (nat u1)) row)) (im_px X)))\<rparr>))"

definition astype_uint8 :: "int image \<Rightarrow> int image" where
  "astype_uint8 X = X\<lparr>im_px := map (map (map (\<lambda>x. x mod 256))) (im_px X)\<rparr>"

text \<open>
  The steps of \<^verbatim>\<open>transform\<close> in the order of the source.  \<open>transform_size\<close> is the shape the
  image is resized to before the downsampling loop; \<open>transform_alpha\<close> is the branch on
  the alpha channel (\<^verbatim>\<open>if d > 3\<close>), giving the image to go on with and the resized alpha
  channel, kept with its shape; \<open>transform_downsample\<close> resizes, adjusts the contrast and
  runs the loop; \<open>transform_prepare\<close> runs these from \<^verbatim>\<open>_get_size\<close> to the end of the loop
  and returns the downsampled float image with the resized alpha channel, if there is one;
  \<open>scale_image\<close> moves the samples as \<^verbatim>\<open>fit\<close> did;
  \<open>transform_dither\<close> is the choice of the dithering branch; \<open>transform_finish\<close> reshapes
  the colours to an image, attaches the alpha channel, upscales and converts;
  \<open>transform_body\<close> is everything after the two assertions, and \<open>transform\<close> the whole
  method, returning the object after the call and the image.
\<close>

definition transform_size :: "'m Pyx \<Rightarrow> int \<times> int \<Rightarrow> int \<times> int" where
  "transform_size pyx new =
     (case new of (new_h, new_w) \<Rightarrow>
        if depth pyx \<noteq> 0
        then (new_h * sobel pyx ^ depth pyx, new_w * sobel pyx ^ depth pyx)
        else (new_h, new_w))"

definition transform_alpha ::
  "('p, 'm) library \<Rightarrow> 'm Pyx \<Rightarrow> 'p image \<Rightarrow> int \<times> int \<Rightarrow>
   py_error + ('p image \<times> (nat \<times> nat \<times> real list list) option)" where
  "transform_alpha L pyx X new =
     (case new of (new_h, new_w) \<Rightarrow>
        if im_d X > 3 then
          (case dilate L (alpha pyx) X of
             Inl e \<Rightarrow> Inl e
           | Inr D \<Rightarrow>
               if new_h < 0 \<or> new_w < 0 then Inl ValueError
               else Inr (D, Some (nat new_h, nat new_w,
                           tabulate2 (nat new_h) (nat new_w)
                             (\<lambda>i j. resize_plane L True (channel 3 D)
                                       (nat new_h, nat new_w) (i, j)))))
        else Inr (X, None))"

definition transform_downsample ::
  "('p, 'm) library \<Rightarrow> 'm Pyx \<Rightarrow> nat \<Rightarrow> 'p image \<Rightarrow> int \<times> int \<Rightarrow> py_error + real image" where
  "transform_downsample L pyx d Xa new =
     (case transform_size pyx new of (size_h, size_w) \<Rightarrow>
        if size_h < 0 \<or> size_w < 0 then Inl ValueError
        else
          (case (if boost pyx
                 then boost_contrast L (resize_image L True (rgb Xa) (nat size_h) (nat size_w))
                 else Inr (resize_image L True (rgb Xa) (nat size_h) (nat size_w))) of
             Inl e \<Rightarrow> Inl e
           | Inr X1 \<Rightarrow> pyxelate_loop L pyx d (depth pyx) X1))"

definition transform_prepare ::
  "('p, 'm) library \<Rightarrow> 'm Pyx \<Rightarrow> 'p image \<Rightarrow>
   py_error + (real image \<times> (nat \<times> nat \<times> real list list) option)" where
  "transform_prepare L pyx X =
     (case get_size L pyx (im_h X) (im_w X) of
        Inl e \<Rightarrow> Inl e
      | Inr new \<Rightarrow>
          (case transform_alpha L pyx X new of
             Inl e \<Rightarrow> Inl e
           | Inr (X_, alpha_mask) \<Rightarrow>
               (case transform_downsample L pyx (im_d X) X_ new of
                  Inl e \<Rightarrow> Inl e
                | Inr X2 \<Rightarrow> Inr (X2, alpha_mask))))"

definition transform_dither ::
  "('p, 'm) library \<Rightarrow> 'm Pyx \<Rightarrow> real image \<Rightarrow> real list list \<Rightarrow> nat \<Rightarrow> nat \<Rightarrow>
   py_error + ('m Pyx \<times> int list list)" where
  "transform_dither L pyx X reshaped final_h final_w =
     (case model pyx of
        None \<Rightarrow> Inl NotFittedError
      | Some m \<Rightarrow>
          (case dither pyx of
             DitherNone \<Rightarrow> dither_none L pyx m reshaped
           | Dither_none \<Rightarrow> dither_none L pyx m reshaped
           | Naive \<Rightarrow> dither_naive L pyx m reshaped final_w
           | Bayer \<Rightarrow> dither_bayer L pyx m reshaped final_h final_w
           | Floyd \<Rightarrow> dither_floyd L pyx m reshaped final_h final_w
           | Atkinson \<Rightarrow> dither_atkinson L pyx m X final_h final_w))"

definition scale_image :: "'m Pyx \<Rightarrow> real image \<Rightarrow> real image" where
  "scale_image pyx X =
     (if find_palette (palette pyx)
      then X\<lparr>im_px := map (map (map (\<lambda>x. (x - 1 / 2) * SCALE_RGB + 1 / 2))) (im_px X)\<rparr>
      else X)"

definition transform_finish ::
  "'m Pyx \<Rightarrow> (nat \<times> nat \<times> real list list) option \<Rightarrow> nat \<Rightarrow> nat \<Rightarrow> int list list \<Rightarrow>
   py_error + int image" where
  "transform_finish pyx alpha_mask final_h final_w X4 =
     (case reshape_image final_h final_w 3 (concat X4) of
        Inl e \<Rightarrow> Inl e
      | Inr X5 \<Rightarrow>
          (case (case alpha_mask of
                   None \<Rightarrow> Inr X5
                 | Some am \<Rightarrow> attach_alpha (alpha pyx) am X5) of
             Inl e \<Rightarrow> Inl e
           | Inr X6 \<Rightarrow>
               (case np_repeat (upscale pyx) X6 of
                  Inl e \<Rightarrow> Inl e
                | Inr X7 \<Rightarrow> Inr (astype_uint8 X7))))"

definition transform_body ::
  "('p, 'm) library \<Rightarrow> 'm Pyx \<Rightarrow> 'p image \<Rightarrow> py_error + ('m Pyx \<times> int image)" where
  "transform_body L pyx X =
     (case transform_prepare L pyx X of
        Inl e \<Rightarrow> Inl e
      | Inr (X2, alpha_mask) \<Rightarrow>
          let final_h = im_h X2; final_w = im_w X2; X3 = scale_image pyx X2 in
          case reshape_to (final_h * final_w) 3 (flat X3) of
            Inl e \<Rightarrow> Inl e
          | Inr reshaped \<Rightarrow>
              (case transform_dither L pyx X3 reshaped final_h final_w of
                 Inl e \<Rightarrow> Inl e
               | Inr (pyx', X4) \<Rightarrow>
                   (case transform_finish pyx alpha_mask final_h final_w X4 of
                      Inl e \<Rightarrow> Inl e
                    | Inr out \<Rightarrow> Inr (pyx', out))))"

definition transform ::
  "('p, 'm) library \<Rightarrow> 'm Pyx \<Rightarrow> 'p image \<Rightarrow> py_error + ('m Pyx \<times> int image)" where
  "transform L pyx X =
     (if \<not> is_fitted pyx then Inl (AssertionError CallFitBeforeTransform)
      else if \<not> (int (im_h X * im_w X) > palette_size (palette pyx))
      then Inl (AssertionError TooManyColors)
      else transform_body L pyx X)"

section \<open>A small library for running the model\<close>

text \<open>
  A concrete, computable stand-in for the libraries, for the examples: 8-bit integer
  samples, nearest-neighbour resizing to floats in \<open>[0, 1]\<close>, filters that return their
  input, a flat gradient, identity colour-space conversions, a mixture whose means are the
  first samples (or the given palette), labels by least squared distance and posteriors
  proportional to \<open>1 / (1 + distance\<^sup>2)\<close>.  The parameters of the mixture are its means.
\<close>

definition dist2 :: "real list \<Rightarrow> real \<times> real \<times> real \<Rightarrow> real" where
  "dist2 x mu = (case mu of (a, b, c) \<Rightarrow> (x ! 0 - a)\<^sup>2 + (x ! 1 - b)\<^sup>2 + (x ! 2 - c)\<^sup>2)"

definition reflect_index :: "nat \<Rightarrow> int \<Rightarrow> nat" where
  "reflect_index n k =
     (let m = k mod (2 * int n) in if m < int n then nat m else nat (2 * int n - 1 - m))"

definition demo_fit :: "palette \<Rightarrow> real list list \<Rightarrow> py_error + (real \<times> real \<times> real) list" where
  "demo_fit pal S =
     (if int (length S) < palette_size pal then Inl ValueError
      else
        (case pal of
           PaletteCount n \<Rightarrow> Inr (map (\<lambda>p. (p ! 0, p ! 1, p ! 2)) (take (nat n) S))
         | PaletteFloats cs \<Rightarrow> Inr (map (\<lambda>p. (p ! 0, p ! 1, p ! 2)) cs)
         | PaletteInts cs \<Rightarrow>
             Inr (map (\<lambda>p. (real_of_int (p ! 0) / 255, real_of_int (p ! 1) / 255,
                            real_of_int (p ! 2) / 255)) cs)))"

definition demo_library :: "(int, (real \<times> real \<times> real) list) library" where
  "demo_library =
     \<lparr>sample_value = real_of_int,
      resize = (\<lambda>aa X (h, w) (i, j, c).
                  real_of_int (im_px X ! (i * im_h X div h) ! (j * im_w X div w) ! c) / 255),
      resize_plane = (\<lambda>aa P (h, w) (i, j).
                  real_of_int (P ! (i * length P div h) ! (j * length (P ! 0) div w)) / 255),
      skimage_dilation = (\<lambda>P (i, j). P ! i ! j),
      skimage_sobel = (\<lambda>P (i, j). 0),
      skimage_median = (\<lambda>P (i, j). P ! i ! j),
      equalize_adapthist = (\<lambda>X (i, j, c). im_px X ! i ! j ! c),
      rgb2hsv = (\<lambda>p. p),
      hsv2rgb = (\<lambda>p. p),
      bgm_fit = demo_fit,
      means = (\<lambda>m. m),
      predict = (\<lambda>m x. argmin (map (dist2 x) m)),
      super_predict_proba = (\<lambda>m x. map (\<lambda>mu. (1 / (1 + dist2 x mu))
                                              / (\<Sum>nu\<leftarrow>m. 1 / (1 + dist2 x nu))) m),
      convolve_reflect = (\<lambda>P K (i, j).
                  \<Sum>a\<leftarrow>[0..<4]. \<Sum>b\<leftarrow>[0..<4].
                    K ! a ! b * P ! reflect_index (length P) (int i + 2 - int a)
                                  ! reflect_index (length (P ! 0)) (int j + 2 - int b)),
      pad_reflect = (\<lambda>X (i, j). im_px X ! min i (im_h X - 1) ! min (j - 1) (im_w X - 1)),
      true_div_mul = (\<lambda>a b c. \<lfloor>real_of_int a / real b * real c\<rfloor>)\<rparr>"

text \<open>
  Objects and images for the examples: a \<^verbatim>\<open>Pyx\<close> with the default arguments except for a
  palette of 2 colours, as the constructor returns it, and four images of one row.
\<close>

definition demo_pyx :: "(real \<times> real \<times> real) list Pyx" where
  "demo_pyx =
     \<lparr>height = None, width = None, factor = None, sobel = 3, upscale = (1, 1), depth = 1,
      palette = PaletteCount 2, dither = Dither_none, alpha = 6 / 10, boost = True,
      model = None, is_fitted = False, palette_cache = None\<rparr>"

definition image_a :: "int image" where
  "image_a = \<lparr>im_h = 1, im_w = 3, im_d = 3,
              im_px = [[[255, 0, 0], [0, 255, 0], [0, 0, 255]]]\<rparr>"

definition image_b :: "int image" where
  "image_b = \<lparr>im_h = 1, im_w = 3, im_d = 3,
              im_px = [[[0, 0, 255], [255, 255, 255], [0, 0, 0]]]\<rparr>"

definition image_d :: "int image" where
  "image_d = \<lparr>im_h = 1, im_w = 4, im_d = 3,
              im_px = [[[255, 0, 0], [0, 255, 0], [0, 0, 255], [255, 255, 255]]]\<rparr>"

definition image_c :: "int image" where
  "image_c = \<lparr>im_h = 1, im_w = 2, im_d = 3, im_px = [[[255, 0, 0], [0, 0, 255]]]\<rparr>"

section \<open>Palettes of RGB bytes\<close>

text \<open>
  numpy arrays are rectangular, and a colour has 3 samples.  \<open>rgb_palette\<close> says so for the
  colours an object can return: the cached ones, or else the ones of the given palette
  (inferred colours always have 3 samples).  \<open>byte_palette\<close> says that the integers of a
  cache, or of a palette given as an integer array, lie between 0 and 255.
\<close>

definition rgb_colors :: "int list list \<Rightarrow> bool" where
  "rgb_colors cs = list_all (\<lambda>c. length c = 3) cs"

definition byte_colors :: "int list list \<Rightarrow> bool" where
  "byte_colors cs = list_all (list_all (\<lambda>x. 0 \<le> x \<and> x \<le> 255)) cs"

definition rgb_palette :: "'m Pyx \<Rightarrow> bool" where
  "rgb_palette pyx =
     (case palette_cache pyx of
        Some c \<Rightarrow> rgb_colors c
      | None \<Rightarrow>
          (case palette pyx of
             PaletteCount n \<Rightarrow> True
           | PaletteFloats cs \<Rightarrow> list_all (\<lambda>c. length c = 3) cs
           | PaletteInts cs \<Rightarrow> rgb_colors cs))"

definition byte_palette :: "'m Pyx \<Rightarrow> bool" where
  "byte_palette pyx =
     (case palette_cache pyx of
        Some c \<Rightarrow> byte_colors c
      | None \<Rightarrow>
          (case palette pyx of
             PaletteCount n \<Rightarrow> True
           | PaletteFloats cs \<Rightarrow> True
           | PaletteInts cs \<Rightarrow> byte_colors cs))"

text \<open>
  The example object with a palette of 3 colours and dithering \<open>dm\<close>, as \<^verbatim>\<open>fit\<close> leaves it
  when given \<open>image_d\<close>.
\<close>

definition demo_fitted3 :: "dither \<Rightarrow> (real \<times> real \<times> real) list Pyx" where
  "demo_fitted3 dm =
     demo_pyx\<lparr>palette := PaletteCount 3, dither := dm,
              model := Some [(207 / 200, - 7 / 200, - 7 / 200),
                             (- 7 / 200, 207 / 200, - 7 / 200),
                             (- 7 / 200, - 7 / 200, 207 / 200)],
              is_fitted := True\<rparr>"

text \<open>
  A fifth image, red, green, yellow and black, and the example object with a palette of 3
  colours and naive dithering as \<^verbatim>\<open>fit\<close> leaves it when given that image.
\<close>

definition image_e :: "int image" where
  "image_e = \<lparr>im_h = 1, im_w = 4, im_d = 3,
              im_px = [[[255, 0, 0], [0, 255, 0], [255, 255, 0], [0, 0, 0]]]\<rparr>"

definition demo_fitted_naive :: "(real \<times> real \<times> real) list Pyx" where
  "demo_fitted_naive =
     demo_pyx\<lparr>palette := PaletteCount 3, dither := Naive,
              model := Some [(207 / 200, - 7 / 200, - 7 / 200),
                             (- 7 / 200, 207 / 200, - 7 / 200),
                             (207 / 200, 207 / 200, - 7 / 200)],
              is_fitted := True\<rparr>"


section \<open>Properties of padding\<close>

lemma py_slice_edge_pad:
  "py_slice a b (edge_pad a (if b then 1 else 0) xs) = xs" if "a \<le> 1"
proof -
  from that have "a = 0 \<or> a = 1" by arith
  then show ?thesis
    by (auto simp: py_slice_def edge_pad_def butlast_append)
qed

lemma py_slice_map: "py_slice a b (map f xs) = map f (py_slice a b xs)"
  by (simp add: py_slice_def drop_map map_butlast [symmetric])

lemma py_slice_len_pad:
  "py_slice_len a b (n + a + (if b then 1 else 0)) = n"
  by (simp add: py_slice_def py_slice_len_def)

text \<open>
  C1. For every image and every tile size of at least 2, padding succeeds, and removing the
  padding again with the original height and width gives back the original image.
\<close>

theorem pad_unpad_inverse:
  assumes "2 \<le> pad_size"
  shows "\<exists>P. pad X pad_size None None = Inr P
           \<and> pad P pad_size (Some (im_h X)) (Some (im_w X)) = Inr X"
proof -
  define h1 :: nat where "h1 = (if int (im_h X) mod pad_size > 0 then 1 else 0)"
  define h2 where "h2 \<longleftrightarrow> int (im_h X) mod pad_size = 1"
  define w1 :: nat where "w1 = (if int (im_w X) mod pad_size > 0 then 1 else 0)"
  define w2 where "w2 \<longleftrightarrow> int (im_w X) mod pad_size = 1"
  define P where "P = X\<lparr>im_h := im_h X + h1 + (if h2 then 1 else 0),
                        im_w := im_w X + w1 + (if w2 then 1 else 0),
                        im_px := map (edge_pad w1 (if w2 then 1 else 0))
                                   (edge_pad h1 (if h2 then 1 else 0) (im_px X))\<rparr>"
  have h0: "im_h X = 0 \<Longrightarrow> h1 = 0 \<and> \<not> h2" and w0: "im_w X = 0 \<Longrightarrow> w1 = 0 \<and> \<not> w2"
    by (simp_all add: h1_def h2_def w1_def w2_def)
  have le: "h1 \<le> 1" "w1 \<le> 1"
    by (simp_all add: h1_def w1_def)
  have guard: "\<not> ((im_h X = 0 \<and> 0 < h1 + (if h2 then 1 else 0))
                  \<or> (im_w X = 0 \<and> 0 < w1 + (if w2 then 1 else 0)))"
    using h0 w0 by auto
  have "pad X pad_size None None
        = np_pad_edge X (h1, if h2 then 1 else 0) (w1, if w2 then 1 else 0)"
    using assms by (simp add: pad_def Let_def h1_def h2_def w1_def w2_def)
  with guard have padded: "pad X pad_size None None = Inr P"
    by (simp add: np_pad_edge_def P_def)
  have rows: "py_slice h1 h2 (im_px P) = map (edge_pad w1 (if w2 then 1 else 0)) (im_px X)"
  proof -
    have "py_slice h1 h2 (im_px P)
          = map (edge_pad w1 (if w2 then 1 else 0))
              (py_slice h1 h2 (edge_pad h1 (if h2 then 1 else 0) (im_px X)))"
      by (simp add: P_def py_slice_map)
    then show ?thesis
      by (simp add: py_slice_edge_pad [OF le(1)])
  qed
  have cols: "map (py_slice w1 w2) (py_slice h1 h2 (im_px P)) = im_px X"
    by (simp add: rows py_slice_edge_pad [OF le(2)] comp_def)
  have "pad P pad_size (Some (im_h X)) (Some (im_w X))
        = Inr (P\<lparr>im_h := py_slice_len h1 h2 (im_h P),
                 im_w := py_slice_len w1 w2 (im_w P),
                 im_px := map (py_slice w1 w2) (py_slice h1 h2 (im_px P))\<rparr>)"
    using assms by (simp add: pad_def Let_def h1_def h2_def w1_def w2_def)
  also have "\<dots> = Inr X"
    by (simp add: cols) (simp add: P_def py_slice_len_pad)
  finally show ?thesis using padded by blast
qed


text \<open>
  C1, at a concrete input: a 1 by 2 image padded for tiles of 3.
\<close>

theorem pad_unpad_inverse_witness:
  "(2::int) \<le> 3 \<and>
   (\<exists>P. pad \<lparr>im_h = 1, im_w = 2, im_d = 1, im_px = [[[10::int], [20]]]\<rparr> 3 None None = Inr P
      \<and> pad P 3 (Some 1) (Some 2)
          = Inr \<lparr>im_h = 1, im_w = 2, im_d = 1, im_px = [[[10::int], [20]]]\<rparr>)"
  using pad_unpad_inverse [of 3 "\<lparr>im_h = 1, im_w = 2, im_d = 1, im_px = [[[10::int], [20]]]\<rparr>"]
  by simp

text \<open>
  What padding adds: at most one row in front and one behind, and likewise for columns; the
  padded extents are multiples of the tile size when that size is 3, the size \<^verbatim>\<open>_dilate\<close> and
  \<^verbatim>\<open>_median\<close> use.
\<close>

lemma pad_extent:
  assumes "pad X pad_size None None = Inr P"
  shows "im_h P = im_h X + (if int (im_h X) mod pad_size > 0 then 1 else 0)
                         + (if int (im_h X) mod pad_size = 1 then 1 else 0)"
    and "im_w P = im_w X + (if int (im_w X) mod pad_size > 0 then 1 else 0)
                         + (if int (im_w X) mod pad_size = 1 then 1 else 0)"
    and "im_d P = im_d X"
  using assms
  by (auto simp: pad_def np_pad_edge_def Let_def split: if_splits)

lemma pad_three_multiple:
  assumes "pad X 3 None None = Inr P"
  shows "3 dvd im_h P" and "3 dvd im_w P"
proof -
  have *: "3 dvd n + (if int n mod 3 > 0 then 1 else 0) + (if int n mod 3 = 1 then 1 else 0)"
    for n :: nat
  proof -
    have "int n mod 3 = 0 \<or> int n mod 3 = 1 \<or> int n mod 3 = 2" by presburger
    then show ?thesis by (elim disjE) (simp_all, presburger+)
  qed
  show "3 dvd im_h P" "3 dvd im_w P"
    using pad_extent(1,2) [OF assms] * by simp_all
qed

text \<open>
  C2. The comment in \<^verbatim>\<open>_pad\<close> promises an image divisible by the tile size.  For a tile size
  of 2 and an image of height and width 1 the result has height and width 3, which 2 does not
  divide: the rule "one row in front if the remainder is positive, one behind if it is 1" only
  reaches a multiple for tiles of 3.
\<close>

theorem pad_tile_two_not_multiple:
  "pad \<lparr>im_h = 1, im_w = 1, im_d = 3, im_px = [[[7::int, 8, 9]]]\<rparr> 2 None None
     = Inr \<lparr>im_h = 3, im_w = 3, im_d = 3,
            im_px = [[[7, 8, 9], [7, 8, 9], [7, 8, 9]],
                     [[7, 8, 9], [7, 8, 9], [7, 8, 9]],
                     [[7, 8, 9], [7, 8, 9], [7, 8, 9]]]\<rparr>
   \<and> int 3 mod 2 \<noteq> 0"
  by (simp add: pad_def np_pad_edge_def edge_pad_def)

section \<open>The example library, field by field\<close>

lemma demo_library_fields:
  "sample_value demo_library = real_of_int"
  "resize demo_library aa X (h, w) (i, j, c)
     = real_of_int (im_px X ! (i * im_h X div h) ! (j * im_w X div w) ! c) / 255"
  "resize_plane demo_library aa P (h, w) (i, j)
     = real_of_int (P ! (i * length P div h) ! (j * length (P ! 0) div w)) / 255"
  "skimage_dilation demo_library P (i, j) = P ! i ! j"
  "skimage_sobel demo_library Q (i, j) = 0"
  "skimage_median demo_library Q (i, j) = Q ! i ! j"
  "equalize_adapthist demo_library Y (i, j, c) = im_px Y ! i ! j ! c"
  "rgb2hsv demo_library t = t"
  "hsv2rgb demo_library t = t"
  "bgm_fit demo_library = demo_fit"
  "means demo_library m = m"
  "predict demo_library m x = argmin (map (dist2 x) m)"
  "super_predict_proba demo_library m x
     = map (\<lambda>mu. (1 / (1 + dist2 x mu)) / (\<Sum>nu\<leftarrow>m. 1 / (1 + dist2 x nu))) m"
  "true_div_mul demo_library a b k = \<lfloor>real_of_int a / real b * real k\<rfloor>"
  "convolve_reflect demo_library Q K (i, j)
     = (\<Sum>a\<leftarrow>[0..<4]. \<Sum>b\<leftarrow>[0..<4].
          K ! a ! b * Q ! reflect_index (length Q) (int i + 2 - int a)
                        ! reflect_index (length (Q ! 0)) (int j + 2 - int b))"
  "pad_reflect demo_library Z (i, j) = im_px Z ! min i (im_h Z - 1) ! min (j - 1) (im_w Z - 1)"
  by (simp_all add: demo_library_def)


section \<open>Posterior probabilities\<close>

text \<open>
  C6. With a palette of fewer than 3 colours \<^verbatim>\<open>predict_proba\<close> returns the square root of
  each posterior probability and nothing else is done to the rows; with 3 colours or more it
  returns the posterior of the library unchanged.
\<close>

theorem predict_proba_sqrt:
  "predict_proba L pal m X =
     (if palette_size pal < 3 then map (map sqrt) (map (super_predict_proba L m) X)
      else map (super_predict_proba L m) X)"
  by (cases pal) (simp_all add: predict_proba_def palette_size_def)

lemma sqrt_vals: "sqrt (16 / 25) = 4 / 5" "sqrt (9 / 25) = 3 / 5"
  by (rule real_sqrt_unique; simp add: power2_eq_square)+

text \<open>
  C6 at a posterior row \<open>[16/25, 9/25]\<close>: for 2 colours the row becomes \<open>[4/5, 3/5]\<close>, which
  no longer sums to 1; for 3 colours it is returned as it is.
\<close>

theorem predict_proba_sqrt_witness:
  "predict_proba (demo_library\<lparr>super_predict_proba := \<lambda>m x. [16 / 25, 9 / 25]\<rparr>)
       (PaletteCount 2) [] [[0, 0, 0]] = [[4 / 5, 3 / 5]]
   \<and> predict_proba (demo_library\<lparr>super_predict_proba := \<lambda>m x. [16 / 25, 9 / 25]\<rparr>)
       (PaletteCount 3) [] [[0, 0, 0]] = [[16 / 25, 9 / 25]]"
  using predict_proba_sqrt [of "demo_library\<lparr>super_predict_proba := \<lambda>m x. [16 / 25, 9 / 25]\<rparr>"
          "PaletteCount 2" "[]" "[[0, 0, 0]]"]
        predict_proba_sqrt [of "demo_library\<lparr>super_predict_proba := \<lambda>m x. [16 / 25, 9 / 25]\<rparr>"
          "PaletteCount 3" "[]" "[[0, 0, 0]]"]
  by (simp add: palette_size_def sqrt_vals)

section \<open>Shapes and well-formed arrays\<close>

lemma length_tabulate2 [simp]: "length (tabulate2 h w f) = h"
  by (simp add: tabulate2_def)

lemma nth_tabulate2_row [simp]: "i < h \<Longrightarrow> tabulate2 h w f ! i = map (f i) [0..<w]"
  by (simp add: tabulate2_def)

lemma nth_tabulate2: "i < h \<Longrightarrow> j < w \<Longrightarrow> tabulate2 h w f ! i ! j = f i j"
  by simp

lemma wf_imageI:
  assumes "length (im_px X) = im_h X"
    and "\<And>i. i < im_h X \<Longrightarrow> length (im_px X ! i) = im_w X"
    and "\<And>i j. i < im_h X \<Longrightarrow> j < im_w X \<Longrightarrow> length (im_px X ! i ! j) = im_d X"
  shows "wf_image X"
  using assms by (simp add: wf_image_def list_all_length)

lemma wf_imageD:
  assumes "wf_image X"
  shows "length (im_px X) = im_h X"
    and "i < im_h X \<Longrightarrow> length (im_px X ! i) = im_w X"
    and "i < im_h X \<Longrightarrow> j < im_w X \<Longrightarrow> length (im_px X ! i ! j) = im_d X"
  using assms by (simp_all add: wf_image_def list_all_length)

lemma wf_image_sets:
  assumes "wf_image X"
  shows "row \<in> set (im_px X) \<Longrightarrow> length row = im_w X"
    and "row \<in> set (im_px X) \<Longrightarrow> p \<in> set row \<Longrightarrow> length p = im_d X"
  using assms by (auto simp: wf_image_def list_all_iff)

lemma wf_image_tabulate:
  assumes "\<And>i j. i < h \<Longrightarrow> j < w \<Longrightarrow> length (f i j) = d"
  shows "wf_image \<lparr>im_h = h, im_w = w, im_d = d, im_px = tabulate2 h w f\<rparr>"
  using assms by (intro wf_imageI) simp_all

lemma resize_image_shape [simp]:
  "im_h (resize_image L aa X h w) = h"
  "im_w (resize_image L aa X h w) = w"
  "im_d (resize_image L aa X h w) = im_d X"
  by (simp_all add: resize_image_def)

lemma wf_resize_image: "wf_image (resize_image L aa X h w)"
  unfolding resize_image_def by (rule wf_image_tabulate) simp

lemma each_channel_shape [simp]:
  "im_h (each_channel f h w X) = h"
  "im_w (each_channel f h w X) = w"
  "im_d (each_channel f h w X) = im_d X"
  by (simp_all add: each_channel_def)

lemma wf_each_channel: "wf_image (each_channel f h w X)"
  unfolding each_channel_def by (rule wf_image_tabulate) simp

lemma rgb_shape [simp]:
  "im_h (rgb X) = im_h X" "im_w (rgb X) = im_w X" "im_d (rgb X) = min 3 (im_d X)"
  by (simp_all add: rgb_def)

lemma wf_rgb: "wf_image X \<Longrightarrow> wf_image (rgb X)"
  by (auto simp: wf_image_def rgb_def list_all_iff)

lemma length_concat_uniform:
  "(\<And>x. x \<in> set xs \<Longrightarrow> length x = n) \<Longrightarrow> length (concat xs) = length xs * n"
  by (induction xs) simp_all

lemma flat_length: "wf_image X \<Longrightarrow> length (flat X) = im_h X * im_w X * im_d X"
proof -
  assume wf: "wf_image X"
  have pix: "\<And>p. p \<in> set (concat (im_px X)) \<Longrightarrow> length p = im_d X"
    using wf_image_sets(2) [OF wf] by auto
  have "length (concat (im_px X)) = im_h X * im_w X"
    using length_concat_uniform [of "im_px X" "im_w X"] wf_image_sets(1) [OF wf]
      wf_imageD(1) [OF wf] by simp
  then show ?thesis
    using length_concat_uniform [of "concat (im_px X)" "im_d X"] pix by (simp add: flat_def)
qed

lemma pixels_length: "wf_image X \<Longrightarrow> length (concat (im_px X)) = im_h X * im_w X"
  using length_concat_uniform [of "im_px X" "im_w X"] wf_image_sets(1) [of X] wf_imageD(1) [of X]
  by simp

lemma chunks_concat:
  assumes "\<And>p. p \<in> set ps \<Longrightarrow> length p = n"
  shows "map (\<lambda>i. take n (drop (i * n) (concat ps))) [0..<length ps] = ps"
  using assms
proof (induction ps)
  case Nil
  then show ?case by simp
next
  case (Cons p ps)
  have len: "length p = n" using Cons.prems by simp
  have "map (\<lambda>i. take n (drop (i * n) (concat (p # ps)))) [0..<length (p # ps)]
        = take n (concat (p # ps))
          # map (\<lambda>i. take n (drop (Suc i * n) (concat (p # ps)))) [0..<length ps]"
    by (simp add: upt_conv_Cons map_Suc_upt [symmetric] del: upt_Suc)
  also have "take n (concat (p # ps)) = p" using len by simp
  also have "map (\<lambda>i. take n (drop (Suc i * n) (concat (p # ps)))) [0..<length ps]
             = map (\<lambda>i. take n (drop (i * n) (concat ps))) [0..<length ps]"
    using len by (simp add: add.commute)
  also have "\<dots> = ps" using Cons by simp
  finally show ?case .
qed

lemma reshape_rows_flat:
  assumes "wf_image X" "0 < im_d X"
  shows "reshape_rows (im_d X) (flat X) = Inr (concat (im_px X))"
proof -
  have pix: "\<And>p. p \<in> set (concat (im_px X)) \<Longrightarrow> length p = im_d X"
    using wf_image_sets(2) [OF assms(1)] by auto
  have len: "length (concat (concat (im_px X))) = length (concat (im_px X)) * im_d X"
    using length_concat_uniform [of "concat (im_px X)" "im_d X"] pix by simp
  have "map (\<lambda>i. take (im_d X) (drop (i * im_d X) (concat (concat (im_px X)))))
          [0..<length (concat (im_px X))] = concat (im_px X)"
    using chunks_concat [of "concat (im_px X)" "im_d X"] pix by simp
  then show ?thesis
    using assms(2) by (simp add: reshape_rows_def flat_def len)
qed

lemma reshape_to_flat:
  assumes "wf_image X" "im_d X = 3"
  shows "reshape_to (im_h X * im_w X) 3 (flat X) = Inr (concat (im_px X))"
proof -
  have pix: "\<And>p. p \<in> set (concat (im_px X)) \<Longrightarrow> length p = 3"
    using wf_image_sets(2) [OF assms(1)] assms(2) by auto
  have "map (\<lambda>i. take 3 (drop (i * 3) (concat (concat (im_px X)))))
          [0..<length (concat (im_px X))] = concat (im_px X)"
    using chunks_concat [of "concat (im_px X)" 3] pix by simp
  moreover have "length (concat (concat (im_px X))) = im_h X * im_w X * 3"
    using flat_length [OF assms(1)] assms(2) by (simp add: flat_def)
  ultimately show ?thesis
    using pixels_length [OF assms(1)] by (simp add: reshape_to_def flat_def)
qed

section \<open>Padding and dilation keep arrays well formed\<close>

lemma edge_pad_length [simp]: "length (edge_pad a b xs) = a + length xs + b"
  by (simp add: edge_pad_def)

lemma edge_pad_set: "xs \<noteq> [] \<or> a + b = 0 \<Longrightarrow> set (edge_pad a b xs) \<subseteq> set xs"
  by (cases "xs = []") (auto simp: edge_pad_def)

lemma py_slice_length [simp]: "length (py_slice a b xs) = py_slice_len a b (length xs)"
  by (simp add: py_slice_def py_slice_len_def)

lemma py_slice_set: "set (py_slice a b xs) \<subseteq> set xs"
  by (auto simp: py_slice_def dest: in_set_dropD in_set_butlastD)

lemma pad_eq:
  assumes "pad_size \<noteq> 0"
  shows "pad X pad_size None None
         = Inr (X\<lparr>im_h := im_h X + (if int (im_h X) mod pad_size > 0 then 1 else 0)
                              + (if int (im_h X) mod pad_size = 1 then 1 else 0),
                  im_w := im_w X + (if int (im_w X) mod pad_size > 0 then 1 else 0)
                              + (if int (im_w X) mod pad_size = 1 then 1 else 0),
                  im_px := map (edge_pad (if int (im_w X) mod pad_size > 0 then 1 else 0)
                                         (if int (im_w X) mod pad_size = 1 then 1 else 0))
                             (edge_pad (if int (im_h X) mod pad_size > 0 then 1 else 0)
                                       (if int (im_h X) mod pad_size = 1 then 1 else 0)
                                       (im_px X))\<rparr>)"
proof -
  have pos: "0 < n" if "0 < int n mod pad_size" for n
    using that by (cases n) simp_all
  have one: "0 < n" if "int n mod pad_size = 1" for n
    using that by (cases n) simp_all
  show ?thesis
    using assms by (auto simp: pad_def np_pad_edge_def Let_def dest: pos one)
qed

lemma wf_pad:
  assumes "wf_image X" "pad X pad_size None None = Inr P"
  shows "wf_image P"
proof -
  from assms(2) have nz: "pad_size \<noteq> 0"
    by (auto simp: pad_def split: if_splits)
  define h1 :: nat where "h1 = (if int (im_h X) mod pad_size > 0 then 1 else 0)"
  define h2 :: nat where "h2 = (if int (im_h X) mod pad_size = 1 then 1 else 0)"
  define w1 :: nat where "w1 = (if int (im_w X) mod pad_size > 0 then 1 else 0)"
  define w2 :: nat where "w2 = (if int (im_w X) mod pad_size = 1 then 1 else 0)"
  have P: "P = X\<lparr>im_h := im_h X + h1 + h2, im_w := im_w X + w1 + w2,
                  im_px := map (edge_pad w1 w2) (edge_pad h1 h2 (im_px X))\<rparr>"
    using assms(2) pad_eq [OF nz, of X] by (simp add: h1_def h2_def w1_def w2_def)
  have h0: "im_px X \<noteq> [] \<or> h1 + h2 = 0"
    using wf_imageD(1) [OF assms(1)] by (cases "im_h X = 0") (auto simp: h1_def h2_def)
  have rows: "set (edge_pad h1 h2 (im_px X)) \<subseteq> set (im_px X)"
    by (rule edge_pad_set [OF h0])
  have w0: "row \<noteq> [] \<or> w1 + w2 = 0" if "row \<in> set (im_px X)" for row
    using wf_image_sets(1) [OF assms(1) that] by (cases "im_w X = 0") (auto simp: w1_def w2_def)
  show ?thesis
  proof (unfold wf_image_def list_all_iff, intro conjI ballI)
    show "length (im_px P) = im_h P"
      using wf_imageD(1) [OF assms(1)] by (simp add: P)
  next
    fix row assume "row \<in> set (im_px P)"
    then obtain r where r: "r \<in> set (im_px X)" "row = edge_pad w1 w2 r"
      using rows by (auto simp: P)
    show "length row = im_w P"
      using wf_image_sets(1) [OF assms(1) r(1)] by (simp add: r(2) P)
    fix p assume "p \<in> set row"
    then have "p \<in> set r"
      using edge_pad_set [OF w0 [OF r(1)]] r(2) by auto
    then show "length p = im_d P"
      using wf_image_sets(2) [OF assms(1) r(1)] by (simp add: P)
  qed
qed

lemma unpad_eq:
  assumes "pad_size \<noteq> 0"
  shows "pad X pad_size (Some nh) (Some nw)
         = Inr (X\<lparr>im_h := py_slice_len (if int nh mod pad_size > 0 then 1 else 0)
                              (int nh mod pad_size = 1) (im_h X),
                  im_w := py_slice_len (if int nw mod pad_size > 0 then 1 else 0)
                              (int nw mod pad_size = 1) (im_w X),
                  im_px := map (py_slice (if int nw mod pad_size > 0 then 1 else 0)
                                         (int nw mod pad_size = 1))
                             (py_slice (if int nh mod pad_size > 0 then 1 else 0)
                                       (int nh mod pad_size = 1) (im_px X))\<rparr>)"
  using assms by (simp add: pad_def Let_def)

lemma wf_unpad:
  assumes "wf_image X" "pad X pad_size (Some nh) (Some nw) = Inr P"
  shows "wf_image P"
proof -
  from assms(2) have nz: "pad_size \<noteq> 0"
    by (auto simp: pad_def split: if_splits)
  define a :: nat where "a = (if int nh mod pad_size > 0 then 1 else 0)"
  define b where "b \<longleftrightarrow> int nh mod pad_size = 1"
  define c :: nat where "c = (if int nw mod pad_size > 0 then 1 else 0)"
  define e where "e \<longleftrightarrow> int nw mod pad_size = 1"
  have P: "P = X\<lparr>im_h := py_slice_len a b (im_h X), im_w := py_slice_len c e (im_w X),
                  im_px := map (py_slice c e) (py_slice a b (im_px X))\<rparr>"
    using assms(2) unpad_eq [OF nz, of X nh nw] by (simp add: a_def b_def c_def e_def)
  show ?thesis
  proof (unfold wf_image_def list_all_iff, intro conjI ballI)
    show "length (im_px P) = im_h P"
      using wf_imageD(1) [OF assms(1)] by (simp add: P)
  next
    fix row assume "row \<in> set (im_px P)"
    then obtain r where r: "r \<in> set (im_px X)" "row = py_slice c e r"
      using py_slice_set [of a b "im_px X"] by (auto simp: P)
    show "length row = im_w P"
      using wf_image_sets(1) [OF assms(1) r(1)] by (simp add: r(2) P)
    fix p assume "p \<in> set row"
    then have "p \<in> set r"
      using py_slice_set [of c e r] r(2) by auto
    then show "length p = im_d P"
      using wf_image_sets(2) [OF assms(1) r(1)] by (simp add: P)
  qed
qed

text \<open>Padding an array and cutting an array of the padded shape back gives the old shape.\<close>

lemma pad_unpad_shape:
  assumes "pad X pad_size None None = Inr P"
    and "im_h Q = im_h P" "im_w Q = im_w P"
    and "pad Q pad_size (Some (im_h X)) (Some (im_w X)) = Inr R"
  shows "im_h R = im_h X" "im_w R = im_w X" "im_d R = im_d Q"
proof -
  from assms(1) have nz: "pad_size \<noteq> 0"
    by (auto simp: pad_def split: if_splits)
  have P: "im_h P = im_h X + (if int (im_h X) mod pad_size > 0 then 1 else 0)
                          + (if int (im_h X) mod pad_size = 1 then 1 else 0)"
          "im_w P = im_w X + (if int (im_w X) mod pad_size > 0 then 1 else 0)
                          + (if int (im_w X) mod pad_size = 1 then 1 else 0)"
    using pad_extent(1,2) [OF assms(1)] .
  have R: "im_h R = py_slice_len (if int (im_h X) mod pad_size > 0 then 1 else 0)
                      (int (im_h X) mod pad_size = 1) (im_h Q)"
          "im_w R = py_slice_len (if int (im_w X) mod pad_size > 0 then 1 else 0)
                      (int (im_w X) mod pad_size = 1) (im_w Q)"
          "im_d R = im_d Q"
    using assms(4) unpad_eq [OF nz, of Q "im_h X" "im_w X"] by auto
  show "im_h R = im_h X"
    unfolding R(1) assms(2) P(1) by (simp add: py_slice_len_def)
  show "im_w R = im_w X"
    unfolding R(2) assms(3) P(2) by (simp add: py_slice_len_def)
  show "im_d R = im_d Q" by (rule R(3))
qed

lemma dilate_ok:
  assumes "wf_image X" "3 < im_d X"
  shows "\<exists>D. dilate L a X = Inr D \<and> wf_image D
             \<and> im_h D = im_h X \<and> im_w D = im_w X \<and> im_d D = im_d X"
proof -
  obtain P where P: "pad X 3 None None = Inr P"
    using pad_eq [of 3 X] by simp
  have wfP: "wf_image P" by (rule wf_pad [OF assms(1) P])
  have dP: "im_d P = im_d X" by (rule pad_extent(3) [OF P])
  define Q where "Q = P\<lparr>im_px := tabulate2 (im_h P) (im_w P)
      (\<lambda>i j. if sample_value L (channel 3 P ! i ! j) < a
             then im_px (each_channel (skimage_dilation L) (im_h P) (im_w P) (rgb P)) ! i ! j
                  @ drop 3 (im_px P ! i ! j)
             else im_px P ! i ! j)\<rparr>"
  have dil: "dilate L a X = pad Q 3 (Some (im_h X)) (Some (im_w X))"
    using assms(2) by (simp add: dilate_def P dP Let_def Q_def)
  obtain D where D: "pad Q 3 (Some (im_h X)) (Some (im_w X)) = Inr D"
    using unpad_eq [of 3 Q] by simp
  have alt: "length (im_px (each_channel (skimage_dilation L) (im_h P) (im_w P) (rgb P)) ! i ! j) = 3"
    if "i < im_h P" "j < im_w P" for i j
    using wf_imageD(3) [OF wf_each_channel, of i "skimage_dilation L" "im_h P" "im_w P" "rgb P" j]
      that assms(2) dP by simp
  have wfQ: "wf_image Q"
  proof (rule wf_imageI)
    show "length (im_px Q) = im_h Q" by (simp add: Q_def)
    show "length (im_px Q ! i) = im_w Q" if "i < im_h Q" for i
      using that by (simp add: Q_def)
    show "length (im_px Q ! i ! j) = im_d Q" if "i < im_h Q" "j < im_w Q" for i j
      using that alt [of i j] wf_imageD(3) [OF wfP, of i j] assms(2) dP
      by (simp add: Q_def)
  qed
  have shape: "im_h D = im_h X" "im_w D = im_w X" "im_d D = im_d Q"
    using pad_unpad_shape [OF P _ _ D] by (simp_all add: Q_def)
  show ?thesis
    using dil D wf_unpad [OF wfQ D] shape dP by (simp add: Q_def)
qed

section \<open>Fitting\<close>

lemma alpha_kept_ok:
  assumes "wf_image X" "im_d X = 4"
  shows "\<exists>rows. alpha_kept L a X = Inr rows"
proof -
  obtain D where D: "dilate L a X = Inr D" "wf_image D" "im_d D = im_d X"
    using dilate_ok [of X L a] assms by auto
  have "reshape_rows 4 (flat D) = Inr (concat (im_px D))"
    using reshape_rows_flat [OF D(2)] D(3) assms(2) by simp
  then show ?thesis
    by (simp add: alpha_kept_def D(1))
qed

text \<open>
  C10. For an image with 4 channels the sample handed to the mixture is the resized colour
  channels of the whole image, moved away from grey when a palette is inferred; the list of
  pixels kept by the alpha threshold is computed and dropped.  Two images with the same colour
  channels are therefore fitted alike, whatever their alpha channels.
\<close>

theorem fit_ignores_alpha:
  assumes "wf_image X" "im_d X = 4" "wf_image Y" "im_d Y = 4" "rgb X = rgb Y"
  shows "fit L pyx X = fit L pyx Y
       \<and> fit_sample L pyx X
           = Inr (let S = concat (im_px (resize_image L False (rgb X) 1
                                    (min (im_h X) BGM_RESIZE * min (im_w X) BGM_RESIZE)))
                  in if find_palette (palette pyx)
                     then map (map (\<lambda>x. (x - 1 / 2) * SCALE_RGB + 1 / 2)) S
                     else S)"
proof -
  have sample: "fit_sample L pyx Z
           = Inr (let S = concat (im_px (resize_image L False (rgb Z) 1
                                    (min (im_h Z) BGM_RESIZE * min (im_w Z) BGM_RESIZE)))
                  in if find_palette (palette pyx)
                     then map (map (\<lambda>x. (x - 1 / 2) * SCALE_RGB + 1 / 2)) S
                     else S)"
    if wf: "wf_image Z" and d: "im_d Z = 4" for Z
  proof -
    obtain rows where rows: "alpha_kept L (alpha pyx) Z = Inr rows"
      using alpha_kept_ok [OF wf d] by blast
    define R where "R = resize_image L False (rgb Z) 1
                          (min (im_h Z) BGM_RESIZE * min (im_w Z) BGM_RESIZE)"
    have "wf_image R" "im_d R = 3"
      using d by (simp_all add: R_def wf_resize_image)
    then have "reshape_rows 3 (flat R) = Inr (concat (im_px R))"
      using reshape_rows_flat [of R] by simp
    then show ?thesis
      using d rows by (simp add: fit_sample_def image_to_float_def R_def Let_def)
  qed
  have dims: "im_h X = im_h Y" "im_w X = im_w Y"
    using arg_cong [OF assms(5), of im_h] arg_cong [OF assms(5), of im_w] by simp_all
  have "fit_sample L pyx X = fit_sample L pyx Y"
    by (simp add: sample [OF assms(1,2)] sample [OF assms(3,4)] assms(5) dims)
  then show ?thesis
    using sample [OF assms(1,2)] by (simp add: fit_def)
qed

text \<open>
  C10 for two images of 2 pixels that differ in their alpha channel only.
\<close>

theorem fit_ignores_alpha_witness:
  "wf_image \<lparr>im_h = 1, im_w = 2, im_d = 4, im_px = [[[200::int, 100, 50, 255], [10, 20, 30, 0]]]\<rparr>
   \<and> wf_image \<lparr>im_h = 1, im_w = 2, im_d = 4, im_px = [[[200::int, 100, 50, 0], [10, 20, 30, 128]]]\<rparr>
   \<and> rgb \<lparr>im_h = 1, im_w = 2, im_d = 4, im_px = [[[200::int, 100, 50, 255], [10, 20, 30, 0]]]\<rparr>
       = rgb \<lparr>im_h = 1, im_w = 2, im_d = 4, im_px = [[[200::int, 100, 50, 0], [10, 20, 30, 128]]]\<rparr>
   \<and> fit demo_library demo_pyx
         \<lparr>im_h = 1, im_w = 2, im_d = 4, im_px = [[[200::int, 100, 50, 255], [10, 20, 30, 0]]]\<rparr>
       = fit demo_library demo_pyx
           \<lparr>im_h = 1, im_w = 2, im_d = 4, im_px = [[[200::int, 100, 50, 0], [10, 20, 30, 128]]]\<rparr>"
proof -
  let ?X = "\<lparr>im_h = 1, im_w = 2, im_d = 4, im_px = [[[200::int, 100, 50, 255], [10, 20, 30, 0]]]\<rparr>"
  let ?Y = "\<lparr>im_h = 1, im_w = 2, im_d = 4, im_px = [[[200::int, 100, 50, 0], [10, 20, 30, 128]]]\<rparr>"
  have wf: "wf_image ?X" "wf_image ?Y"
    by (simp_all add: wf_image_def)
  have eq: "rgb ?X = rgb ?Y"
    by (simp add: rgb_def)
  show ?thesis
    using fit_ignores_alpha [OF wf(1) _ wf(2) _ eq, of demo_library demo_pyx] wf eq
    by simp
qed

section \<open>Running the examples\<close>

lemma demo_pyx_init:
  "init None None None (UpscaleNumber 1) 1 (PaletteCount 2) Dither_none 3 (6 / 10) True
     = Inr demo_pyx"
  by (simp add: init_def demo_pyx_def palette_size_def)

lemmas fit_eval = fit_def fit_sample_def resize_image_def tabulate2_def rgb_def
  image_to_float_def flat_def reshape_rows_def find_palette_def palette_size_def
  BGM_RESIZE_def SCALE_RGB_def Let_def upt_conv_Cons demo_library_fields demo_fit_def

lemmas colors_eval = colors_def derive_colors_def scale_sv_def quantise_def clip_def
  COLOR_QUANT_def SCALE_RGB_def find_palette_def demo_library_fields Let_def

lemma fit_image_a:
  "fit demo_library (demo_pyx\<lparr>model := mo, is_fitted := b, palette_cache := pc\<rparr>) image_a
     = Inr (demo_pyx\<lparr>model := Some [(207 / 200, - 7 / 200, - 7 / 200),
                                      (- 7 / 200, 207 / 200, - 7 / 200)],
                      is_fitted := True, palette_cache := pc\<rparr>)"
  by (simp add: fit_eval demo_pyx_def image_a_def)

lemma fit_image_b:
  "fit demo_library (demo_pyx\<lparr>model := mo, is_fitted := b, palette_cache := pc\<rparr>) image_b
     = Inr (demo_pyx\<lparr>model := Some [(- 7 / 200, - 7 / 200, 207 / 200),
                                      (207 / 200, 207 / 200, 207 / 200)],
                      is_fitted := True, palette_cache := pc\<rparr>)"
  by (simp add: fit_eval demo_pyx_def image_b_def)

lemma derive_colors_a:
  "derive_colors demo_library [(207 / 200, - 7 / 200, - 7 / 200), (- 7 / 200, 207 / 200, - 7 / 200)]
     = [[255, 0, 0], [0, 255, 0]]"
  by (simp add: colors_eval)

lemma derive_colors_b:
  "derive_colors demo_library [(- 7 / 200, - 7 / 200, 207 / 200), (207 / 200, 207 / 200, 207 / 200)]
     = [[0, 0, 255], [255, 255, 255]]"
  by (simp add: colors_eval)

section \<open>The palette cache across fits\<close>

lemma fit_fields:
  assumes "fit L pyx X = Inr pyx'"
  shows "\<exists>S m. fit_sample L pyx X = Inr S \<and> bgm_fit L (palette pyx) S = Inr m
            \<and> pyx' = pyx\<lparr>model := Some m, is_fitted := True\<rparr>"
  using assms by (auto simp: fit_def split: sum.splits)

text \<open>
  C4, as the code has it.  \<^verbatim>\<open>fit\<close> does not touch the palette cache.  If the cache was filled
  before the refit, \<^verbatim>\<open>colors\<close> keeps returning the cached colours; only if it was still empty
  are the colours computed from the newly fitted model (or, for a given palette, from that
  palette).
\<close>

theorem refit_keeps_palette_cache:
  assumes "fit L pyx X = Inr pyx'"
  shows "palette_cache pyx' = palette_cache pyx
       \<and> (case palette_cache pyx of
            Some c \<Rightarrow> colors L pyx' = Inr (pyx', c)
          | None \<Rightarrow>
              (\<exists>S m. fit_sample L pyx X = Inr S \<and> bgm_fit L (palette pyx) S = Inr m
                 \<and> colors L pyx'
                    = (if find_palette (palette pyx)
                       then Inr (pyx'\<lparr>palette_cache := Some (derive_colors L m)\<rparr>,
                                 derive_colors L m)
                       else (case image_to_int (palette pyx) of
                               Inl e \<Rightarrow> Inl e
                             | Inr c \<Rightarrow> Inr (pyx'\<lparr>palette_cache := Some c\<rparr>, c)))))"
proof -
  obtain S m where *: "fit_sample L pyx X = Inr S" "bgm_fit L (palette pyx) S = Inr m"
      "pyx' = pyx\<lparr>model := Some m, is_fitted := True\<rparr>"
    using fit_fields [OF assms] by blast
  show ?thesis
  proof (cases "palette_cache pyx")
    case None
    then show ?thesis
      using *(1,2) by (auto simp: *(3) colors_def Let_def split: sum.splits)
  next
    case (Some c)
    then show ?thesis
      by (simp add: * colors_def)
  qed
qed

text \<open>
  C4 as stated fails: fit on \<open>image_a\<close>, read the colours (red and green), fit again on
  \<open>image_b\<close>.  The colours are still red and green, while the new model gives blue and
  white.
\<close>

theorem refit_stale_colors_counterexample:
  "fit demo_library demo_pyx image_a
     = Inr (demo_pyx\<lparr>model := Some [(207 / 200, - 7 / 200, - 7 / 200),
                                      (- 7 / 200, 207 / 200, - 7 / 200)],
                      is_fitted := True\<rparr>)
   \<and> colors demo_library
         (demo_pyx\<lparr>model := Some [(207 / 200, - 7 / 200, - 7 / 200),
                                   (- 7 / 200, 207 / 200, - 7 / 200)],
                   is_fitted := True\<rparr>)
     = Inr (demo_pyx\<lparr>model := Some [(207 / 200, - 7 / 200, - 7 / 200),
                                      (- 7 / 200, 207 / 200, - 7 / 200)],
                      is_fitted := True,
                      palette_cache := Some [[255, 0, 0], [0, 255, 0]]\<rparr>,
            [[255, 0, 0], [0, 255, 0]])
   \<and> fit demo_library
         (demo_pyx\<lparr>model := Some [(207 / 200, - 7 / 200, - 7 / 200),
                                   (- 7 / 200, 207 / 200, - 7 / 200)],
                   is_fitted := True,
                   palette_cache := Some [[255, 0, 0], [0, 255, 0]]\<rparr>)
         image_b
     = Inr (demo_pyx\<lparr>model := Some [(- 7 / 200, - 7 / 200, 207 / 200),
                                      (207 / 200, 207 / 200, 207 / 200)],
                      is_fitted := True,
                      palette_cache := Some [[255, 0, 0], [0, 255, 0]]\<rparr>)
   \<and> colors demo_library
         (demo_pyx\<lparr>model := Some [(- 7 / 200, - 7 / 200, 207 / 200),
                                   (207 / 200, 207 / 200, 207 / 200)],
                   is_fitted := True,
                   palette_cache := Some [[255, 0, 0], [0, 255, 0]]\<rparr>)
     = Inr (demo_pyx\<lparr>model := Some [(- 7 / 200, - 7 / 200, 207 / 200),
                                      (207 / 200, 207 / 200, 207 / 200)],
                      is_fitted := True,
                      palette_cache := Some [[255, 0, 0], [0, 255, 0]]\<rparr>,
            [[255, 0, 0], [0, 255, 0]])
   \<and> derive_colors demo_library
         [(- 7 / 200, - 7 / 200, 207 / 200), (207 / 200, 207 / 200, 207 / 200)]
     = [[0, 0, 255], [255, 255, 255]]
   \<and> [[0, 0, 255], [255, 255, 255]] \<noteq> [[255, 0, 0], [0, 255 :: int, 0]]"
proof -
  have 1: "fit demo_library demo_pyx image_a
     = Inr (demo_pyx\<lparr>model := Some [(207 / 200, - 7 / 200, - 7 / 200),
                                      (- 7 / 200, 207 / 200, - 7 / 200)],
                      is_fitted := True\<rparr>)"
    using fit_image_a [of None False None] by (simp add: demo_pyx_def)
  have 3: "fit demo_library
         (demo_pyx\<lparr>model := Some [(207 / 200, - 7 / 200, - 7 / 200),
                                   (- 7 / 200, 207 / 200, - 7 / 200)],
                   is_fitted := True,
                   palette_cache := Some [[255, 0, 0], [0, 255, 0]]\<rparr>)
         image_b
     = Inr (demo_pyx\<lparr>model := Some [(- 7 / 200, - 7 / 200, 207 / 200),
                                      (207 / 200, 207 / 200, 207 / 200)],
                      is_fitted := True,
                      palette_cache := Some [[255, 0, 0], [0, 255, 0]]\<rparr>)"
    by (rule fit_image_b)
  show ?thesis
    unfolding 1 3
    by (simp add: colors_eval demo_pyx_def)
qed

text \<open>C4, as the code has it, at the refit of the previous example.\<close>

theorem refit_keeps_palette_cache_witness:
  "fit demo_library
         (demo_pyx\<lparr>model := Some [(207 / 200, - 7 / 200, - 7 / 200),
                                   (- 7 / 200, 207 / 200, - 7 / 200)],
                   is_fitted := True,
                   palette_cache := Some [[255, 0, 0], [0, 255, 0]]\<rparr>)
         image_b
     = Inr (demo_pyx\<lparr>model := Some [(- 7 / 200, - 7 / 200, 207 / 200),
                                      (207 / 200, 207 / 200, 207 / 200)],
                      is_fitted := True,
                      palette_cache := Some [[255, 0, 0], [0, 255, 0]]\<rparr>)
   \<and> colors demo_library
         (demo_pyx\<lparr>model := Some [(- 7 / 200, - 7 / 200, 207 / 200),
                                   (207 / 200, 207 / 200, 207 / 200)],
                   is_fitted := True,
                   palette_cache := Some [[255, 0, 0], [0, 255, 0]]\<rparr>)
     = Inr (demo_pyx\<lparr>model := Some [(- 7 / 200, - 7 / 200, 207 / 200),
                                      (207 / 200, 207 / 200, 207 / 200)],
                      is_fitted := True,
                      palette_cache := Some [[255, 0, 0], [0, 255, 0]]\<rparr>,
            [[255, 0, 0], [0, 255, 0]])"
proof -
  have refit: "fit demo_library
         (demo_pyx\<lparr>model := Some [(207 / 200, - 7 / 200, - 7 / 200),
                                   (- 7 / 200, 207 / 200, - 7 / 200)],
                   is_fitted := True,
                   palette_cache := Some [[255, 0, 0], [0, 255, 0]]\<rparr>)
         image_b
     = Inr (demo_pyx\<lparr>model := Some [(- 7 / 200, - 7 / 200, 207 / 200),
                                      (207 / 200, 207 / 200, 207 / 200)],
                      is_fitted := True,
                      palette_cache := Some [[255, 0, 0], [0, 255, 0]]\<rparr>)"
    by (rule fit_image_b)
  show ?thesis
    using refit_keeps_palette_cache [OF refit] refit by (simp add: demo_pyx_def)
qed

section \<open>Which errors the steps of transform can raise\<close>

lemma fold_err_Inl:
  "fold_err f xs s = Inl e \<Longrightarrow> \<exists>s' x. f s' x = Inl e"
  by (induction xs arbitrary: s) (auto split: sum.splits)

lemma pad_errors:
  "pad X t nh nw = Inl e \<Longrightarrow> e = ZeroDivisionError \<or> e = TypeError \<or> e = ValueError"
  by (auto simp: pad_def np_pad_edge_def Let_def split: if_splits option.splits)

lemma get_size_errors: "get_size L pyx h w = Inl e \<Longrightarrow> e = ZeroDivisionError"
  by (auto simp: get_size_def split: option.splits if_splits)

lemma dilate_errors: "dilate L a X = Inl e \<Longrightarrow> \<forall>c. e \<noteq> AssertionError c"
  by (auto simp: dilate_def Let_def split: sum.splits if_splits dest!: pad_errors)

lemma map_pixels3_errors: "map_pixels3 f X = Inl e \<Longrightarrow> e = ValueError"
  by (auto simp: map_pixels3_def split: if_splits)

lemma median_errors: "median L X = Inl e \<Longrightarrow> \<forall>c. e \<noteq> AssertionError c"
  by (auto simp: median_def split: sum.splits dest!: pad_errors map_pixels3_errors)

lemma pyxelate_errors: "pyxelate L pyx X = Inl e \<Longrightarrow> \<forall>c. e \<noteq> AssertionError c"
  by (auto simp: pyxelate_def Let_def split: sum.splits if_splits dest!: pad_errors)

lemma boost_contrast_errors: "boost_contrast L X = Inl e \<Longrightarrow> e = ValueError"
  by (auto simp: boost_contrast_def Let_def dest!: map_pixels3_errors)

lemma pyxelate_loop_errors:
  "pyxelate_loop L pyx d n X = Inl e \<Longrightarrow> \<forall>c. e \<noteq> AssertionError c"
  by (induction n arbitrary: X)
     (auto split: sum.splits if_splits dest!: median_errors pyxelate_errors)

lemma transform_prepare_errors:
  "transform_prepare L pyx X = Inl e \<Longrightarrow> \<forall>c. e \<noteq> AssertionError c"
  by (auto simp: transform_prepare_def transform_alpha_def transform_downsample_def Let_def
           split: sum.splits if_splits prod.splits
           dest!: get_size_errors dilate_errors boost_contrast_errors pyxelate_loop_errors)

lemma colors_errors:
  "colors L pyx = Inl e \<Longrightarrow> is_fitted pyx \<Longrightarrow> e = AttributeError"
  by (auto simp: colors_def image_to_int_def Let_def
           split: option.splits if_splits sum.splits palette.splits)

lemma take_colors_errors: "take_colors cs idx = Inl e \<Longrightarrow> e = IndexError"
  by (auto simp: take_colors_def split: if_splits)

lemma dither_none_errors:
  "dither_none L pyx m R = Inl e \<Longrightarrow> is_fitted pyx \<Longrightarrow> \<forall>c. e \<noteq> AssertionError c"
  by (auto simp: dither_none_def Let_def split: sum.splits prod.splits
           dest!: colors_errors take_colors_errors)

lemma naive_step_errors:
  "naive_step w padf cs p2 v1 v2 Xc i = Inl e \<Longrightarrow> e = ZeroDivisionError \<or> e = IndexError"
  by (auto simp: naive_step_def naive_assign_def Let_def split: if_splits)

lemma dither_naive_errors:
  "dither_naive L pyx m R w = Inl e \<Longrightarrow> is_fitted pyx \<Longrightarrow> \<forall>c. e \<noteq> AssertionError c"
  by (auto simp: dither_naive_def Let_def split: sum.splits prod.splits if_splits
           dest!: colors_errors take_colors_errors fold_err_Inl naive_step_errors)

lemma dither_bayer_errors:
  "dither_bayer L pyx m R h w = Inl e \<Longrightarrow> is_fitted pyx \<Longrightarrow> \<forall>c. e \<noteq> AssertionError c"
  by (auto simp: dither_bayer_def Let_def split: sum.splits prod.splits if_splits
           dest!: colors_errors take_colors_errors)

lemma floyd_pixel_errors: "floyd_pixel st yx = Inl e \<Longrightarrow> e = ValueError"
  by (auto simp: floyd_pixel_def Let_def split: prod.splits if_splits)

lemma set_argmax_errors: "set_argmax P res yx = Inl e \<Longrightarrow> e = ValueError"
  by (auto simp: set_argmax_def split: prod.splits if_splits)

lemma dither_floyd_errors:
  "dither_floyd L pyx m R h w = Inl e \<Longrightarrow> is_fitted pyx \<Longrightarrow> \<forall>c. e \<noteq> AssertionError c"
  by (auto simp: dither_floyd_def Let_def split: sum.splits prod.splits if_splits
           dest!: colors_errors take_colors_errors fold_err_Inl floyd_pixel_errors
                  set_argmax_errors)

lemma atkinson_pixel_errors:
  "atkinson_pixel L pal m st yx = Inl e \<Longrightarrow> e = ValueError \<or> e = IndexError"
  by (auto simp: atkinson_pixel_def Let_def split: prod.splits if_splits)

lemma dither_atkinson_errors:
  "dither_atkinson L pyx m X h w = Inl e \<Longrightarrow> is_fitted pyx \<Longrightarrow> \<forall>c. e \<noteq> AssertionError c"
  by (auto simp: dither_atkinson_def Let_def split: sum.splits prod.splits if_splits
           dest!: colors_errors take_colors_errors fold_err_Inl atkinson_pixel_errors)

lemma transform_dither_errors:
  "transform_dither L pyx X R h w = Inl e \<Longrightarrow> is_fitted pyx \<Longrightarrow> \<forall>c. e \<noteq> AssertionError c"
  by (auto simp: transform_dither_def split: option.splits dither.splits
           dest: dither_none_errors dither_naive_errors dither_bayer_errors dither_floyd_errors
                 dither_atkinson_errors)

lemma transform_finish_errors:
  "transform_finish pyx am h w X4 = Inl e \<Longrightarrow> e = ValueError"
  by (auto simp: transform_finish_def reshape_image_def attach_alpha_def np_repeat_def
           split: sum.splits option.splits if_splits prod.splits)

lemma transform_body_errors:
  "transform_body L pyx X = Inl e \<Longrightarrow> is_fitted pyx \<Longrightarrow> \<forall>c. e \<noteq> AssertionError c"
  by (auto simp: transform_body_def Let_def reshape_to_def
           split: sum.splits prod.splits if_splits
           dest: transform_prepare_errors transform_dither_errors transform_finish_errors)

section \<open>The pixel count check\<close>

text \<open>
  C3, as the code has it.  The pixel count is compared with the palette size by \<^verbatim>\<open>transform\<close>,
  on the image being transformed, right after the assertion that the object is fitted: when
  the count does not exceed the palette size the call raises the assertion error and returns
  nothing; when it does, the call goes on with the rest of the method, which cannot raise an
  assertion error any more.
\<close>

theorem transform_checks_pixel_count:
  assumes "is_fitted pyx"
  shows "if int (im_h X * im_w X) > palette_size (palette pyx)
         then transform L pyx X = transform_body L pyx X
              \<and> transform L pyx X \<noteq> Inl (AssertionError TooManyColors)
         else transform L pyx X = Inl (AssertionError TooManyColors)"
  using assms transform_body_errors [of L pyx X "AssertionError TooManyColors"]
  by (auto simp: transform_def)

text \<open>
  C3 as stated fails: \<^verbatim>\<open>fit\<close> makes no such check.  An image of 2 pixels is fitted with a
  palette of 2 colours without an error.
\<close>

theorem fit_small_image_counterexample:
  "fit demo_library demo_pyx image_c
     = Inr (demo_pyx\<lparr>model := Some [(207 / 200, - 7 / 200, - 7 / 200),
                                      (- 7 / 200, - 7 / 200, 207 / 200)],
                      is_fitted := True\<rparr>)
   \<and> \<not> int (im_h image_c * im_w image_c) > palette_size (palette demo_pyx)"
  by (simp add: fit_eval demo_pyx_def image_c_def)

text \<open>
  C3, as the code has it: the object of the previous example refuses that image, and goes on
  to the body of the method for an image of 3 pixels.
\<close>

theorem transform_checks_pixel_count_witness:
  "is_fitted (demo_pyx\<lparr>model := Some [(207 / 200, - 7 / 200, - 7 / 200),
                                      (- 7 / 200, - 7 / 200, 207 / 200)],
                      is_fitted := True\<rparr>)
   \<and> transform demo_library
         (demo_pyx\<lparr>model := Some [(207 / 200, - 7 / 200, - 7 / 200),
                                   (- 7 / 200, - 7 / 200, 207 / 200)],
                   is_fitted := True\<rparr>)
         image_c
       = Inl (AssertionError TooManyColors)
   \<and> transform demo_library
         (demo_pyx\<lparr>model := Some [(207 / 200, - 7 / 200, - 7 / 200),
                                   (- 7 / 200, - 7 / 200, 207 / 200)],
                   is_fitted := True\<rparr>)
         image_a
       = transform_body demo_library
           (demo_pyx\<lparr>model := Some [(207 / 200, - 7 / 200, - 7 / 200),
                                     (- 7 / 200, - 7 / 200, 207 / 200)],
                     is_fitted := True\<rparr>)
           image_a"
  using transform_checks_pixel_count
          [of "demo_pyx\<lparr>model := Some [(207 / 200, - 7 / 200, - 7 / 200),
                                       (- 7 / 200, - 7 / 200, 207 / 200)],
                       is_fitted := True\<rparr>" image_c demo_library]
        transform_checks_pixel_count
          [of "demo_pyx\<lparr>model := Some [(207 / 200, - 7 / 200, - 7 / 200),
                                       (- 7 / 200, - 7 / 200, 207 / 200)],
                       is_fitted := True\<rparr>" image_a demo_library]
  by (simp add: demo_pyx_def image_c_def image_a_def palette_size_def)

section \<open>Lists of rows, argmax and argmin\<close>

lemma nth_concat_uniform:
  assumes "\<And>y. y \<in> set ys \<Longrightarrow> length y = n" "i < length ys" "j < n"
  shows "concat ys ! (i * n + j) = ys ! i ! j"
  using assms
proof (induction ys arbitrary: i)
  case Nil
  then show ?case by simp
next
  case (Cons y ys)
  have len: "length y = n" using Cons.prems(1) by simp
  show ?case
  proof (cases i)
    case 0
    then show ?thesis using len Cons.prems(3) by (simp add: nth_append)
  next
    case (Suc k)
    have "concat (y # ys) ! (i * n + j) = concat ys ! (k * n + j)"
      using len Suc by (simp add: nth_append)
    also have "\<dots> = ys ! k ! j"
      using Cons.IH [of k] Cons.prems Suc by simp
    finally show ?thesis using Suc by simp
  qed
qed

lemma take_drop_concat_uniform:
  assumes "\<And>y. y \<in> set ys \<Longrightarrow> length y = n" "i < length ys"
  shows "take n (drop (i * n) (concat ys)) = ys ! i"
proof -
  have "map (\<lambda>i. take n (drop (i * n) (concat ys))) [0..<length ys] ! i = ys ! i"
    using chunks_concat [of ys n] assms(1) by simp
  then show ?thesis using assms(2) by simp
qed

lemma nth_concat_replicate:
  assumes "k < length xs * n"
  shows "concat (map (replicate n) xs) ! k = xs ! (k div n)"
proof -
  have n: "0 < n" using assms by (cases n) simp_all
  have "k div n < length xs"
    using assms n by (simp add: less_mult_imp_div_less)
  moreover have "k mod n < n" using n by simp
  ultimately have "concat (map (replicate n) xs) ! (k div n * n + k mod n)
                   = map (replicate n) xs ! (k div n) ! (k mod n)"
    by (intro nth_concat_uniform) auto
  then show ?thesis
    using \<open>k div n < length xs\<close> \<open>k mod n < n\<close> by simp
qed

lemma concat_tabulate2_nth:
  assumes "y < h" "x < w"
  shows "concat (tabulate2 h w f) ! (y * w + x) = f y x"
proof -
  have "concat (tabulate2 h w f) ! (y * w + x) = tabulate2 h w f ! y ! x"
    using assms by (intro nth_concat_uniform) (auto simp: tabulate2_def)
  then show ?thesis using assms by simp
qed

lemma length_concat_tabulate2 [simp]: "length (concat (tabulate2 h w f)) = h * w"
proof -
  have "length (concat (tabulate2 h w f)) = length (tabulate2 h w f) * w"
    by (rule length_concat_uniform) (auto simp: tabulate2_def)
  then show ?thesis by simp
qed

lemma takeWhile_first:
  assumes "\<exists>x\<in>set xs. \<not> P x"
  shows "length (takeWhile P xs) < length xs"
    and "\<not> P (xs ! length (takeWhile P xs))"
    and "j < length (takeWhile P xs) \<Longrightarrow> P (xs ! j)"
proof -
  show "length (takeWhile P xs) < length xs"
    using assms by (induction xs) auto
  show "\<not> P (xs ! length (takeWhile P xs))"
    using assms by (induction xs) auto
  show "P (xs ! j)" if "j < length (takeWhile P xs)"
    using that set_takeWhileD [of "xs ! j" P xs] takeWhile_nth [OF that]
    by (metis nth_mem)
qed

lemma argmin_props:
  assumes "xs \<noteq> []"
  shows "argmin xs < length xs"
    and "xs ! argmin xs = Min (set xs)"
    and "j < length xs \<Longrightarrow> xs ! argmin xs \<le> xs ! j"
    and "j < argmin xs \<Longrightarrow> xs ! j \<noteq> xs ! argmin xs"
proof -
  have "Min (set xs) \<in> set xs" using assms by simp
  then have ex: "\<exists>x\<in>set xs. \<not> x \<noteq> Min (set xs)" by blast
  show "argmin xs < length xs"
    unfolding argmin_def by (rule takeWhile_first(1) [OF ex])
  show eq: "xs ! argmin xs = Min (set xs)"
    unfolding argmin_def using takeWhile_first(2) [OF ex] by simp
  show "xs ! argmin xs \<le> xs ! j" if "j < length xs"
    using that eq by simp
  show "xs ! j \<noteq> xs ! argmin xs" if "j < argmin xs"
    using that takeWhile_first(3) [OF ex, of j] unfolding eq by (simp add: argmin_def)
qed

lemma argmax_props:
  assumes "xs \<noteq> []"
  shows "argmax xs < length xs"
    and "xs ! argmax xs = Max (set xs)"
    and "j < length xs \<Longrightarrow> xs ! j \<le> xs ! argmax xs"
    and "j < argmax xs \<Longrightarrow> xs ! j \<noteq> xs ! argmax xs"
proof -
  have "Max (set xs) \<in> set xs" using assms by simp
  then have ex: "\<exists>x\<in>set xs. \<not> x \<noteq> Max (set xs)" by blast
  show "argmax xs < length xs"
    unfolding argmax_def by (rule takeWhile_first(1) [OF ex])
  show eq: "xs ! argmax xs = Max (set xs)"
    unfolding argmax_def using takeWhile_first(2) [OF ex] by simp
  show "xs ! j \<le> xs ! argmax xs" if "j < length xs"
    using that eq by simp
  show "xs ! j \<noteq> xs ! argmax xs" if "j < argmax xs"
    using that takeWhile_first(3) [OF ex, of j] unfolding eq by (simp add: argmax_def)
qed

section \<open>Shapes through the filters\<close>

lemma map_pixels3_shape:
  assumes "map_pixels3 f X = Inr Y"
  shows "im_h Y = im_h X" "im_w Y = im_w X" "im_d Y = 3" "im_d X = 3"
    and "wf_image X \<Longrightarrow> wf_image Y"
proof -
  have d: "im_d X = 3" and Y: "Y = X\<lparr>im_px := map (map (\<lambda>p. case f (p ! 0, p ! 1, p ! 2) of
                                              (a, b, c) \<Rightarrow> [a, b, c])) (im_px X)\<rparr>"
    using assms by (auto simp: map_pixels3_def split: if_splits)
  show "im_h Y = im_h X" "im_w Y = im_w X" "im_d Y = 3" "im_d X = 3"
    using d by (simp_all add: Y)
  show "wf_image Y" if "wf_image X"
    using that d by (auto simp: Y wf_image_def list_all_iff split: prod.splits)
qed

lemma median_shape:
  assumes "median L X = Inr Y" "wf_image X"
  shows "im_h Y = im_h X" "im_w Y = im_w X" "im_d Y = 3" "wf_image Y"
proof -
  obtain X1 X2 X3 where s: "pad X 3 None None = Inr X1" "map_pixels3 (rgb2hsv L) X1 = Inr X2"
      "map_pixels3 (hsv2rgb L) (each_channel (skimage_median L) (im_h X2) (im_w X2) X2) = Inr X3"
      "pad X3 3 (Some (im_h X)) (Some (im_w X)) = Inr Y"
    using assms(1) by (auto simp: median_def split: sum.splits)
  have sh3: "im_h X3 = im_h X1" "im_w X3 = im_w X1" "im_d X3 = 3"
    using map_pixels3_shape(1-3) [OF s(3)] map_pixels3_shape(1,2) [OF s(2)] by simp_all
  have wf3: "wf_image X3"
    by (rule map_pixels3_shape(5) [OF s(3) wf_each_channel])
  show "im_h Y = im_h X" "im_w Y = im_w X" "im_d Y = 3"
    using pad_unpad_shape [OF s(1) sh3(1,2) s(4)] sh3(3) by simp_all
  show "wf_image Y"
    by (rule wf_unpad [OF wf3 s(4)])
qed

lemma pyxelate_shape:
  assumes "pyxelate L pyx X = Inr Y"
    and "int (im_h X) mod sobel pyx = 0" "int (im_w X) mod sobel pyx = 0"
  shows "0 < sobel pyx" "im_h Y = im_h X div nat (sobel pyx)"
    "im_w Y = im_w X div nat (sobel pyx)" "im_d Y = im_d X" "wf_image Y"
proof -
  obtain P where P: "pad X (sobel pyx) None None = Inr P"
    and pos: "0 < sobel pyx"
    and Y: "Y = each_channel (pyxelate_channel L (nat (sobel pyx)) (im_h P) (im_w P))
                  (im_h P div nat (sobel pyx)) (im_w P div nat (sobel pyx)) P"
    using assms(1) by (auto simp: pyxelate_def Let_def split: sum.splits if_splits)
  have "im_h P = im_h X" "im_w P = im_w X" "im_d P = im_d X"
    using pad_extent [OF P] assms(2,3) by simp_all
  then show "im_h Y = im_h X div nat (sobel pyx)" "im_w Y = im_w X div nat (sobel pyx)"
    "im_d Y = im_d X"
    by (simp_all add: Y)
  show "0 < sobel pyx" by (rule pos)
  show "wf_image Y" unfolding Y by (rule wf_each_channel)
qed

lemma pyxelate_loop_shape:
  assumes "pyxelate_loop L pyx d n X = Inr Y" "wf_image X"
    and "int (im_h X) = a * sobel pyx ^ n" "int (im_w X) = b * sobel pyx ^ n"
  shows "int (im_h Y) = a \<and> int (im_w Y) = b \<and> im_d Y = im_d X \<and> wf_image Y"
  using assms
proof (induction n arbitrary: X)
  case 0
  then show ?case by simp
next
  case (Suc n)
  obtain X1 X2 where s: "(if boost pyx \<and> d = 3 then median L X else Inr X) = Inr X1"
      "pyxelate L pyx X1 = Inr X2" "pyxelate_loop L pyx d n X2 = Inr Y"
    using Suc.prems(1) by (auto split: sum.splits)
  have X1: "im_h X1 = im_h X" "im_w X1 = im_w X" "wf_image X1" "im_d X1 = im_d X"
  proof -
    show "im_h X1 = im_h X" "im_w X1 = im_w X" "wf_image X1"
      using s(1) median_shape [of L X X1] Suc.prems(2) by (auto split: if_splits)
    show "im_d X1 = im_d X"
    proof (cases "boost pyx \<and> d = 3")
      case True
      then have m: "median L X = Inr X1" using s(1) by simp
      then obtain P where "pad X 3 None None = Inr P" "map_pixels3 (rgb2hsv L) P \<noteq> Inl ValueError"
        by (auto simp: median_def split: sum.splits dest: map_pixels3_errors)
      then have "im_d X = 3"
        using pad_extent(3) [of X 3 P] by (auto simp: map_pixels3_def split: if_splits)
      then show ?thesis using median_shape(3) [OF m Suc.prems(2)] by simp
    next
      case False
      then show ?thesis using s(1) by auto
    qed
  qed
  have dv: "int (im_h X1) mod sobel pyx = 0" "int (im_w X1) mod sobel pyx = 0"
    using Suc.prems(3,4) by (simp_all add: X1)
  note p = pyxelate_shape [OF s(2) dv]
  have "int (im_h X2) = int (im_h X1) div sobel pyx" "int (im_w X2) = int (im_w X1) div sobel pyx"
    using p(1,2,3) by (simp_all add: zdiv_int)
  then have "int (im_h X2) = a * sobel pyx ^ n" "int (im_w X2) = b * sobel pyx ^ n"
    using p(1) Suc.prems(3,4) by (simp_all add: X1)
  from Suc.IH [OF s(3) p(5) this] show ?case
    using p(4) X1(4) by simp
qed

lemma boost_contrast_shape:
  assumes "boost_contrast L X = Inr Y"
  shows "im_h Y = im_h X" "im_w Y = im_w X" "im_d Y = im_d X" "wf_image Y"
proof -
  define E where "E = X\<lparr>im_px := tabulate2 (im_h X) (im_w X)
                  (\<lambda>i j. map (\<lambda>c. equalize_adapthist L X (i, j, c)) [0..<im_d X])\<rparr>"
  have m: "map_pixels3 (\<lambda>p. case scale_sv HIST_BRIGHTNESS (rgb2hsv L p) of
                   (h, s, v) \<Rightarrow> hsv2rgb L (clip h 0 1, clip s 0 1, clip v 0 1)) E = Inr Y"
    using assms by (simp add: boost_contrast_def E_def Let_def)
  have "wf_image E"
    by (rule wf_imageI) (simp_all add: E_def)
  then show "wf_image Y" by (rule map_pixels3_shape(5) [OF m])
  show "im_h Y = im_h X" "im_w Y = im_w X" "im_d Y = im_d X"
    using map_pixels3_shape(1-4) [OF m] by (simp_all add: E_def)
qed

section \<open>The shape of the downsampled image\<close>

lemma dilate_depth:
  assumes "dilate L a X = Inr D"
  shows "im_d D = im_d X"
proof -
  obtain P where P: "pad X 3 None None = Inr P"
    using pad_eq [of 3 X] by simp
  define Q where "Q = P\<lparr>im_px := tabulate2 (im_h P) (im_w P)
      (\<lambda>i j. if sample_value L (channel 3 P ! i ! j) < a
             then im_px (each_channel (skimage_dilation L) (im_h P) (im_w P) (rgb P)) ! i ! j
                  @ drop 3 (im_px P ! i ! j)
             else im_px P ! i ! j)\<rparr>"
  have "pad Q 3 (Some (im_h X)) (Some (im_w X)) = Inr D"
    using assms by (simp add: dilate_def P Let_def Q_def split: if_splits)
  then have "im_d D = im_d Q"
    using unpad_eq [of 3 Q "im_h X" "im_w X"] by auto
  then show ?thesis
    using pad_extent(3) [OF P] by (simp add: Q_def)
qed

lemma transform_alpha_shape:
  assumes "transform_alpha L pyx X (new_h, new_w) = Inr (Xa, am)"
  shows "im_d Xa = im_d X"
    and "if 3 < im_d X then \<exists>ms. am = Some (nat new_h, nat new_w, ms) else am = None"
  using assms dilate_depth [of L "alpha pyx" X Xa]
  by (auto simp: transform_alpha_def split: if_splits sum.splits)

lemma transform_downsample_shape:
  assumes "transform_downsample L pyx d Xa (new_h, new_w) = Inr X2"
  shows "int (im_h X2) = new_h" "int (im_w X2) = new_w" "im_d X2 = min 3 (im_d Xa)"
    "wf_image X2"
proof -
  define size_h where "size_h = new_h * sobel pyx ^ depth pyx"
  define size_w where "size_w = new_w * sobel pyx ^ depth pyx"
  have sz: "transform_size pyx (new_h, new_w) = (size_h, size_w)"
    by (simp add: transform_size_def size_h_def size_w_def)
  define R where "R = resize_image L True (rgb Xa) (nat size_h) (nat size_w)"
  from assms obtain X1 where
    nonneg: "0 \<le> size_h" "0 \<le> size_w"
    and X1: "(if boost pyx then boost_contrast L R else Inr R) = Inr X1"
    and loop: "pyxelate_loop L pyx d (depth pyx) X1 = Inr X2"
    by (auto simp: transform_downsample_def sz R_def split: if_splits sum.splits)
  have shX1: "im_h X1 = nat size_h" "im_w X1 = nat size_w" "im_d X1 = min 3 (im_d Xa)"
    "wf_image X1"
    using X1 boost_contrast_shape [of L R X1]
    by (auto simp: R_def wf_resize_image split: if_splits)
  have "int (im_h X1) = new_h * sobel pyx ^ depth pyx"
    "int (im_w X1) = new_w * sobel pyx ^ depth pyx"
    using shX1(1,2) nonneg by (simp_all add: size_h_def size_w_def)
  from pyxelate_loop_shape [OF loop shX1(4) this]
  show "int (im_h X2) = new_h" "int (im_w X2) = new_w" "im_d X2 = min 3 (im_d Xa)"
    "wf_image X2"
    using shX1(3) by simp_all
qed

lemma transform_prepare_shape:
  assumes "transform_prepare L pyx X = Inr (X2, am)"
  shows "\<exists>new_h new_w.
           get_size L pyx (im_h X) (im_w X) = Inr (new_h, new_w)
         \<and> int (im_h X2) = new_h \<and> int (im_w X2) = new_w
         \<and> im_d X2 = min 3 (im_d X) \<and> wf_image X2
         \<and> (if 3 < im_d X then \<exists>ms. am = Some (im_h X2, im_w X2, ms) else am = None)"
proof -
  from assms obtain new_h new_w Xa where
    gs: "get_size L pyx (im_h X) (im_w X) = Inr (new_h, new_w)"
    and al: "transform_alpha L pyx X (new_h, new_w) = Inr (Xa, am)"
    and ds: "transform_downsample L pyx (im_d X) Xa (new_h, new_w) = Inr X2"
    by (auto simp: transform_prepare_def split: sum.splits prod.splits)
  note a = transform_alpha_shape [OF al]
  note d = transform_downsample_shape [OF ds]
  have "nat new_h = im_h X2" "nat new_w = im_w X2"
    using d(1,2) by simp_all
  then show ?thesis
    using gs a d by (intro exI [of _ new_h] exI [of _ new_w]) auto
qed

section \<open>Reshaping, the alpha channel, upscaling and conversion\<close>

lemma reshape_image_props:
  assumes "reshape_image h w d xs = Inr X"
  shows "im_h X = h" "im_w X = w" "im_d X = d" "wf_image X"
    and "i < h \<Longrightarrow> j < w \<Longrightarrow> im_px X ! i ! j = take d (drop ((i * w + j) * d) xs)"
proof -
  have len: "length xs = h * w * d"
    and X: "X = \<lparr>im_h = h, im_w = w, im_d = d,
                 im_px = tabulate2 h w (\<lambda>i j. take d (drop ((i * w + j) * d) xs))\<rparr>"
    using assms by (auto simp: reshape_image_def split: if_splits)
  show "im_h X = h" "im_w X = w" "im_d X = d" by (simp_all add: X)
  show "im_px X ! i ! j = take d (drop ((i * w + j) * d) xs)" if "i < h" "j < w"
    using that by (simp add: X)
  have "(i * w + j) * d + d \<le> h * w * d" if "i < h" "j < w" for i j
  proof -
    have "i * w + j + 1 \<le> h * w"
    proof -
      have "i * w + j + 1 \<le> i * w + w" using that(2) by simp
      also have "\<dots> = Suc i * w" by simp
      also have "\<dots> \<le> h * w" using that(1) by (intro mult_le_mono1) simp
      finally show ?thesis .
    qed
    then have "(i * w + j + 1) * d \<le> h * w * d" by (rule mult_le_mono1)
    then show ?thesis by (simp add: algebra_simps)
  qed
  then have "length (take d (drop ((i * w + j) * d) xs)) = d" if "i < h" "j < w" for i j
  proof -
    have "(i * w + j) * d + d \<le> length xs"
      using \<open>\<And>i j. i < h \<Longrightarrow> j < w \<Longrightarrow> (i * w + j) * d + d \<le> h * w * d\<close> [OF that] len
      by simp
    then show ?thesis by simp
  qed
  then show "wf_image X"
    unfolding X by (intro wf_image_tabulate)
qed

lemma attach_alpha_props:
  assumes "attach_alpha a am X = Inr Y" "wf_image X" "im_d X = 3"
  shows "im_h Y = im_h X" "im_w Y = im_w X" "im_d Y = 4" "wf_image Y"
    and "i < im_h X \<Longrightarrow> j < im_w X \<Longrightarrow> take 3 (im_px Y ! i ! j) = im_px X ! i ! j"
proof -
  obtain mh mw ms where am: "am = (mh, mw, ms)" by (cases am)
  have Y: "Y = \<lparr>im_h = im_h X, im_w = im_w X, im_d = min 3 (im_d X) + 1,
                im_px = tabulate2 (im_h X) (im_w X)
                  (\<lambda>i j. take 3 (im_px X ! i ! j) @ [resolve_alpha a (ms ! i ! j)])\<rparr>"
    using assms(1) by (auto simp: attach_alpha_def am split: if_splits)
  show "im_h Y = im_h X" "im_w Y = im_w X" "im_d Y = 4"
    using assms(3) by (simp_all add: Y)
  show "take 3 (im_px Y ! i ! j) = im_px X ! i ! j" if "i < im_h X" "j < im_w X"
    using that wf_imageD(3) [OF assms(2) that] assms(3) by (simp add: Y)
  show "wf_image Y"
    unfolding Y using wf_imageD(3) [OF assms(2)] assms(3)
    by (intro wf_image_tabulate) simp
qed

lemma np_repeat_props:
  assumes "np_repeat (u0, u1) X = Inr Y" "wf_image X"
  shows "0 \<le> u0" "0 \<le> u1" "im_h Y = im_h X * nat u0" "im_w Y = im_w X * nat u1"
    "im_d Y = im_d X" "wf_image Y"
    and "r < im_h Y \<Longrightarrow> c < im_w Y \<Longrightarrow>
           im_px Y ! r ! c = im_px X ! (r div nat u0) ! (c div nat u1)"
proof -
  have nn: "0 \<le> u0" "0 \<le> u1"
    and Y: "Y = X\<lparr>im_h := im_h X * nat u0, im_w := im_w X * nat u1,
                  im_px := concat (map (replicate (nat u0))
                             (map (\<lambda>row. concat (map (replicate (nat u1)) row)) (im_px X)))\<rparr>"
    using assms(1) by (auto simp: np_repeat_def split: if_splits)
  show "0 \<le> u0" "0 \<le> u1" by (rule nn)+
  show sh: "im_h Y = im_h X * nat u0" "im_w Y = im_w X * nat u1" "im_d Y = im_d X"
    by (simp_all add: Y)
  define rows where "rows = map (\<lambda>row. concat (map (replicate (nat u1)) row)) (im_px X)"
  have lrows: "length rows = im_h X"
    using wf_imageD(1) [OF assms(2)] by (simp add: rows_def)
  have px: "im_px Y = concat (map (replicate (nat u0)) rows)"
    by (simp add: Y rows_def)
  have row: "im_px Y ! r = concat (map (replicate (nat u1)) (im_px X ! (r div nat u0)))"
    and rlt: "r div nat u0 < im_h X" if "r < im_h Y" for r
  proof -
    have "r < length rows * nat u0" using that by (simp add: sh lrows)
    then have "im_px Y ! r = rows ! (r div nat u0)"
      unfolding px by (rule nth_concat_replicate)
    moreover show "r div nat u0 < im_h X"
      using that by (cases "nat u0 = 0") (simp_all add: sh less_mult_imp_div_less)
    ultimately show "im_px Y ! r = concat (map (replicate (nat u1)) (im_px X ! (r div nat u0)))"
      using lrows by (simp add: rows_def)
  qed
  show pix: "im_px Y ! r ! c = im_px X ! (r div nat u0) ! (c div nat u1)"
    if "r < im_h Y" "c < im_w Y" for r c
  proof -
    have "c < length (im_px X ! (r div nat u0)) * nat u1"
      using that(2) wf_imageD(2) [OF assms(2) rlt [OF that(1)]] by (simp add: sh)
    then show ?thesis
      unfolding row [OF that(1)] by (rule nth_concat_replicate)
  qed
  have clt: "c div nat u1 < im_w X" if "c < im_w Y" for c
    using that by (cases "nat u1 = 0") (simp_all add: sh less_mult_imp_div_less)
  show "wf_image Y"
  proof (rule wf_imageI)
    show "length (im_px Y) = im_h Y"
    proof -
      have "length (concat (map (replicate (nat u0)) rows)) = length (map (replicate (nat u0)) rows) * nat u0"
        by (rule length_concat_uniform) auto
      then show ?thesis by (simp add: px sh lrows)
    qed
    show "length (im_px Y ! i) = im_w Y" if "i < im_h Y" for i
    proof -
      have "length (concat (map (replicate (nat u1)) (im_px X ! (i div nat u0))))
            = length (map (replicate (nat u1)) (im_px X ! (i div nat u0))) * nat u1"
        by (rule length_concat_uniform) auto
      then show ?thesis
        using wf_imageD(2) [OF assms(2) rlt [OF that]] by (simp add: row [OF that] sh)
    qed
    show "length (im_px Y ! i ! j) = im_d Y" if "i < im_h Y" "j < im_w Y" for i j
      using wf_imageD(3) [OF assms(2) rlt [OF that(1)] clt [OF that(2)]]
      by (simp add: pix [OF that] sh)
  qed
qed

lemma astype_uint8_props:
  "im_h (astype_uint8 X) = im_h X" "im_w (astype_uint8 X) = im_w X"
  "im_d (astype_uint8 X) = im_d X"
  "wf_image X \<Longrightarrow> wf_image (astype_uint8 X)"
  "wf_image X \<Longrightarrow> r < im_h X \<Longrightarrow> c < im_w X \<Longrightarrow>
     im_px (astype_uint8 X) ! r ! c = map (\<lambda>x. x mod 256) (im_px X ! r ! c)"
proof -
  show "im_h (astype_uint8 X) = im_h X" "im_w (astype_uint8 X) = im_w X"
    "im_d (astype_uint8 X) = im_d X"
    by (simp_all add: astype_uint8_def)
  show "wf_image (astype_uint8 X)" if "wf_image X"
    using that by (auto simp: astype_uint8_def wf_image_def list_all_iff)
  show "im_px (astype_uint8 X) ! r ! c = map (\<lambda>x. x mod 256) (im_px X ! r ! c)"
    if "wf_image X" "r < im_h X" "c < im_w X"
    using that wf_imageD(1,2) [OF that(1)] by (simp add: astype_uint8_def)
qed

lemma astype_uint8_range:
  assumes "row \<in> set (im_px (astype_uint8 X))" "p \<in> set row" "x \<in> set p"
  shows "0 \<le> x \<and> x \<le> 255"
proof -
  from assms obtain y where "x = y mod 256"
    by (auto simp: astype_uint8_def)
  then show ?thesis
    using pos_mod_bound [of 256 y] by simp
qed

section \<open>The last steps of transform\<close>

lemma transform_finish_props:
  assumes "transform_finish pyx am H W X4 = Inr out"
  shows "0 \<le> fst (upscale pyx)" "0 \<le> snd (upscale pyx)"
    "im_h out = H * nat (fst (upscale pyx))" "im_w out = W * nat (snd (upscale pyx))"
    "im_d out = (case am of None \<Rightarrow> 3 | Some a \<Rightarrow> 4)" "wf_image out"
    "length (concat X4) = H * W * 3"
    and "r < im_h out \<Longrightarrow> c < im_w out \<Longrightarrow>
           take 3 (im_px out ! r ! c)
           = map (\<lambda>x. x mod 256)
               (take 3 (drop ((r div nat (fst (upscale pyx)) * W
                               + c div nat (snd (upscale pyx))) * 3) (concat X4)))"
proof -
  obtain u0 u1 where u: "upscale pyx = (u0, u1)" by (cases "upscale pyx")
  from assms obtain X5 X6 X7 where
    X5: "reshape_image H W 3 (concat X4) = Inr X5"
    and X6: "(case am of None \<Rightarrow> Inr X5 | Some a \<Rightarrow> attach_alpha (alpha pyx) a X5) = Inr X6"
    and X7: "np_repeat (u0, u1) X6 = Inr X7"
    and out: "out = astype_uint8 X7"
    by (auto simp: transform_finish_def u split: sum.splits)
  note r5 = reshape_image_props [OF X5]
  show "length (concat X4) = H * W * 3"
    using X5 by (auto simp: reshape_image_def split: if_splits)
  have r6: "im_h X6 = H \<and> im_w X6 = W
            \<and> im_d X6 = (case am of None \<Rightarrow> 3 | Some a \<Rightarrow> 4) \<and> wf_image X6"
  proof (cases am)
    case None
    then have "X6 = X5" using X6 by simp
    then show ?thesis
      using r5(1-4) None by simp
  next
    case (Some a)
    then have at: "attach_alpha (alpha pyx) a X5 = Inr X6" using X6 by simp
    show ?thesis
      using attach_alpha_props(1-4) [OF at r5(4) r5(3)] r5(1,2) Some by simp
  qed
  have p6: "take 3 (im_px X6 ! i ! j) = im_px X5 ! i ! j" if "i < H" "j < W" for i j
  proof (cases am)
    case None
    then have "X6 = X5" using X6 by simp
    then show ?thesis
      using wf_imageD(3) [OF r5(4), of i j] that r5(1-3) by simp
  next
    case (Some a)
    then have at: "attach_alpha (alpha pyx) a X5 = Inr X6" using X6 by simp
    show ?thesis
      using attach_alpha_props(5) [OF at r5(4) r5(3), of i j] that r5(1,2) by simp
  qed
  have wf6: "wf_image X6" using r6 by simp
  note r7 = np_repeat_props [OF X7 wf6]
  show "0 \<le> fst (upscale pyx)" "0 \<le> snd (upscale pyx)"
    using r7(1,2) by (simp_all add: u)
  show "im_h out = H * nat (fst (upscale pyx))" "im_w out = W * nat (snd (upscale pyx))"
    "im_d out = (case am of None \<Rightarrow> 3 | Some a \<Rightarrow> 4)"
    using r7(3-5) r6 by (simp_all add: out u astype_uint8_props)
  show "wf_image out"
    unfolding out by (rule astype_uint8_props(4) [OF r7(6)])
  show "take 3 (im_px out ! r ! c)
        = map (\<lambda>x. x mod 256)
            (take 3 (drop ((r div nat (fst (upscale pyx)) * W
                            + c div nat (snd (upscale pyx))) * 3) (concat X4)))"
    if "r < im_h out" "c < im_w out"
  proof -
    have lt: "r < im_h X7" "c < im_w X7"
      using that by (simp_all add: out astype_uint8_props)
    have y: "r div nat u0 < H"
      using lt(1) r7(3) r6 by (cases "nat u0 = 0") (simp_all add: less_mult_imp_div_less)
    have x: "c div nat u1 < W"
      using lt(2) r7(4) r6 by (cases "nat u1 = 0") (simp_all add: less_mult_imp_div_less)
    have "im_px out ! r ! c = map (\<lambda>x. x mod 256) (im_px X6 ! (r div nat u0) ! (c div nat u1))"
      using astype_uint8_props(5) [OF r7(6) lt] r7(7) [OF lt] by (simp add: out)
    then have "take 3 (im_px out ! r ! c)
               = map (\<lambda>x. x mod 256) (take 3 (im_px X6 ! (r div nat u0) ! (c div nat u1)))"
      by (simp add: take_map)
    also have "take 3 (im_px X6 ! (r div nat u0) ! (c div nat u1))
               = im_px X5 ! (r div nat u0) ! (c div nat u1)"
      by (rule p6 [OF y x])
    also have "\<dots> = take 3 (drop ((r div nat u0 * W + c div nat u1) * 3) (concat X4))"
      by (rule r5(5) [OF y x])
    finally show ?thesis by (simp add: u)
  qed
qed

lemma transform_InrD:
  assumes "transform L pyx X = Inr (pyx', out)"
  shows "\<exists>X2 am reshaped X4.
           is_fitted pyx
         \<and> int (im_h X * im_w X) > palette_size (palette pyx)
         \<and> transform_prepare L pyx X = Inr (X2, am)
         \<and> reshape_to (im_h X2 * im_w X2) 3 (flat (scale_image pyx X2)) = Inr reshaped
         \<and> transform_dither L pyx (scale_image pyx X2) reshaped (im_h X2) (im_w X2)
             = Inr (pyx', X4)
         \<and> transform_finish pyx am (im_h X2) (im_w X2) X4 = Inr out"
  using assms
  by (auto simp: transform_def transform_body_def Let_def
           split: if_splits sum.splits prod.splits)

lemma scale_image_shape [simp]:
  "im_h (scale_image pyx X) = im_h X" "im_w (scale_image pyx X) = im_w X"
  "im_d (scale_image pyx X) = im_d X"
  by (simp_all add: scale_image_def)

lemma wf_scale_image: "wf_image X \<Longrightarrow> wf_image (scale_image pyx X)"
  by (auto simp: scale_image_def wf_image_def list_all_iff)

section \<open>The shape of the result\<close>

lemmas eval_prepare = transform_prepare_def get_size_def transform_alpha_def
  transform_downsample_def transform_size_def resize_image_def rgb_def tabulate2_def
  boost_contrast_def map_pixels3_def scale_sv_def clip_def HIST_BRIGHTNESS_def
  median_def pad_def np_pad_edge_def edge_pad_def py_slice_def py_slice_len_def
  each_channel_def channel_def pyxelate_def is_rgb_like_def pyxelate_channel_def block_sum_def
  demo_library_fields Let_def upt_conv_Cons

lemma prepare_image_a:
  "transform_prepare demo_library
     (demo_pyx\<lparr>model := mo, is_fitted := b, palette_cache := pc, dither := dm\<rparr>) image_a
   = Inr (\<lparr>im_h = 1, im_w = 3, im_d = 3, im_px = [[[1, 0, 0], [0, 1, 0], [0, 0, 1]]]\<rparr>, None)"
  by (simp add: eval_prepare demo_pyx_def image_a_def)

lemmas eval_body = transform_def transform_body_def scale_image_def flat_def reshape_to_def
  transform_dither_def transform_finish_def reshape_image_def np_repeat_def astype_uint8_def
  find_palette_def palette_size_def SCALE_RGB_def tabulate2_def Let_def upt_conv_Cons
  take_colors_def colors_def derive_colors_def scale_sv_def quantise_def clip_def
  COLOR_QUANT_def demo_library_fields dist2_def argmin_def argmax_def

lemma transform_none_image_a:
  "transform demo_library
     (demo_pyx\<lparr>model := Some [(207 / 200, - 7 / 200, - 7 / 200),
                               (- 7 / 200, 207 / 200, - 7 / 200)],
               is_fitted := True\<rparr>) image_a
   = Inr (demo_pyx\<lparr>model := Some [(207 / 200, - 7 / 200, - 7 / 200),
                                    (- 7 / 200, 207 / 200, - 7 / 200)],
                    is_fitted := True,
                    palette_cache := Some [[255, 0, 0], [0, 255, 0]]\<rparr>,
          \<lparr>im_h = 1, im_w = 3, im_d = 3,
           im_px = [[[255, 0, 0], [0, 255, 0], [255, 0, 0]]]\<rparr>)"
  using prepare_image_a [where mo = "Some [(207 / 200, - 7 / 200, - 7 / 200),
                               (- 7 / 200, 207 / 200, - 7 / 200)]" and b = True and pc = None
                           and dm = Dither_none]
  by (simp add: eval_body dither_none_def demo_pyx_def image_a_def power2_eq_square)

lemma get_size_cases:
  "height pyx = Some h' \<Longrightarrow> width pyx = Some w' \<Longrightarrow> get_size L pyx h w = Inr (h', w')"
  "height pyx = None \<Longrightarrow> width pyx = None \<Longrightarrow> factor pyx = Some f \<Longrightarrow> f \<noteq> 0 \<Longrightarrow>
     get_size L pyx h w = Inr (int h div f, int w div f)"
  "height pyx = None \<Longrightarrow> width pyx = None \<Longrightarrow> factor pyx = None \<Longrightarrow>
     get_size L pyx h w = Inr (int h, int w)"
  by (simp_all add: get_size_def)

lemma transform_shape:
  assumes "transform L pyx X = Inr (pyx', out)"
  shows "\<exists>new_h new_w.
           get_size L pyx (im_h X) (im_w X) = Inr (new_h, new_w)
         \<and> int (im_h out) = new_h * fst (upscale pyx)
         \<and> int (im_w out) = new_w * snd (upscale pyx)
         \<and> im_d out = (if 3 < im_d X then 4 else 3)
         \<and> wf_image out
         \<and> list_all (list_all (list_all (\<lambda>x. 0 \<le> x \<and> x \<le> 255))) (im_px out)"
proof -
  from transform_InrD [OF assms] obtain X2 am X4 where
    prep: "transform_prepare L pyx X = Inr (X2, am)"
    and fin: "transform_finish pyx am (im_h X2) (im_w X2) X4 = Inr out"
    by blast
  from transform_prepare_shape [OF prep] obtain new_h new_w where
    gs: "get_size L pyx (im_h X) (im_w X) = Inr (new_h, new_w)"
    and dims: "int (im_h X2) = new_h" "int (im_w X2) = new_w"
    and am: "if 3 < im_d X then \<exists>ms. am = Some (im_h X2, im_w X2, ms) else am = None"
    by blast
  note f = transform_finish_props [OF fin]
  have "int (im_h out) = new_h * fst (upscale pyx)" "int (im_w out) = new_w * snd (upscale pyx)"
    using f(1-4) dims by simp_all
  moreover have "im_d out = (if 3 < im_d X then 4 else 3)"
    using f(5) am by (auto split: if_splits)
  moreover obtain Y where "out = astype_uint8 Y"
    using fin by (auto simp: transform_finish_def split: sum.splits)
  then have "list_all (list_all (list_all (\<lambda>x. 0 \<le> x \<and> x \<le> 255))) (im_px out)"
    using astype_uint8_range [of _ Y] by (auto simp: list_all_iff)
  ultimately show ?thesis
    using gs f(6) by blast
qed

text \<open>
  C9, as the code has it.  Whatever the dithering, an image returned by \<^verbatim>\<open>transform\<close> has the
  height and width given by \<^verbatim>\<open>_get_size\<close> times the two upscale factors: the factor
  \<open>sobel ^ depth\<close> by which the image is enlarged before the loop is divided out again by the
  \<open>depth\<close> downsampling passes.  It has 3 channels, or 4 when the input has an alpha channel,
  and its samples lie between 0 and 255.
\<close>

theorem transform_output_shape:
  assumes "transform L pyx X = Inr (pyx', out)"
  shows "\<exists>new_h new_w.
           get_size L pyx (im_h X) (im_w X) = Inr (new_h, new_w)
         \<and> int (im_h out) = new_h * fst (upscale pyx)
         \<and> int (im_w out) = new_w * snd (upscale pyx)
         \<and> im_d out = (if 3 < im_d X then 4 else 3)
         \<and> wf_image out
         \<and> list_all (list_all (list_all (\<lambda>x. 0 \<le> x \<and> x \<le> 255))) (im_px out)"
  using assms by (rule transform_shape)


text \<open>
  C9 as stated fails: for the default tile size 3 and depth 1 and an image of 1 by 3 pixels,
  with no resizing and an upscale of 1, the claimed height is \<open>1 * 3 ^ 1 * 1 = 3\<close>; the result
  has height 1.
\<close>

theorem transform_output_shape_counterexample:
  "transform demo_library
     (demo_pyx\<lparr>model := Some [(207 / 200, - 7 / 200, - 7 / 200),
                               (- 7 / 200, 207 / 200, - 7 / 200)],
               is_fitted := True\<rparr>) image_a
   = Inr (demo_pyx\<lparr>model := Some [(207 / 200, - 7 / 200, - 7 / 200),
                                    (- 7 / 200, 207 / 200, - 7 / 200)],
                    is_fitted := True,
                    palette_cache := Some [[255, 0, 0], [0, 255, 0]]\<rparr>,
          \<lparr>im_h = 1, im_w = 3, im_d = 3,
           im_px = [[[255, 0, 0], [0, 255, 0], [255, 0, 0]]]\<rparr>)
   \<and> get_size demo_library demo_pyx (im_h image_a) (im_w image_a) = Inr (1, 3)
   \<and> int (im_h \<lparr>im_h = 1, im_w = 3, im_d = 3,
                  im_px = [[[255 :: int, 0, 0], [0, 255, 0], [255, 0, 0]]]\<rparr>)
       \<noteq> (1 * sobel demo_pyx ^ depth demo_pyx) * fst (upscale demo_pyx)"
  using transform_none_image_a
  by (simp add: get_size_def demo_pyx_def image_a_def)

text \<open>C9, as the code has it, for the same call.\<close>

theorem transform_output_shape_witness:
  "transform demo_library
     (demo_pyx\<lparr>model := Some [(207 / 200, - 7 / 200, - 7 / 200),
                               (- 7 / 200, 207 / 200, - 7 / 200)],
               is_fitted := True\<rparr>) image_a
   = Inr (demo_pyx\<lparr>model := Some [(207 / 200, - 7 / 200, - 7 / 200),
                                    (- 7 / 200, 207 / 200, - 7 / 200)],
                    is_fitted := True,
                    palette_cache := Some [[255, 0, 0], [0, 255, 0]]\<rparr>,
          \<lparr>im_h = 1, im_w = 3, im_d = 3,
           im_px = [[[255, 0, 0], [0, 255, 0], [255, 0, 0]]]\<rparr>)
   \<and> (\<exists>new_h new_w.
         get_size demo_library
           (demo_pyx\<lparr>model := Some [(207 / 200, - 7 / 200, - 7 / 200),
                                     (- 7 / 200, 207 / 200, - 7 / 200)],
                     is_fitted := True\<rparr>) (im_h image_a) (im_w image_a) = Inr (new_h, new_w)
       \<and> int (im_h \<lparr>im_h = 1, im_w = 3, im_d = 3,
                      im_px = [[[255 :: int, 0, 0], [0, 255, 0], [255, 0, 0]]]\<rparr>)
           = new_h * 1
       \<and> int (im_w \<lparr>im_h = 1, im_w = 3, im_d = 3,
                      im_px = [[[255 :: int, 0, 0], [0, 255, 0], [255, 0, 0]]]\<rparr>)
           = new_w * 1)"
  using transform_output_shape [OF transform_none_image_a] transform_none_image_a
  by (simp add: demo_pyx_def)

section \<open>Colours are RGB bytes\<close>

lemma clip_range: "lo \<le> hi \<Longrightarrow> lo \<le> clip x lo hi \<and> clip x lo hi \<le> hi"
  by (simp add: clip_def)

lemma quantise_range: "0 \<le> quantise c \<and> quantise c \<le> 255"
proof -
  define v where "v = clip (\<lfloor>c * 255 / real_of_int COLOR_QUANT\<rfloor> * COLOR_QUANT) 0 255"
  have "0 \<le> v \<and> v \<le> 255"
    unfolding v_def by (rule clip_range) simp
  moreover have "quantise c = (if v < COLOR_QUANT * 2 then 0
                               else if v > 255 - COLOR_QUANT * 2 then 255 else v)"
    by (simp add: quantise_def v_def Let_def)
  ultimately show ?thesis by simp
qed

lemma derive_colors_rgb_bytes:
  "rgb_colors (derive_colors L m)" "byte_colors (derive_colors L m)"
  using quantise_range
  by (auto simp: derive_colors_def rgb_colors_def byte_colors_def list_all_iff split: prod.splits)

lemma image_to_int_bytes:
  assumes "image_to_int (PaletteFloats cs) = Inr c"
  shows "byte_colors c"
proof -
  have "0 \<le> \<lfloor>clip (x * 255) 0 255\<rfloor> \<and> \<lfloor>clip (x * 255) 0 255\<rfloor> \<le> 255" for x :: real
    using clip_range [of 0 255 "x * 255"] by (simp add: floor_le_iff le_floor_iff)
  then show ?thesis
    using assms by (auto simp: image_to_int_def byte_colors_def list_all_iff)
qed

lemma colors_rgb:
  assumes "colors L pyx = Inr (pyx', cs)" "rgb_palette pyx"
  shows "rgb_colors cs"
  using assms derive_colors_rgb_bytes(1) [of L]
  by (auto simp: colors_def rgb_palette_def image_to_int_def rgb_colors_def Let_def list_all_iff
           split: option.splits if_splits sum.splits palette.splits)

lemma colors_bytes:
  assumes "colors L pyx = Inr (pyx', cs)" "byte_palette pyx"
  shows "byte_colors cs"
proof (cases "palette_cache pyx")
  case (Some c)
  then show ?thesis using assms by (simp add: colors_def byte_palette_def)
next
  case None
  show ?thesis
  proof (cases "palette pyx")
    case (PaletteCount n)
    then show ?thesis
      using assms(1) None derive_colors_rgb_bytes(2) [of L]
      by (auto simp: colors_def find_palette_def Let_def split: if_splits option.splits)
  next
    case (PaletteFloats fs)
    then show ?thesis
      using assms(1) None image_to_int_bytes [of fs cs]
      by (auto simp: colors_def find_palette_def split: sum.splits)
  next
    case (PaletteInts ics)
    then show ?thesis
      using assms None
      by (auto simp: colors_def find_palette_def image_to_int_def byte_palette_def)
  qed
qed

lemma colors_cache:
  assumes "colors L pyx = Inr (pyx', cs)"
  shows "palette_cache pyx' = Some cs" "palette pyx' = palette pyx" "model pyx' = model pyx"
    "is_fitted pyx' = is_fitted pyx"
  using assms
  by (auto simp: colors_def Let_def split: option.splits if_splits sum.splits)

text \<open>
  Both properties hold for an object fresh from the constructor whose palette has them, and
  \<^verbatim>\<open>fit\<close>, \<^verbatim>\<open>colors\<close> and \<^verbatim>\<open>transform\<close> keep them.
\<close>

lemma palette_invariant_init:
  assumes "init h w f u dp pal dm s a b = Inr pyx"
  shows "rgb_palette pyx \<longleftrightarrow> (case pal of PaletteCount n \<Rightarrow> True
                                | PaletteFloats cs \<Rightarrow> list_all (\<lambda>c. length c = 3) cs
                                | PaletteInts cs \<Rightarrow> rgb_colors cs)"
    and "byte_palette pyx \<longleftrightarrow> (case pal of PaletteInts cs \<Rightarrow> byte_colors cs | _ \<Rightarrow> True)"
  using assms
  by (auto simp: init_def rgb_palette_def byte_palette_def
           split: if_splits sum.splits palette.splits)

lemma palette_invariant_fit:
  assumes "fit L pyx X = Inr pyx'"
  shows "rgb_palette pyx' = rgb_palette pyx" "byte_palette pyx' = byte_palette pyx"
  using fit_fields [OF assms]
  by (auto simp: rgb_palette_def byte_palette_def split: option.splits)

lemma palette_invariant_colors:
  assumes "colors L pyx = Inr (pyx', cs)"
  shows "rgb_palette pyx \<Longrightarrow> rgb_palette pyx'" "byte_palette pyx \<Longrightarrow> byte_palette pyx'"
  using colors_rgb [OF assms] colors_bytes [OF assms] colors_cache(1) [OF assms]
  by (simp_all add: rgb_palette_def byte_palette_def)

section \<open>Every dithering branch returns palette colours\<close>

lemma take_colors_D:
  assumes "take_colors cs idx = Inr X"
  shows "X = map (\<lambda>i. cs ! i) idx" "\<And>i. i \<in> set idx \<Longrightarrow> i < length cs" "set X \<subseteq> set cs"
  using assms by (auto simp: take_colors_def list_all_iff split: if_splits)

lemma fold_err_invariant:
  assumes "fold_err f xs s = Inr s'" "P s"
    and "\<And>s x s'. f s x = Inr s' \<Longrightarrow> P s \<Longrightarrow> P s'"
  shows "P s'"
  using assms(1,2)
proof (induction xs arbitrary: s)
  case Nil
  then show ?case by simp
next
  case (Cons x xs)
  then obtain s1 where "f s x = Inr s1" "fold_err f xs s1 = Inr s'"
    by (auto split: sum.splits)
  then show ?case
    using Cons.IH [of s1] assms(3) [of s x s1] Cons.prems(2) by blast
qed

lemma naive_step_subset:
  assumes "naive_step w padf cs p2 v1 v2 Xc i0 = Inr X'" "set Xc \<subseteq> set cs"
  shows "set X' \<subseteq> set cs"
proof -
  have "X' = Xc \<or> (\<exists>i k. k < length cs \<and> X' = Xc[i := cs ! k])"
    using assms(1)
    by (auto simp: naive_step_def naive_assign_def Let_def not_le split: if_splits)
  then show ?thesis
  proof
    assume "X' = Xc"
    then show ?thesis using assms(2) by simp
  next
    assume "\<exists>i k. k < length cs \<and> X' = Xc[i := cs ! k]"
    then obtain i k where k: "k < length cs" and X': "X' = Xc[i := cs ! k]" by blast
    have "set X' \<subseteq> insert (cs ! k) (set Xc)"
      unfolding X' by (rule set_update_subset_insert)
    then show ?thesis
      using assms(2) nth_mem [OF k] by auto
  qed
qed

lemma dither_naive_D:
  assumes "dither_naive L pyx m R w = Inr (pyx', X4)"
  shows "\<exists>cs X0.
           colors L pyx = Inr (pyx', cs)
         \<and> list_all (\<lambda>r. r \<noteq> []) (predict_proba L (palette pyx) m R)
         \<and> take_colors cs (map argmax (predict_proba L (palette pyx) m R)) = Inr X0
         \<and> fold_err
               (naive_step w (w mod 2 = 0) cs
                  (map argmax (map zero_best (predict_proba L (palette pyx) m R)))
                  (map (\<lambda>r. Max (set r) > 1 / (real (length cs) + 1))
                       (map zero_best (predict_proba L (palette pyx) m R)))
                  (map (\<lambda>r. Max (set r) > 1 / (real (length cs) * DITHER_NAIVE_BOOST + 1))
                       (map zero_best (predict_proba L (palette pyx) m R))))
               (range2 (length X0)) X0 = Inr X4"
  using assms
  by (auto simp: dither_naive_def Let_def split: sum.splits prod.splits if_splits)

lemma dither_none_D:
  assumes "dither_none L pyx m R = Inr (pyx', X4)"
  shows "\<exists>cs. colors L pyx = Inr (pyx', cs) \<and> take_colors cs (map (predict L m) R) = Inr X4"
  using assms by (auto simp: dither_none_def Let_def split: sum.splits prod.splits)

lemma transform_dither_palette:
  assumes "transform_dither L pyx X R h w = Inr (pyx', X4)"
  shows "\<exists>cs. colors L pyx = Inr (pyx', cs) \<and> set X4 \<subseteq> set cs"
proof -
  obtain m where m: "model pyx = Some m"
    using assms by (auto simp: transform_dither_def split: option.splits)
  show ?thesis
  proof (cases "dither pyx")
    case DitherNone
    then show ?thesis
      using assms m dither_none_D [of L pyx m R pyx' X4] take_colors_D(3)
      by (fastforce simp: transform_dither_def)
  next
    case Dither_none
    then show ?thesis
      using assms m dither_none_D [of L pyx m R pyx' X4] take_colors_D(3)
      by (fastforce simp: transform_dither_def)
  next
    case Naive
    then have "dither_naive L pyx m R w = Inr (pyx', X4)"
      using assms m by (simp add: transform_dither_def)
    from dither_naive_D [OF this] obtain cs X0 p2 v1 v2 where
      c: "colors L pyx = Inr (pyx', cs)"
      and t: "take_colors cs (map argmax (predict_proba L (palette pyx) m R)) = Inr X0"
      and f: "fold_err (naive_step w (w mod 2 = 0) cs p2 v1 v2) (range2 (length X0)) X0 = Inr X4"
      by blast
    have "set X4 \<subseteq> set cs"
      using f take_colors_D(3) [OF t]
      by (rule fold_err_invariant) (rule naive_step_subset)
    then show ?thesis using c by blast
  next
    case Bayer
    then show ?thesis
      using assms m take_colors_D(3)
      by (fastforce simp: transform_dither_def dither_bayer_def Let_def
                    split: sum.splits prod.splits if_splits)
  next
    case Floyd
    then show ?thesis
      using assms m take_colors_D(3)
      by (fastforce simp: transform_dither_def dither_floyd_def Let_def
                    split: sum.splits prod.splits if_splits)
  next
    case Atkinson
    then show ?thesis
      using assms m take_colors_D(3)
      by (fastforce simp: transform_dither_def dither_atkinson_def Let_def
                    split: sum.splits prod.splits if_splits)
  qed
qed

section \<open>The pixels of the result are palette colours\<close>

lemma div_less_of_less_mult:
  fixes r :: nat
  assumes "r < h * u"
  shows "r div u < h"
  using assms by (cases "u = 0") (simp_all add: less_mult_imp_div_less)

lemma cell_index_less:
  fixes y :: nat
  assumes "y < h" "x < w"
  shows "y * w + x < h * w"
proof -
  have "y * w + x < y * w + w" using assms(2) by simp
  also have "\<dots> = Suc y * w" by simp
  also have "\<dots> \<le> h * w" using assms(1) by (intro mult_le_mono1) simp
  finally show ?thesis .
qed

text \<open>
  The colour samples of every pixel of the result are a colour of the palette, whatever the
  dithering: the pixel at row \<open>r\<close> and column \<open>c\<close> shows the colour chosen for the cell
  \<open>(r div u0, c div u1)\<close> of the downsampled image.
\<close>

lemma transform_pixels:
  assumes "transform L pyx X = Inr (pyx', out)" "rgb_palette pyx"
  shows "\<exists>X2 am reshaped X4 cs.
           transform_prepare L pyx X = Inr (X2, am) \<and> wf_image X2
         \<and> reshape_to (im_h X2 * im_w X2) 3 (flat (scale_image pyx X2)) = Inr reshaped
         \<and> transform_dither L pyx (scale_image pyx X2) reshaped (im_h X2) (im_w X2)
             = Inr (pyx', X4)
         \<and> colors L pyx = Inr (pyx', cs) \<and> rgb_colors cs \<and> set X4 \<subseteq> set cs
         \<and> length X4 = im_h X2 * im_w X2
         \<and> im_h out = im_h X2 * nat (fst (upscale pyx))
         \<and> im_w out = im_w X2 * nat (snd (upscale pyx))
         \<and> wf_image out
         \<and> (\<forall>r c. r < im_h out \<longrightarrow> c < im_w out \<longrightarrow>
                take 3 (im_px out ! r ! c)
                = map (\<lambda>x. x mod 256)
                    (X4 ! (r div nat (fst (upscale pyx)) * im_w X2
                           + c div nat (snd (upscale pyx)))))"
proof -
  from transform_InrD [OF assms(1)] obtain X2 am reshaped X4 where
    prep: "transform_prepare L pyx X = Inr (X2, am)"
    and resh: "reshape_to (im_h X2 * im_w X2) 3 (flat (scale_image pyx X2)) = Inr reshaped"
    and dith: "transform_dither L pyx (scale_image pyx X2) reshaped (im_h X2) (im_w X2)
               = Inr (pyx', X4)"
    and fin: "transform_finish pyx am (im_h X2) (im_w X2) X4 = Inr out"
    by blast
  from transform_prepare_shape [OF prep] have wf2: "wf_image X2" by blast
  from transform_dither_palette [OF dith] obtain cs where
    cs: "colors L pyx = Inr (pyx', cs)" and sub: "set X4 \<subseteq> set cs"
    by blast
  have rgbcs: "rgb_colors cs" by (rule colors_rgb [OF cs assms(2)])
  have len3: "length p = 3" if "p \<in> set X4" for p
    using that sub rgbcs by (auto simp: rgb_colors_def list_all_iff)
  note f = transform_finish_props [OF fin]
  have "length (concat X4) = length X4 * 3"
    by (rule length_concat_uniform) (rule len3)
  then have lenX4: "length X4 = im_h X2 * im_w X2"
    using f(7) by simp
  have pix: "take 3 (im_px out ! r ! c)
             = map (\<lambda>x. x mod 256)
                 (X4 ! (r div nat (fst (upscale pyx)) * im_w X2
                        + c div nat (snd (upscale pyx))))"
    if "r < im_h out" "c < im_w out" for r c
  proof -
    have "r div nat (fst (upscale pyx)) < im_h X2" "c div nat (snd (upscale pyx)) < im_w X2"
      using that f(3,4) by (auto intro: div_less_of_less_mult)
    then have "r div nat (fst (upscale pyx)) * im_w X2 + c div nat (snd (upscale pyx))
               < length X4"
      unfolding lenX4 by (rule cell_index_less)
    then have "take 3 (drop ((r div nat (fst (upscale pyx)) * im_w X2
                              + c div nat (snd (upscale pyx))) * 3) (concat X4))
               = X4 ! (r div nat (fst (upscale pyx)) * im_w X2 + c div nat (snd (upscale pyx)))"
      by (intro take_drop_concat_uniform len3)
    then show ?thesis
      using f(8) [OF that] by simp
  qed
  show ?thesis
    using prep wf2 resh dith cs rgbcs sub lenX4 f(3,4,6) pix by blast
qed

text \<open>
  C5. Without dithering and for an image of 3 channels, every pixel of the result is one of
  the colours the \<^verbatim>\<open>colors\<close> property returns for the object, provided these are RGB bytes.
\<close>

theorem transform_none_palette_subset:
  assumes "transform L pyx X = Inr (pyx', out)"
    and "dither pyx = DitherNone \<or> dither pyx = Dither_none"
    and "im_d X = 3"
    and "rgb_palette pyx" "byte_palette pyx"
  shows "\<exists>cs. colors L pyx = Inr (pyx', cs) \<and> set (concat (im_px out)) \<subseteq> set cs"
proof -
  from transform_pixels [OF assms(1,4)] obtain X2 am reshaped X4 cs where
    all: "transform_prepare L pyx X = Inr (X2, am) \<and> wf_image X2
         \<and> reshape_to (im_h X2 * im_w X2) 3 (flat (scale_image pyx X2)) = Inr reshaped
         \<and> transform_dither L pyx (scale_image pyx X2) reshaped (im_h X2) (im_w X2)
             = Inr (pyx', X4)
         \<and> colors L pyx = Inr (pyx', cs) \<and> rgb_colors cs \<and> set X4 \<subseteq> set cs
         \<and> length X4 = im_h X2 * im_w X2
         \<and> im_h out = im_h X2 * nat (fst (upscale pyx))
         \<and> im_w out = im_w X2 * nat (snd (upscale pyx))
         \<and> wf_image out
         \<and> (\<forall>r c. r < im_h out \<longrightarrow> c < im_w out \<longrightarrow>
                take 3 (im_px out ! r ! c)
                = map (\<lambda>x. x mod 256)
                    (X4 ! (r div nat (fst (upscale pyx)) * im_w X2
                           + c div nat (snd (upscale pyx)))))"
    by (elim exE) (rule that, assumption)
  have cs: "colors L pyx = Inr (pyx', cs)" and sub: "set X4 \<subseteq> set cs"
    and lenX4: "length X4 = im_h X2 * im_w X2"
    and sh: "im_h out = im_h X2 * nat (fst (upscale pyx))"
            "im_w out = im_w X2 * nat (snd (upscale pyx))"
    and wf: "wf_image out"
    and pixall: "\<forall>r c. r < im_h out \<longrightarrow> c < im_w out \<longrightarrow>
                take 3 (im_px out ! r ! c)
                = map (\<lambda>x. x mod 256)
                    (X4 ! (r div nat (fst (upscale pyx)) * im_w X2
                           + c div nat (snd (upscale pyx))))"
    using all by simp_all
  have pix: "take 3 (im_px out ! r ! c)
             = map (\<lambda>x. x mod 256)
                 (X4 ! (r div nat (fst (upscale pyx)) * im_w X2
                        + c div nat (snd (upscale pyx))))"
    if "r < im_h out" "c < im_w out" for r c
    using pixall that by blast
  have d3: "im_d out = 3"
    using transform_shape [OF assms(1)] assms(3) by auto
  have bytes: "byte_colors cs" by (rule colors_bytes [OF cs assms(5)])
  have "p \<in> set cs" if "p \<in> set (concat (im_px out))" for p
  proof -
    from that obtain row where row: "row \<in> set (im_px out)" "p \<in> set row" by auto
    then obtain r where r: "r < im_h out" "row = im_px out ! r"
      using wf_imageD(1) [OF wf] by (auto simp: in_set_conv_nth)
    then obtain c where c: "c < im_w out" "p = im_px out ! r ! c"
      using row(2) wf_imageD(2) [OF wf r(1)] by (auto simp: in_set_conv_nth)
    define k where "k = r div nat (fst (upscale pyx)) * im_w X2 + c div nat (snd (upscale pyx))"
    have "r div nat (fst (upscale pyx)) < im_h X2" "c div nat (snd (upscale pyx)) < im_w X2"
      using r(1) c(1) sh by (auto intro: div_less_of_less_mult)
    then have k: "k < length X4"
      unfolding lenX4 k_def by (rule cell_index_less)
    then have mem: "X4 ! k \<in> set cs" using sub by auto
    then have "list_all (\<lambda>x. 0 \<le> x \<and> x \<le> 255) (X4 ! k)"
      using bytes by (auto simp: byte_colors_def list_all_iff)
    then have "map (\<lambda>x. x mod 256) (X4 ! k) = X4 ! k"
      by (auto simp: list_all_iff intro!: map_idI)
    moreover have "take 3 p = p"
      using wf_imageD(3) [OF wf r(1) c(1)] d3 c(2) by simp
    ultimately have "p = X4 ! k"
      using pix [OF r(1) c(1)] c(2) by (simp add: k_def)
    then show ?thesis using mem by simp
  qed
  then show ?thesis using cs by blast
qed

text \<open>C5 for the example object, fitted on \<open>image_a\<close>, and that image.\<close>

theorem transform_none_palette_subset_witness:
  "transform demo_library
     (demo_pyx\<lparr>model := Some [(207 / 200, - 7 / 200, - 7 / 200),
                               (- 7 / 200, 207 / 200, - 7 / 200)],
               is_fitted := True\<rparr>) image_a
   = Inr (demo_pyx\<lparr>model := Some [(207 / 200, - 7 / 200, - 7 / 200),
                                    (- 7 / 200, 207 / 200, - 7 / 200)],
                    is_fitted := True,
                    palette_cache := Some [[255, 0, 0], [0, 255, 0]]\<rparr>,
          \<lparr>im_h = 1, im_w = 3, im_d = 3,
           im_px = [[[255, 0, 0], [0, 255, 0], [255, 0, 0]]]\<rparr>)
   \<and> dither (demo_pyx\<lparr>model := Some [(207 / 200, - 7 / 200, - 7 / 200),
                                      (- 7 / 200, 207 / 200, - 7 / 200)],
                      is_fitted := True\<rparr>) = Dither_none
   \<and> im_d image_a = 3
   \<and> rgb_palette (demo_pyx\<lparr>model := Some [(207 / 200, - 7 / 200, - 7 / 200),
                                           (- 7 / 200, 207 / 200, - 7 / 200)],
                           is_fitted := True\<rparr>)
   \<and> byte_palette (demo_pyx\<lparr>model := Some [(207 / 200, - 7 / 200, - 7 / 200),
                                            (- 7 / 200, 207 / 200, - 7 / 200)],
                            is_fitted := True\<rparr>)
   \<and> (\<exists>cs. colors demo_library
               (demo_pyx\<lparr>model := Some [(207 / 200, - 7 / 200, - 7 / 200),
                                         (- 7 / 200, 207 / 200, - 7 / 200)],
                         is_fitted := True\<rparr>)
             = Inr (demo_pyx\<lparr>model := Some [(207 / 200, - 7 / 200, - 7 / 200),
                                              (- 7 / 200, 207 / 200, - 7 / 200)],
                              is_fitted := True,
                              palette_cache := Some [[255, 0, 0], [0, 255, 0]]\<rparr>, cs)
          \<and> set (concat (im_px \<lparr>im_h = 1, im_w = 3, im_d = 3,
                                 im_px = [[[255 :: int, 0, 0], [0, 255, 0], [255, 0, 0]]]\<rparr>))
              \<subseteq> set cs)"
proof -
  let ?P = "demo_pyx\<lparr>model := Some [(207 / 200, - 7 / 200, - 7 / 200),
                                  (- 7 / 200, 207 / 200, - 7 / 200)],
                  is_fitted := True\<rparr>"
  have hyps: "dither ?P = Dither_none \<or> dither ?P = DitherNone" "im_d image_a = 3"
    "rgb_palette ?P" "byte_palette ?P"
    by (simp_all add: demo_pyx_def image_a_def rgb_palette_def byte_palette_def)
  have d: "dither ?P = DitherNone \<or> dither ?P = Dither_none"
    using hyps(1) by blast
  show ?thesis
    using transform_none_palette_subset [OF transform_none_image_a d hyps(2-4)]
      transform_none_image_a hyps
    by (simp add: demo_pyx_def)
qed

section \<open>Ordered dithering\<close>

lemma reshape_to_pixels:
  assumes "wf_image X" "reshape_to (im_h X * im_w X) 3 (flat X) = Inr R"
  shows "R = concat (im_px X)"
proof (cases "im_d X = 3")
  case True
  then show ?thesis
    using reshape_to_flat [OF assms(1)] assms(2) by simp
next
  case False
  have "length (flat X) = im_h X * im_w X * 3"
    using assms(2) by (auto simp: reshape_to_def split: if_splits)
  then have "im_h X * im_w X = 0"
    using flat_length [OF assms(1)] False by auto
  then have "R = []" "length (concat (im_px X)) = 0"
    using assms(2) pixels_length [OF assms(1)] by (auto simp: reshape_to_def split: if_splits)
  then show ?thesis by simp
qed

lemma dither_bayer_D:
  assumes "dither_bayer L pyx m R h w = Inr (pyx', X4)"
  shows "\<exists>cs. colors L pyx = Inr (pyx', cs) \<and> cs \<noteq> []
           \<and> take_colors cs
                 (concat (tabulate2 h w
                    (bayer_index (map (bayer_map L (predict_proba L (palette pyx) m R) h w)
                                      [0..<length cs])))) = Inr X4"
  using assms
  by (auto simp: dither_bayer_def Let_def split: sum.splits prod.splits if_splits)

text \<open>
  C7. With ordered dithering, the pixel of the result at row \<open>r\<close> and column \<open>c\<close> shows the
  palette colour of index \<open>i\<close>, where \<open>i\<close> is the first index at which the convolved
  probability maps, one for each palette colour, are least at the cell \<open>(r div u0, c div u1)\<close>
  of the downsampled image.  The convolution with the Bayer matrix, in reflect mode, is the
  library's.
\<close>

theorem transform_bayer_argmin:
  assumes "transform L pyx X = Inr (pyx', out)" "dither pyx = Bayer" "rgb_palette pyx"
  shows "\<exists>X2 am m cs.
           transform_prepare L pyx X = Inr (X2, am) \<and> model pyx = Some m
         \<and> colors L pyx = Inr (pyx', cs)
         \<and> (\<forall>r c. r < im_h out \<longrightarrow> c < im_w out \<longrightarrow>
               (let maps = map (bayer_map L
                                  (predict_proba L (palette pyx) m
                                     (concat (im_px (scale_image pyx X2))))
                                  (im_h X2) (im_w X2))
                               [0..<length cs];
                    y = r div nat (fst (upscale pyx));
                    x = c div nat (snd (upscale pyx));
                    i = bayer_index maps y x
                in i < length cs
                 \<and> take 3 (im_px out ! r ! c) = map (\<lambda>v. v mod 256) (cs ! i)
                 \<and> (\<forall>j<length cs. maps ! i ! y ! x \<le> maps ! j ! y ! x)
                 \<and> (\<forall>j<i. maps ! j ! y ! x \<noteq> maps ! i ! y ! x)))"
proof -
  from transform_pixels [OF assms(1,3)] obtain X2 am reshaped X4 cs0 where
    all: "transform_prepare L pyx X = Inr (X2, am) \<and> wf_image X2
         \<and> reshape_to (im_h X2 * im_w X2) 3 (flat (scale_image pyx X2)) = Inr reshaped
         \<and> transform_dither L pyx (scale_image pyx X2) reshaped (im_h X2) (im_w X2)
             = Inr (pyx', X4)
         \<and> colors L pyx = Inr (pyx', cs0) \<and> rgb_colors cs0 \<and> set X4 \<subseteq> set cs0
         \<and> length X4 = im_h X2 * im_w X2
         \<and> im_h out = im_h X2 * nat (fst (upscale pyx))
         \<and> im_w out = im_w X2 * nat (snd (upscale pyx))
         \<and> wf_image out
         \<and> (\<forall>r c. r < im_h out \<longrightarrow> c < im_w out \<longrightarrow>
                take 3 (im_px out ! r ! c)
                = map (\<lambda>x. x mod 256)
                    (X4 ! (r div nat (fst (upscale pyx)) * im_w X2
                           + c div nat (snd (upscale pyx)))))"
    by (elim exE) (rule that, assumption)
  have prep: "transform_prepare L pyx X = Inr (X2, am)" and wf2: "wf_image X2"
    and resh: "reshape_to (im_h X2 * im_w X2) 3 (flat (scale_image pyx X2)) = Inr reshaped"
    and dith: "transform_dither L pyx (scale_image pyx X2) reshaped (im_h X2) (im_w X2)
               = Inr (pyx', X4)"
    and sh: "im_h out = im_h X2 * nat (fst (upscale pyx))"
            "im_w out = im_w X2 * nat (snd (upscale pyx))"
    and pixall: "\<forall>r c. r < im_h out \<longrightarrow> c < im_w out \<longrightarrow>
                take 3 (im_px out ! r ! c)
                = map (\<lambda>x. x mod 256)
                    (X4 ! (r div nat (fst (upscale pyx)) * im_w X2
                           + c div nat (snd (upscale pyx))))"
    using all by simp_all
  have R: "reshaped = concat (im_px (scale_image pyx X2))"
    using reshape_to_pixels [OF wf_scale_image [OF wf2], of pyx reshaped] resh by simp
  obtain m where m: "model pyx = Some m"
    using dith by (auto simp: transform_dither_def split: option.splits)
  have "dither_bayer L pyx m reshaped (im_h X2) (im_w X2) = Inr (pyx', X4)"
    using dith m assms(2) by (simp add: transform_dither_def)
  from dither_bayer_D [OF this] obtain cs where
    cs: "colors L pyx = Inr (pyx', cs)" and ne: "cs \<noteq> []"
    and tk: "take_colors cs
               (concat (tabulate2 (im_h X2) (im_w X2)
                  (bayer_index (map (bayer_map L (predict_proba L (palette pyx) m reshaped)
                                       (im_h X2) (im_w X2))
                                    [0..<length cs])))) = Inr X4"
    by blast
  define maps where "maps = map (bayer_map L (predict_proba L (palette pyx) m reshaped)
                                   (im_h X2) (im_w X2)) [0..<length cs]"
  have lmaps: "length maps = length cs" by (simp add: maps_def)
  have X4: "X4 = map (\<lambda>i. cs ! i) (concat (tabulate2 (im_h X2) (im_w X2) (bayer_index maps)))"
    using take_colors_D(1) [OF tk] by (simp add: maps_def)
  have cell: "let y = r div nat (fst (upscale pyx)); x = c div nat (snd (upscale pyx));
                  i = bayer_index maps y x
              in i < length cs
               \<and> take 3 (im_px out ! r ! c) = map (\<lambda>v. v mod 256) (cs ! i)
               \<and> (\<forall>j<length cs. maps ! i ! y ! x \<le> maps ! j ! y ! x)
               \<and> (\<forall>j<i. maps ! j ! y ! x \<noteq> maps ! i ! y ! x)"
    if rc: "r < im_h out" "c < im_w out" for r c
  proof -
    define y where "y = r div nat (fst (upscale pyx))"
    define x where "x = c div nat (snd (upscale pyx))"
    define vs where "vs = map (\<lambda>mp. mp ! y ! x) maps"
    define i where "i = bayer_index maps y x"
    have yx: "y < im_h X2" "x < im_w X2"
      using rc sh by (auto simp: y_def x_def intro: div_less_of_less_mult)
    have vne: "vs \<noteq> []" using ne lmaps by (auto simp: vs_def)
    have i: "i = argmin vs" by (simp add: i_def bayer_index_def vs_def)
    note a = argmin_props [OF vne]
    have ilt: "i < length cs" using a(1) lmaps by (simp add: i vs_def)
    have nthvs: "vs ! j = maps ! j ! y ! x" if "j < length cs" for j
      using that lmaps by (simp add: vs_def)
    have least: "maps ! i ! y ! x \<le> maps ! j ! y ! x" if "j < length cs" for j
      using a(3) [of j] that nthvs [OF that] nthvs [OF ilt] lmaps by (simp add: i vs_def)
    have first: "maps ! j ! y ! x \<noteq> maps ! i ! y ! x" if "j < i" for j
    proof -
      have "j < length cs" using that ilt by simp
      then show ?thesis
        using a(4) [of j] that nthvs [of j] nthvs [OF ilt] by (simp add: i)
    qed
    have "concat (tabulate2 (im_h X2) (im_w X2) (bayer_index maps)) ! (y * im_w X2 + x) = i"
      using concat_tabulate2_nth [OF yx] by (simp add: i_def)
    moreover have "y * im_w X2 + x < im_h X2 * im_w X2"
      using yx by (rule cell_index_less)
    ultimately have "X4 ! (y * im_w X2 + x) = cs ! i"
      by (simp add: X4)
    then have "take 3 (im_px out ! r ! c) = map (\<lambda>v. v mod 256) (cs ! i)"
      using pixall rc by (simp add: y_def x_def)
    then show ?thesis
      using ilt least first by (simp add: Let_def y_def x_def i_def)
  qed
  show ?thesis
    using prep m cs cell unfolding maps_def R Let_def by blast
qed


lemma fit_image_d:
  "fit demo_library (demo_pyx\<lparr>palette := PaletteCount 3, dither := dm\<rparr>) image_d
   = Inr (demo_fitted3 dm)"
  by (simp add: fit_eval demo_pyx_def image_d_def demo_fitted3_def)

lemma prepare_image_d:
  "transform_prepare demo_library (demo_fitted3 dm) image_d
   = Inr (\<lparr>im_h = 1, im_w = 4, im_d = 3,
           im_px = [[[1, 0, 0], [0, 1, 0], [0, 0, 1], [1, 1, 1]]]\<rparr>, None)"
  by (simp add: eval_prepare demo_pyx_def image_d_def demo_fitted3_def)

lemmas eval_bayer = dither_bayer_def bayer_map_def bayer_index_def reshape_plane_def column_def
  predict_proba_def DITHER_BAYER_MATRIX_def reflect_index_def

lemma transform_bayer_image_d:
  "transform demo_library (demo_fitted3 Bayer) image_d
   = Inr ((demo_fitted3 Bayer)\<lparr>palette_cache := Some [[255, 0, 0], [0, 255, 0], [0, 0, 255]]\<rparr>,
          \<lparr>im_h = 1, im_w = 4, im_d = 3,
           im_px = [[[255, 0, 0], [255, 0, 0], [0, 255, 0], [0, 0, 255]]]\<rparr>)"
  using prepare_image_d [of Bayer]
  by (simp add: eval_body eval_bayer demo_pyx_def image_d_def demo_fitted3_def power2_eq_square)

text \<open>
  C7 for the example object with 3 colours, fitted on \<open>image_d\<close>, and that image: the result
  is red, red, green, blue.
\<close>

theorem transform_bayer_argmin_witness:
  "transform demo_library (demo_fitted3 Bayer) image_d
   = Inr ((demo_fitted3 Bayer)\<lparr>palette_cache := Some [[255, 0, 0], [0, 255, 0], [0, 0, 255]]\<rparr>,
          \<lparr>im_h = 1, im_w = 4, im_d = 3,
           im_px = [[[255, 0, 0], [255, 0, 0], [0, 255, 0], [0, 0, 255]]]\<rparr>)
   \<and> dither (demo_fitted3 Bayer) = Bayer
   \<and> rgb_palette (demo_fitted3 Bayer)
   \<and> (\<exists>X2 am m cs.
         transform_prepare demo_library (demo_fitted3 Bayer) image_d = Inr (X2, am)
       \<and> model (demo_fitted3 Bayer) = Some m
       \<and> colors demo_library (demo_fitted3 Bayer)
          = Inr ((demo_fitted3 Bayer)\<lparr>palette_cache :=
                    Some [[255, 0, 0], [0, 255, 0], [0, 0, 255]]\<rparr>, cs)
       \<and> (\<forall>r c. r < im_h \<lparr>im_h = 1, im_w = 4, im_d = 3,
                            im_px = [[[255 :: int, 0, 0], [255, 0, 0], [0, 255, 0], [0, 0, 255]]]\<rparr>
             \<longrightarrow> c < im_w \<lparr>im_h = 1, im_w = 4, im_d = 3,
                            im_px = [[[255 :: int, 0, 0], [255, 0, 0], [0, 255, 0], [0, 0, 255]]]\<rparr>
             \<longrightarrow>
             (let maps = map (bayer_map demo_library
                                (predict_proba demo_library (palette (demo_fitted3 Bayer)) m
                                   (concat (im_px (scale_image (demo_fitted3 Bayer) X2))))
                                (im_h X2) (im_w X2))
                             [0..<length cs];
                  y = r div nat (fst (upscale (demo_fitted3 Bayer)));
                  x = c div nat (snd (upscale (demo_fitted3 Bayer)));
                  i = bayer_index maps y x
              in i < length cs
               \<and> take 3 (im_px \<lparr>im_h = 1, im_w = 4, im_d = 3,
                                 im_px = [[[255 :: int, 0, 0], [255, 0, 0], [0, 255, 0],
                                           [0, 0, 255]]]\<rparr> ! r ! c)
                   = map (\<lambda>v. v mod 256) (cs ! i)
               \<and> (\<forall>j<length cs. maps ! i ! y ! x \<le> maps ! j ! y ! x)
               \<and> (\<forall>j<i. maps ! j ! y ! x \<noteq> maps ! i ! y ! x))))"
proof -
  have d: "dither (demo_fitted3 Bayer) = Bayer"
    by (simp add: demo_fitted3_def)
  have rp: "rgb_palette (demo_fitted3 Bayer)"
    by (simp add: demo_fitted3_def demo_pyx_def rgb_palette_def)
  show ?thesis
    by (intro conjI transform_bayer_image_d d rp
          transform_bayer_argmin [OF transform_bayer_image_d d rp])
qed

section \<open>Naive dithering: the substituted pixels\<close>

lemma naive_step_eq:
  assumes "naive_step w padf cs p2 v1 v2 Xc i0 = Inr X'"
  shows "X' = (if naive_hit w padf v1 v2 i0
               then Xc[naive_target w padf i0 := cs ! (p2 ! naive_target w padf i0)]
               else Xc)"
  using assms
  by (auto simp: naive_step_def naive_assign_def naive_hit_def naive_target_def Let_def
           split: if_splits)

lemma naive_fold_eq:
  assumes "fold_err (naive_step w padf cs p2 v1 v2) is0 X0 = Inr Xn"
  shows "length Xn = length X0
       \<and> (\<forall>j<length X0.
             Xn ! j = (if j \<in> naive_target w padf ` set (filter (naive_hit w padf v1 v2) is0)
                       then cs ! (p2 ! j) else X0 ! j))"
  using assms
proof (induction is0 arbitrary: X0)
  case Nil
  then show ?case by simp
next
  case (Cons i0 is0)
  then obtain X1 where s: "naive_step w padf cs p2 v1 v2 X0 i0 = Inr X1"
    and f: "fold_err (naive_step w padf cs p2 v1 v2) is0 X1 = Inr Xn"
    by (auto split: sum.splits)
  have X1: "X1 = (if naive_hit w padf v1 v2 i0
                  then X0[naive_target w padf i0 := cs ! (p2 ! naive_target w padf i0)]
                  else X0)"
    by (rule naive_step_eq [OF s])
  then have len: "length X1 = length X0" by simp
  from Cons.IH [OF f] have IH: "length Xn = length X1"
    "\<And>j. j < length X1 \<Longrightarrow>
       Xn ! j = (if j \<in> naive_target w padf ` set (filter (naive_hit w padf v1 v2) is0)
                 then cs ! (p2 ! j) else X1 ! j)"
    by simp_all
  show ?case
  proof (intro conjI allI impI)
    show "length Xn = length X0" using IH(1) len by simp
  next
    fix j assume j: "j < length X0"
    show "Xn ! j = (if j \<in> naive_target w padf ` set (filter (naive_hit w padf v1 v2) (i0 # is0))
                    then cs ! (p2 ! j) else X0 ! j)"
      using IH(2) [of j] j len by (auto simp: X1 nth_list_update)
  qed
qed

lemma even_target_row:
  fixes i0 w :: nat
  assumes "even i0" "even w" "0 < w"
  shows "(i0 + (i0 div w) mod 2) div w = i0 div w"
proof -
  define q where "q = i0 div w"
  define r where "r = i0 mod w"
  have i0: "i0 = q * w + r" unfolding q_def r_def by (metis div_mult_mod_eq)
  have "even r"
    unfolding r_def using dvd_mod_iff [OF assms(2), of i0] assms(1) by blast
  moreover have "r < w" unfolding r_def using assms(3) by simp
  ultimately have "Suc r < w"
    using assms(2) by presburger
  moreover have "q mod 2 \<le> 1" by simp
  ultimately have lt: "r + q mod 2 < w" by linarith
  have "(i0 + q mod 2) div w = (q * w + (r + q mod 2)) div w"
    by (simp add: i0 add.assoc)
  also have "\<dots> = q"
    using lt assms(3) by simp
  finally show ?thesis by (simp add: q_def)
qed

text \<open>
  Two indices the loop looks at are never next to each other in a row: for an odd width they
  are all even; for an even width they stay in the row of the loop variable and have the
  parity of that row.
\<close>

lemma naive_targets_not_adjacent:
  assumes "even i0" "even i1" "padf \<longleftrightarrow> w mod 2 = 0"
    and "naive_target w padf i1 = Suc (naive_target w padf i0)"
  shows "naive_target w padf i0 div w \<noteq> Suc (naive_target w padf i0) div w"
proof (cases "padf \<and> 0 < w")
  case False
  then have "naive_target w padf i0 = i0" "naive_target w padf i1 = i1"
    by (auto simp: naive_target_def)
  then have "i1 = Suc i0" using assms(4) by simp
  then show ?thesis using assms(1,2) by simp
next
  case True
  then have ew: "even w" and pos: "0 < w" and p: "padf"
    using assms(3) by (auto simp: even_iff_mod_2_eq_zero)
  define t0 where "t0 = naive_target w padf i0"
  define t1 where "t1 = naive_target w padf i1"
  have t0: "t0 = i0 + (i0 div w) mod 2" and t1: "t1 = i1 + (i1 div w) mod 2"
    using p by (simp_all add: t0_def t1_def naive_target_def)
  have row0: "t0 div w = i0 div w" and row1: "t1 div w = i1 div w"
    unfolding t0 t1 by (rule even_target_row [OF _ ew pos], rule assms)+
  have par: "(i + q mod 2) mod 2 = q mod 2" if "even i" for i q :: nat
  proof -
    from that obtain k where "i = 2 * k" by (auto elim: evenE)
    then show ?thesis by simp
  qed
  have par0: "t0 mod 2 = (t0 div w) mod 2"
    unfolding row0 unfolding t0 by (rule par [OF assms(1)])
  have par1: "t1 mod 2 = (t1 div w) mod 2"
    unfolding row1 unfolding t1 by (rule par [OF assms(2)])
  show ?thesis
  proof
    assume "naive_target w padf i0 div w = Suc (naive_target w padf i0) div w"
    then have "t0 div w = t1 div w"
      using assms(4) by (simp add: t0_def t1_def)
    then have "t0 mod 2 = t1 mod 2" using par0 par1 by simp
    moreover have "t1 = Suc t0" using assms(4) by (simp add: t0_def t1_def)
    ultimately show False by presburger
  qed
qed

lemma range2_even: "i \<in> set (range2 n) \<Longrightarrow> even i"
  by (auto simp: range2_def)

lemma naive_substituted_not_adjacent:
  assumes "j \<in> naive_substituted w (w mod 2 = 0) v1 v2 n"
    and "Suc j \<in> naive_substituted w (w mod 2 = 0) v1 v2 n"
  shows "j div w \<noteq> Suc j div w"
proof -
  from assms obtain i0 i1 where
    "i0 \<in> set (range2 n)" "j = naive_target w (w mod 2 = 0) i0"
    "i1 \<in> set (range2 n)" "Suc j = naive_target w (w mod 2 = 0) i1"
    by (auto simp: naive_substituted_def)
  then show ?thesis
    using naive_targets_not_adjacent [of i0 i1 "w mod 2 = 0" w] range2_even by auto
qed

section \<open>Naive dithering in transform\<close>

lemma length_predict_proba [simp]: "length (predict_proba L pal m R) = length R"
  by (cases pal) (simp_all add: predict_proba_def Let_def)

text \<open>
  C8. With naive dithering the pixel at index \<open>j\<close> of the downsampled image, counted row by
  row, gets the second-best colour if \<open>j\<close> is in the set the loop substitutes and the best
  colour otherwise, and no two indices of that set are next to each other in a row.
\<close>

theorem transform_naive_not_adjacent:
  assumes "transform L pyx X = Inr (pyx', out)" "dither pyx = Naive" "rgb_palette pyx"
  shows "\<exists>X2 am m cs.
           transform_prepare L pyx X = Inr (X2, am) \<and> model pyx = Some m
         \<and> colors L pyx = Inr (pyx', cs)
         \<and> (let probs = predict_proba L (palette pyx) m (concat (im_px (scale_image pyx X2)));
                probs0 = map zero_best probs;
                v1 = map (\<lambda>r. Max (set r) > 1 / (real (length cs) + 1)) probs0;
                v2 = map (\<lambda>r. Max (set r) > 1 / (real (length cs) * DITHER_NAIVE_BOOST + 1))
                         probs0;
                S = naive_substituted (im_w X2) (im_w X2 mod 2 = 0) v1 v2 (length probs)
            in (\<forall>j. j \<in> S \<longrightarrow> Suc j \<in> S \<longrightarrow> j div im_w X2 \<noteq> Suc j div im_w X2)
             \<and> (\<forall>r c. r < im_h out \<longrightarrow> c < im_w out \<longrightarrow>
                   (let j = r div nat (fst (upscale pyx)) * im_w X2
                            + c div nat (snd (upscale pyx))
                    in take 3 (im_px out ! r ! c)
                       = map (\<lambda>v. v mod 256)
                           (cs ! (if j \<in> S then argmax (probs0 ! j) else argmax (probs ! j))))))"
proof -
  from transform_pixels [OF assms(1,3)] obtain X2 am reshaped X4 cs0 where
    all: "transform_prepare L pyx X = Inr (X2, am) \<and> wf_image X2
         \<and> reshape_to (im_h X2 * im_w X2) 3 (flat (scale_image pyx X2)) = Inr reshaped
         \<and> transform_dither L pyx (scale_image pyx X2) reshaped (im_h X2) (im_w X2)
             = Inr (pyx', X4)
         \<and> colors L pyx = Inr (pyx', cs0) \<and> rgb_colors cs0 \<and> set X4 \<subseteq> set cs0
         \<and> length X4 = im_h X2 * im_w X2
         \<and> im_h out = im_h X2 * nat (fst (upscale pyx))
         \<and> im_w out = im_w X2 * nat (snd (upscale pyx))
         \<and> wf_image out
         \<and> (\<forall>r c. r < im_h out \<longrightarrow> c < im_w out \<longrightarrow>
                take 3 (im_px out ! r ! c)
                = map (\<lambda>x. x mod 256)
                    (X4 ! (r div nat (fst (upscale pyx)) * im_w X2
                           + c div nat (snd (upscale pyx)))))"
    by (elim exE) (rule that, assumption)
  have prep: "transform_prepare L pyx X = Inr (X2, am)" and wf2: "wf_image X2"
    and resh: "reshape_to (im_h X2 * im_w X2) 3 (flat (scale_image pyx X2)) = Inr reshaped"
    and dith: "transform_dither L pyx (scale_image pyx X2) reshaped (im_h X2) (im_w X2)
               = Inr (pyx', X4)"
    and lenX4: "length X4 = im_h X2 * im_w X2"
    and sh: "im_h out = im_h X2 * nat (fst (upscale pyx))"
            "im_w out = im_w X2 * nat (snd (upscale pyx))"
    and pixall: "\<forall>r c. r < im_h out \<longrightarrow> c < im_w out \<longrightarrow>
                take 3 (im_px out ! r ! c)
                = map (\<lambda>x. x mod 256)
                    (X4 ! (r div nat (fst (upscale pyx)) * im_w X2
                           + c div nat (snd (upscale pyx))))"
    using all by simp_all
  have R: "reshaped = concat (im_px (scale_image pyx X2))"
    using reshape_to_pixels [OF wf_scale_image [OF wf2], of pyx reshaped] resh by simp
  obtain m where m: "model pyx = Some m"
    using dith by (auto simp: transform_dither_def split: option.splits)
  define probs where "probs = predict_proba L (palette pyx) m reshaped"
  define probs0 where "probs0 = map zero_best probs"
  have "dither_naive L pyx m reshaped (im_w X2) = Inr (pyx', X4)"
    using dith m assms(2) by (simp add: transform_dither_def)
  from dither_naive_D [OF this] obtain cs X0 where
    cs: "colors L pyx = Inr (pyx', cs)"
    and tk: "take_colors cs (map argmax probs) = Inr X0"
    and fold: "fold_err
               (naive_step (im_w X2) (im_w X2 mod 2 = 0) cs
                  (map argmax probs0)
                  (map (\<lambda>r. Max (set r) > 1 / (real (length cs) + 1)) probs0)
                  (map (\<lambda>r. Max (set r) > 1 / (real (length cs) * DITHER_NAIVE_BOOST + 1))
                       probs0))
               (range2 (length X0)) X0 = Inr X4"
    unfolding probs_def probs0_def by blast
  define v1 where "v1 = map (\<lambda>r. Max (set r) > 1 / (real (length cs) + 1)) probs0"
  define v2 where "v2 = map (\<lambda>r. Max (set r) > 1 / (real (length cs) * DITHER_NAIVE_BOOST + 1))
                            probs0"
  define S where "S = naive_substituted (im_w X2) (im_w X2 mod 2 = 0) v1 v2 (length probs)"
  have X0: "X0 = map (\<lambda>i. cs ! i) (map argmax probs)"
    by (rule take_colors_D(1) [OF tk])
  then have lenX0: "length X0 = length probs" by simp
  note fe = naive_fold_eq [OF fold [folded v1_def v2_def]]
  have lenp: "length probs = im_h X2 * im_w X2"
    using fe lenX0 lenX4 by simp
  have cellcol: "X4 ! j = cs ! (if j \<in> S then argmax (probs0 ! j) else argmax (probs ! j))"
    if "j < im_h X2 * im_w X2" for j
  proof -
    have j: "j < length X0" "j < length probs" using that lenp lenX0 by simp_all
    have "X4 ! j = (if j \<in> S then cs ! (map argmax probs0 ! j) else X0 ! j)"
      using fe j(1) by (simp add: S_def naive_substituted_def lenX0)
    then show ?thesis
      using j(2) by (simp add: X0 probs0_def)
  qed
  have adj: "j div im_w X2 \<noteq> Suc j div im_w X2" if "j \<in> S" "Suc j \<in> S" for j
    using that unfolding S_def by (rule naive_substituted_not_adjacent)
  have pix: "let j = r div nat (fst (upscale pyx)) * im_w X2 + c div nat (snd (upscale pyx))
             in take 3 (im_px out ! r ! c)
                = map (\<lambda>v. v mod 256)
                    (cs ! (if j \<in> S then argmax (probs0 ! j) else argmax (probs ! j)))"
    if rc: "r < im_h out" "c < im_w out" for r c
  proof -
    have "r div nat (fst (upscale pyx)) < im_h X2" "c div nat (snd (upscale pyx)) < im_w X2"
      using rc sh by (auto intro: div_less_of_less_mult)
    then have "r div nat (fst (upscale pyx)) * im_w X2 + c div nat (snd (upscale pyx))
               < im_h X2 * im_w X2"
      by (rule cell_index_less)
    from cellcol [OF this] show ?thesis
      using pixall rc by (simp add: Let_def)
  qed
  show ?thesis
    using prep m cs adj pix
    unfolding S_def v1_def v2_def probs0_def probs_def R Let_def by blast
qed

lemmas eval_naive = dither_naive_def predict_proba_def zero_best_def range2_def naive_step_def
  naive_assign_def DITHER_NAIVE_BOOST_def

lemma fit_image_e:
  "fit demo_library (demo_pyx\<lparr>palette := PaletteCount 3, dither := Naive\<rparr>) image_e
   = Inr demo_fitted_naive"
  by (simp add: fit_eval demo_pyx_def image_e_def demo_fitted_naive_def)

lemma prepare_image_e:
  "transform_prepare demo_library demo_fitted_naive image_e
   = Inr (\<lparr>im_h = 1, im_w = 4, im_d = 3,
           im_px = [[[1, 0, 0], [0, 1, 0], [1, 1, 0], [0, 0, 0]]]\<rparr>, None)"
  by (simp add: eval_prepare demo_pyx_def image_e_def demo_fitted_naive_def)

lemma transform_naive_image_e:
  "transform demo_library demo_fitted_naive image_e
   = Inr (demo_fitted_naive\<lparr>palette_cache := Some [[255, 0, 0], [0, 255, 0], [255, 255, 0]]\<rparr>,
          \<lparr>im_h = 1, im_w = 4, im_d = 3,
           im_px = [[[255, 255, 0], [0, 255, 0], [255, 0, 0], [255, 0, 0]]]\<rparr>)"
  using prepare_image_e
  by (simp add: eval_body eval_naive demo_pyx_def image_e_def demo_fitted_naive_def
        power2_eq_square)

text \<open>
  C8 for the example object with 3 colours, fitted on \<open>image_e\<close>, and that image: the best
  colours are red, green, yellow and red; the first and the third pixel are substituted, and
  the result is yellow, green, red, red.
\<close>

theorem transform_naive_not_adjacent_witness:
  "transform demo_library demo_fitted_naive image_e
   = Inr (demo_fitted_naive\<lparr>palette_cache := Some [[255, 0, 0], [0, 255, 0], [255, 255, 0]]\<rparr>,
          \<lparr>im_h = 1, im_w = 4, im_d = 3,
           im_px = [[[255, 255, 0], [0, 255, 0], [255, 0, 0], [255, 0, 0]]]\<rparr>)
   \<and> dither demo_fitted_naive = Naive
   \<and> rgb_palette demo_fitted_naive
   \<and> (\<exists>X2 am m cs.
         transform_prepare demo_library demo_fitted_naive image_e = Inr (X2, am)
       \<and> model demo_fitted_naive = Some m
       \<and> colors demo_library demo_fitted_naive
          = Inr (demo_fitted_naive\<lparr>palette_cache :=
                    Some [[255, 0, 0], [0, 255, 0], [255, 255, 0]]\<rparr>, cs)
       \<and> (let probs = predict_proba demo_library (palette demo_fitted_naive) m
                         (concat (im_px (scale_image demo_fitted_naive X2)));
              probs0 = map zero_best probs;
              v1 = map (\<lambda>r. Max (set r) > 1 / (real (length cs) + 1)) probs0;
              v2 = map (\<lambda>r. Max (set r) > 1 / (real (length cs) * DITHER_NAIVE_BOOST + 1))
                       probs0;
              S = naive_substituted (im_w X2) (im_w X2 mod 2 = 0) v1 v2 (length probs)
          in (\<forall>j. j \<in> S \<longrightarrow> Suc j \<in> S \<longrightarrow> j div im_w X2 \<noteq> Suc j div im_w X2)
           \<and> (\<forall>r c. r < im_h \<lparr>im_h = 1, im_w = 4, im_d = 3,
                                im_px = [[[255 :: int, 255, 0], [0, 255, 0], [255, 0, 0],
                                          [255, 0, 0]]]\<rparr>
                 \<longrightarrow> c < im_w \<lparr>im_h = 1, im_w = 4, im_d = 3,
                                im_px = [[[255 :: int, 255, 0], [0, 255, 0], [255, 0, 0],
                                          [255, 0, 0]]]\<rparr>
                 \<longrightarrow>
                 (let j = r div nat (fst (upscale demo_fitted_naive)) * im_w X2
                          + c div nat (snd (upscale demo_fitted_naive))
                  in take 3 (im_px \<lparr>im_h = 1, im_w = 4, im_d = 3,
                                    im_px = [[[255 :: int, 255, 0], [0, 255, 0], [255, 0, 0],
                                              [255, 0, 0]]]\<rparr> ! r ! c)
                     = map (\<lambda>v. v mod 256)
                         (cs ! (if j \<in> S then argmax (probs0 ! j)
                                else argmax (probs ! j)))))))"
proof -
  have d: "dither demo_fitted_naive = Naive"
    by (simp add: demo_fitted_naive_def)
  have rp: "rgb_palette demo_fitted_naive"
    by (simp add: demo_fitted_naive_def demo_pyx_def rgb_palette_def)
  show ?thesis
    by (intro conjI transform_naive_image_e d rp
          transform_naive_not_adjacent [OF transform_naive_image_e d rp])
qed

end
